theory Spec2Isabelle
  imports Main "HOL-Library.Word"
begin

unbundle bit_operations_syntax

section \<open>Common numeric types: \<open>packages/common/src/byte.ts\<close>\<close>

text \<open>
  JavaScript numbers that hold integers are modelled as \<open>int\<close>. The private constructor
  of \<open>Byte\<close> stores \<open>input | 0\<close>, the conversion of the input to a signed 32-bit integer.
\<close>

definition toInt32 :: "int \<Rightarrow> int" where
  "toInt32 x = (x + 2 ^ 31) mod 2 ^ 32 - 2 ^ 31"

definition isSafeInteger :: "int \<Rightarrow> bool" where
  "isSafeInteger v \<longleftrightarrow> - (2 ^ 53 - 1) \<le> v \<and> v \<le> 2 ^ 53 - 1"

record Byte =
  byte_value :: int
  byte_size :: nat

datatype RangeError = RangeError int nat

definition newByte :: "int \<Rightarrow> nat \<Rightarrow> Byte" where
  "newByte input sz = \<lparr>byte_value = toInt32 input, byte_size = sz\<rparr>"

definition minValue :: int where
  "minValue = 0"

definition maxValue :: "nat \<Rightarrow> int" where
  "maxValue sz = 2 ^ sz - 1"

definition minSignedValue :: "nat \<Rightarrow> int" where
  "minSignedValue sz = - (2 ^ (sz - 1))"

definition maxSignedValue :: "nat \<Rightarrow> int" where
  "maxSignedValue sz = 2 ^ (sz - 1) - 1"

definition unsigned_of :: "Byte \<Rightarrow> int" where
  "unsigned_of b = byte_value b"

definition signed_of :: "Byte \<Rightarrow> int" where
  "signed_of b =
     (if byte_value b \<le> maxSignedValue (byte_size b) then byte_value b
      else byte_value b - (maxValue (byte_size b) + 1))"

definition fitsUnsigned :: "int \<Rightarrow> nat \<Rightarrow> bool" where
  "fitsUnsigned v sz \<longleftrightarrow> isSafeInteger v \<and> v \<ge> minValue \<and> v \<le> maxValue sz"

definition fitsSigned :: "int \<Rightarrow> nat \<Rightarrow> bool" where
  "fitsSigned v sz \<longleftrightarrow> isSafeInteger v \<and> v \<ge> minSignedValue sz \<and> v \<le> maxSignedValue sz"

definition fromUnsigned :: "int \<Rightarrow> nat \<Rightarrow> RangeError + Byte" where
  "fromUnsigned v sz =
     (if \<not> fitsUnsigned v sz then Inl (RangeError v sz) else Inr (newByte v sz))"

definition fromSigned :: "int \<Rightarrow> nat \<Rightarrow> RangeError + Byte" where
  "fromSigned v sz =
     (if \<not> fitsSigned v sz then Inl (RangeError v sz)
      else if v < 0 then Inr (newByte (v + maxValue sz + 1) sz)
      else Inr (newByte v sz))"

section \<open>ALU of the store-based simulator: \<open>src/helpers.ts\<close>, \<open>computer/index.ts\<close>\<close>

datatype Size = SByte | SWord

text \<open>
  Modelled from the spec: the module \<open>config\<close> is not part of the sources. A fixed-width
  value of n bits stores an unsigned integer in [0, 2^n - 1] and has a two's-complement
  signed view, which gives the tables \<open>MAX_VALUE\<close> and \<open>MAX_SIGNED_VALUE\<close> and the
  constants \<open>MAX_BYTE_VALUE\<close>, \<open>MAX_WORD_VALUE\<close>, \<open>MAX_SIGNED_*\<close> and \<open>MIN_SIGNED_*\<close>.
\<close>

fun MAX_VALUE :: "Size \<Rightarrow> int" where
  "MAX_VALUE SByte = 255"
| "MAX_VALUE SWord = 65535"

fun MAX_SIGNED_VALUE :: "Size \<Rightarrow> int" where
  "MAX_SIGNED_VALUE SByte = 127"
| "MAX_SIGNED_VALUE SWord = 32767"

fun MIN_SIGNED_VALUE :: "Size \<Rightarrow> int" where
  "MIN_SIGNED_VALUE SByte = - 128"
| "MIN_SIGNED_VALUE SWord = - 32768"

text \<open>
  The bitwise operators of JavaScript convert both operands to signed 32-bit integers and
  return one.
\<close>

definition js_and :: "int \<Rightarrow> int \<Rightarrow> int" where
  "js_and a b = toInt32 (toInt32 a AND toInt32 b)"

definition js_or :: "int \<Rightarrow> int \<Rightarrow> int" where
  "js_or a b = toInt32 (toInt32 a OR toInt32 b)"

definition js_shl :: "int \<Rightarrow> nat \<Rightarrow> int" where
  "js_shl a n = toInt32 (push_bit (n mod 32) (toInt32 a))"

definition js_sar :: "int \<Rightarrow> nat \<Rightarrow> int" where
  "js_sar a n = drop_bit (n mod 32) (toInt32 a)"

definition joinLowHigh :: "int \<Rightarrow> int \<Rightarrow> int" where
  "joinLowHigh low high = js_or (js_shl high 8) low"

definition splitLowHigh :: "int \<Rightarrow> int \<times> int" where
  "splitLowHigh v = (js_and v 255, js_and (js_sar v 8) 255)"

definition unsignedToSigned :: "int \<Rightarrow> Size \<Rightarrow> int" where
  "unsignedToSigned n sz = (if n > MAX_VALUE sz then MAX_VALUE sz - n else n)"

definition signedToUnsigned :: "int \<Rightarrow> Size \<Rightarrow> int" where
  "signedToUnsigned n sz = (if n < 0 then MAX_SIGNED_VALUE sz - n else n)"

datatype ArithmeticOperation = ADD | ADC | SUB | SBB

datatype LogicalOperation = AND_op | OR_op | XOR_op | NOT_op

datatype ALUOperation = Arith ArithmeticOperation | Logic LogicalOperation

record alu_flags =
  carry :: bool
  overflow :: bool
  sign :: bool
  zero :: bool

record alu_state =
  alu_left :: int
  alu_right :: int
  alu_result :: int
  alu_operation :: ALUOperation
  alu_flags :: alu_flags

record registers =
  AX :: int
  BX :: int
  CX :: int
  DX :: int
  IP :: int
  IR :: int
  SP :: int
  MAR :: int
  MBR :: int

record ComputerStore =
  registers :: registers
  alu :: alu_state

datatype RegisterType =
    RAX | RBX | RCX | RDX | RIP | RIR | RSP | RMAR | RMBR
  | RAL | RAH | RBL | RBH | RCL | RCH | RDL | RDH

text \<open>
  Modelled from the spec: the initial instruction pointer \<open>INITIAL_IP\<close> and the memory
  size \<open>MEMORY_SIZE\<close> come from the absent module \<open>config\<close>; programs start at 2000h and
  the memory has 16 KiB.
\<close>

definition INITIAL_IP :: int where
  "INITIAL_IP = 8192"

definition MEMORY_SIZE :: int where
  "MEMORY_SIZE = 16384"

definition initial_store :: ComputerStore where
  "initial_store =
     \<lparr>registers = \<lparr>AX = 0, BX = 0, CX = 0, DX = 0, IP = INITIAL_IP, IR = 0,
                    SP = MEMORY_SIZE, MAR = 0, MBR = 0\<rparr>,
      alu = \<lparr>alu_left = 0, alu_right = 0, alu_result = 0, alu_operation = Logic AND_op,
             alu_flags = \<lparr>carry = False, overflow = False, sign = False, zero = True\<rparr>\<rparr>\<rparr>"

fun getRegister :: "ComputerStore \<Rightarrow> RegisterType \<Rightarrow> int" where
  "getRegister s RAL = fst (splitLowHigh (AX (registers s)))"
| "getRegister s RAH = snd (splitLowHigh (AX (registers s)))"
| "getRegister s RBL = fst (splitLowHigh (BX (registers s)))"
| "getRegister s RBH = snd (splitLowHigh (BX (registers s)))"
| "getRegister s RCL = fst (splitLowHigh (CX (registers s)))"
| "getRegister s RCH = snd (splitLowHigh (CX (registers s)))"
| "getRegister s RDL = fst (splitLowHigh (DX (registers s)))"
| "getRegister s RDH = snd (splitLowHigh (DX (registers s)))"
| "getRegister s RAX = AX (registers s)"
| "getRegister s RBX = BX (registers s)"
| "getRegister s RCX = CX (registers s)"
| "getRegister s RDX = DX (registers s)"
| "getRegister s RIP = IP (registers s)"
| "getRegister s RIR = IR (registers s)"
| "getRegister s RSP = SP (registers s)"
| "getRegister s RMAR = MAR (registers s)"
| "getRegister s RMBR = MBR (registers s)"

definition setLow :: "int \<Rightarrow> int \<Rightarrow> int" where
  "setLow w v = joinLowHigh v (snd (splitLowHigh w))"

definition setHigh :: "int \<Rightarrow> int \<Rightarrow> int" where
  "setHigh w v = joinLowHigh (fst (splitLowHigh w)) v"

fun setRegister :: "ComputerStore \<Rightarrow> RegisterType \<Rightarrow> int \<Rightarrow> ComputerStore" where
  "setRegister s RAX v = s\<lparr>registers := (registers s)\<lparr>AX := v\<rparr>\<rparr>"
| "setRegister s RBX v = s\<lparr>registers := (registers s)\<lparr>BX := v\<rparr>\<rparr>"
| "setRegister s RCX v = s\<lparr>registers := (registers s)\<lparr>CX := v\<rparr>\<rparr>"
| "setRegister s RDX v = s\<lparr>registers := (registers s)\<lparr>DX := v\<rparr>\<rparr>"
| "setRegister s RIP v = s\<lparr>registers := (registers s)\<lparr>IP := v\<rparr>\<rparr>"
| "setRegister s RIR v = s\<lparr>registers := (registers s)\<lparr>IR := v\<rparr>\<rparr>"
| "setRegister s RSP v = s\<lparr>registers := (registers s)\<lparr>SP := v\<rparr>\<rparr>"
| "setRegister s RMAR v = s\<lparr>registers := (registers s)\<lparr>MAR := v\<rparr>\<rparr>"
| "setRegister s RMBR v = s\<lparr>registers := (registers s)\<lparr>MBR := v\<rparr>\<rparr>"
| "setRegister s RAL v = s\<lparr>registers := (registers s)\<lparr>AX := setLow (AX (registers s)) v\<rparr>\<rparr>"
| "setRegister s RAH v = s\<lparr>registers := (registers s)\<lparr>AX := setHigh (AX (registers s)) v\<rparr>\<rparr>"
| "setRegister s RBL v = s\<lparr>registers := (registers s)\<lparr>BX := setLow (BX (registers s)) v\<rparr>\<rparr>"
| "setRegister s RBH v = s\<lparr>registers := (registers s)\<lparr>BX := setHigh (BX (registers s)) v\<rparr>\<rparr>"
| "setRegister s RCL v = s\<lparr>registers := (registers s)\<lparr>CX := setLow (CX (registers s)) v\<rparr>\<rparr>"
| "setRegister s RCH v = s\<lparr>registers := (registers s)\<lparr>CX := setHigh (CX (registers s)) v\<rparr>\<rparr>"
| "setRegister s RDL v = s\<lparr>registers := (registers s)\<lparr>DX := setLow (DX (registers s)) v\<rparr>\<rparr>"
| "setRegister s RDH v = s\<lparr>registers := (registers s)\<lparr>DX := setHigh (DX (registers s)) v\<rparr>\<rparr>"

definition carryNumber :: "ComputerStore \<Rightarrow> int" where
  "carryNumber s = (if carry (alu_flags (alu s)) then 1 else 0)"

fun arithResult :: "ArithmeticOperation \<Rightarrow> int \<Rightarrow> int \<Rightarrow> int \<Rightarrow> int" where
  "arithResult ADD l r c = l + r"
| "arithResult ADC l r c = l + r + c"
| "arithResult SUB l r c = l - r"
| "arithResult SBB l r c = l - r - c"

definition executeArithmetic ::
  "ComputerStore \<Rightarrow> ArithmeticOperation \<Rightarrow> int \<Rightarrow> int \<Rightarrow> Size \<Rightarrow> int \<times> ComputerStore" where
  "executeArithmetic s operation uleft uright sz =
     (let left = unsignedToSigned uleft sz;
          right = unsignedToSigned uright sz;
          uresult = arithResult operation uleft uright (carryNumber s);
          result = arithResult operation left right (carryNumber s);
          mx = MAX_VALUE sz;
          maxSigned = MAX_SIGNED_VALUE sz;
          minSigned = MIN_SIGNED_VALUE sz;
          flags = \<lparr>carry = (uresult < 0 \<or> uresult > mx),
                   overflow = (result < minSigned \<or> result > maxSigned),
                   sign = (result < 0),
                   zero = (result = 0)\<rparr>;
          uresult' = (if uresult > mx then uresult - mx - 1
                      else if uresult < 0 then uresult + mx + 1
                      else uresult)
      in (uresult',
          s\<lparr>alu := (alu s)\<lparr>alu_left := left, alu_right := right, alu_result := uresult',
                           alu_operation := Arith operation, alu_flags := flags\<rparr>\<rparr>))"

text \<open>
  Modelled from the spec: the instruction runner (\<open>./runner\<close>) is not part of the sources.
  \<open>MOV reg, imm\<close> writes the immediate to the register; an arithmetic instruction with a
  register destination and an immediate source reads the register, runs the ALU on both
  operands with the size of the register and writes the result back.
\<close>

definition run_MOV_reg_imm :: "RegisterType \<Rightarrow> int \<Rightarrow> ComputerStore \<Rightarrow> ComputerStore" where
  "run_MOV_reg_imm r v s = setRegister s r v"

definition run_arith_reg8_imm ::
  "ArithmeticOperation \<Rightarrow> RegisterType \<Rightarrow> int \<Rightarrow> ComputerStore \<Rightarrow> ComputerStore" where
  "run_arith_reg8_imm operation r v s =
     (let (res, s') = executeArithmetic s operation (getRegister s r) v SByte
      in setRegister s' r res)"

definition carry_program :: ComputerStore where
  "carry_program = run_arith_reg8_imm ADD RAL 1 (run_MOV_reg_imm RAL 255 initial_store)"


section \<open>Values of the grammar shared by the parser and the validators\<close>

text \<open>
  A number of JavaScript as \<open>parseInt\<close> can return it: NaN, negative zero, an integer
  that a double represents exactly, or an infinity. \<open>ImplementationApproximated\<close> stands
  for the result on a decimal string of more than twenty significant digits, where
  the language leaves the digits after the twentieth to the implementation.
\<close>

datatype JSNumber =
    NaN
  | NegativeZero
  | Finite int
  | PlusInfinity
  | MinusInfinity
  | ImplementationApproximated

text \<open>
  A number expression: a number literal with the value \<open>parseInt\<close> returned, a label
  with its \<open>offset\<close> mark, or an operation; the operators are the characters \<open>+\<close>, \<open>-\<close>
  and \<open>*\<close>. Source positions are left out.
\<close>

datatype NumberExpression =
    NumberLiteral JSNumber
  | LabelExpr string bool
  | UnaryOperation char NumberExpression
  | BinaryOperation char NumberExpression NumberExpression

text \<open>A value of a data directive: a string, the unassigned mark \<open>?\<close> or a number expression.\<close>

datatype DataDirectiveValue =
    StringValue string
  | UnassignedValue
  | NumberValue NumberExpression

section \<open>Address resolver: \<open>src/compiler/analyzer/compute-addresses.ts\<close>\<close>

datatype DataType = DB | DW

text \<open>
  The errors thrown by the resolver and by the validators, named by their codes.
  \<open>expects-no-operands\<close> is thrown as a \<open>LineError\<close>, the others as a \<open>CompilerError\<close>.
\<close>

datatype CompilerError =
    MissingOrg
  | InstructionOutOfRange nat
  | OccupiedAddress nat
  | ExpectsOneOperand
  | UnknownSize
  | DestinationCannotBeImmediate
  | LabelNotFound string
  | LabelShouldBeWritable string
  | CannotAcceptStrings DataType
  | MustHaveOneOrMoreValues DataType
  | ExpectsNoOperands

datatype LabelKind = LabelDB | LabelDW | LabelInstruction

record ValidatedMeta =
  meta_label :: "string option"
  meta_start :: nat
  meta_length :: nat

text \<open>
  A validated statement is an \<open>EQU\<close>, the \<open>end\<close> statement, an \<open>origin-change\<close> with its
  new address, a data directive (\<open>DB\<close> or \<open>DW\<close>) or an instruction named by its mnemonic;
  the last two carry the meta record. \<open>instructionPattern\<close> matches exactly the mnemonics,
  that is the statements built with \<open>InstructionStmt\<close>.
\<close>

datatype ValidatedStatement =
    EquStmt
  | EndStmt
  | OriginChange nat
  | DataStmt DataType ValidatedMeta
  | InstructionStmt string ValidatedMeta

text \<open>
  Modelled from the spec: \<open>MAX_MEMORY_ADDRESS\<close> comes from the absent module \<open>config\<close>;
  the RAM is addressed 0000h to 3FFFh.
\<close>

definition MAX_MEMORY_ADDRESS :: nat where
  "MAX_MEMORY_ADDRESS = 16383"

record ca_state =
  occupiedMemory :: "nat set"
  codeMemory :: "nat set"
  labelAddresses :: "string \<rightharpoonup> (LabelKind \<times> nat)"
  pointer :: "nat option"

definition ca_initial :: ca_state where
  "ca_initial = \<lparr>occupiedMemory = {}, codeMemory = {}, labelAddresses = Map.empty,
                  pointer = None\<rparr>"

text \<open>
  The loop \<open>for (; pointer < finalPointer; pointer++)\<close>. It returns the error thrown, if
  any, with the pointer and the two sets as the loop leaves them.
\<close>

function occupyLoop ::
  "bool \<Rightarrow> nat \<Rightarrow> nat \<Rightarrow> nat set \<Rightarrow> nat set \<Rightarrow> CompilerError option \<times> nat \<times> nat set \<times> nat set" where
  "occupyLoop isInstruction finalPointer p occ code =
     (if p < finalPointer then
        (if p \<in> occ then (Some (OccupiedAddress p), p, occ, code)
         else occupyLoop isInstruction finalPointer (p + 1) (insert p occ)
                (if isInstruction then insert p code else code))
      else (None, p, occ, code))"
  by pat_completeness auto
termination
  by (relation "measure (\<lambda>(i, fin, p, occ, code). fin - p)") auto

declare occupyLoop.simps [simp del]

text \<open>
  \<open>if (statement.meta.label) labelAddresses.set(...)\<close>: a missing label and the empty
  string are both falsy.
\<close>

definition recordLabel :: "LabelKind \<Rightarrow> ValidatedMeta \<Rightarrow> nat \<Rightarrow> ca_state \<Rightarrow> ca_state" where
  "recordLabel kind m p s =
     (case meta_label m of
        None \<Rightarrow> s
      | Some l \<Rightarrow>
          if l = [] then s else s\<lparr>labelAddresses := (labelAddresses s)(l \<mapsto> (kind, p))\<rparr>)"

definition layout ::
  "bool \<Rightarrow> LabelKind \<Rightarrow> ValidatedMeta \<Rightarrow> ca_state \<Rightarrow> CompilerError option \<times> ca_state \<times> ValidatedMeta" where
  "layout isInstruction kind m s =
     (case pointer s of
        None \<Rightarrow> (Some MissingOrg, s, m)
      | Some p \<Rightarrow>
          (let s1 = recordLabel kind m p s;
               m' = m\<lparr>meta_start := p\<rparr>;
               finalPointer = p + meta_length m
           in if finalPointer > MAX_MEMORY_ADDRESS
              then (Some (InstructionOutOfRange finalPointer), s1, m')
              else (case occupyLoop isInstruction finalPointer p (occupiedMemory s1) (codeMemory s1) of
                      (e, p', occ, code) \<Rightarrow>
                        (e, s1\<lparr>occupiedMemory := occ, codeMemory := code, pointer := Some p'\<rparr>,
                         m'))))"

fun kindOfData :: "DataType \<Rightarrow> LabelKind" where
  "kindOfData DB = LabelDB"
| "kindOfData DW = LabelDW"

text \<open>
  The callback given to \<open>safeForEach\<close>: the error it throws, if any, the state of the
  resolver and the statement, whose \<open>meta.start\<close> it assigns, as it leaves them.
\<close>

fun stepStatement ::
  "ValidatedStatement \<Rightarrow> ca_state \<Rightarrow> CompilerError option \<times> ca_state \<times> ValidatedStatement" where
  "stepStatement EquStmt s = (None, s, EquStmt)"
| "stepStatement EndStmt s = (None, s, EndStmt)"
| "stepStatement (OriginChange a) s = (None, s\<lparr>pointer := Some a\<rparr>, OriginChange a)"
| "stepStatement (DataStmt d m) s =
     (case layout False (kindOfData d) m s of (e, s', m') \<Rightarrow> (e, s', DataStmt d m'))"
| "stepStatement (InstructionStmt i m) s =
     (case layout True LabelInstruction m s of (e, s', m') \<Rightarrow> (e, s', InstructionStmt i m'))"

text \<open>
  Modelled from the spec: \<open>safeForEach\<close> comes from the absent module \<open>compiler/common\<close>.
  It runs the callback on every element in order, collects the compiler errors thrown and
  goes on with the next element; it succeeds when no error was collected.
\<close>

fun safeForEach ::
  "ValidatedStatement list \<Rightarrow> ca_state \<Rightarrow> CompilerError list \<times> ca_state \<times> ValidatedStatement list" where
  "safeForEach [] s = ([], s, [])"
| "safeForEach (x # xs) s =
     (case stepStatement x s of
        (e, s', x') \<Rightarrow>
          (case safeForEach xs s' of
             (es, s'', xs') \<Rightarrow>
               ((case e of None \<Rightarrow> es | Some err \<Rightarrow> err # es), s'', x' # xs')))"

datatype ComputeAddressesResult =
    Success "nat set" "string \<rightharpoonup> (LabelKind \<times> nat)"
  | Failure "CompilerError list"

definition computeAddresses :: "ValidatedStatement list \<Rightarrow> ComputeAddressesResult" where
  "computeAddresses statements =
     (case safeForEach statements ca_initial of
        (es, s, xs) \<Rightarrow>
          if es = [] then Success (codeMemory s) (labelAddresses s) else Failure es)"

text \<open>The errors, the final state and the statements with their assigned starts.\<close>

definition ca_errors :: "ValidatedStatement list \<Rightarrow> CompilerError list" where
  "ca_errors statements = fst (safeForEach statements ca_initial)"

definition ca_final :: "ValidatedStatement list \<Rightarrow> ca_state" where
  "ca_final statements = fst (snd (safeForEach statements ca_initial))"

definition ca_statements :: "ValidatedStatement list \<Rightarrow> ValidatedStatement list" where
  "ca_statements statements = snd (snd (safeForEach statements ca_initial))"

text \<open>The range \<open>[start, start + length)\<close> of an emitted statement; other statements emit nothing.\<close>

fun stmt_range :: "ValidatedStatement \<Rightarrow> nat set" where
  "stmt_range (DataStmt d m) = {meta_start m ..< meta_start m + meta_length m}"
| "stmt_range (InstructionStmt i m) = {meta_start m ..< meta_start m + meta_length m}"
| "stmt_range _ = {}"

fun stmt_meta :: "ValidatedStatement \<Rightarrow> ValidatedMeta option" where
  "stmt_meta (DataStmt d m) = Some m"
| "stmt_meta (InstructionStmt i m) = Some m"
| "stmt_meta _ = None"

definition accepted :: "ValidatedStatement list \<Rightarrow> bool" where
  "accepted statements =
     (case computeAddresses statements of Success c l \<Rightarrow> True | Failure es \<Rightarrow> False)"

section \<open>Validation of unary instructions: \<open>validateUnaryInstruction\<close>\<close>

text \<open>
  The operands the validator matches on, as the grammar module it imports produces them:
  a register, an address (direct with a number expression, or indirect through BX) with
  its size annotation, or a number expression. Source positions are left out.
\<close>

datatype AddressSize = AutoSize | ByteSize | WordSize

datatype Operand =
    RegisterOperand RegisterType
  | AddressDirect AddressSize NumberExpression
  | AddressIndirect AddressSize
  | ExpressionOperand NumberExpression

datatype UnaryInstructionType = INC | DEC | NEG | NOT_instr

record UnaryInstructionStatement =
  instruction :: UnaryInstructionType
  operands :: "Operand list"
  label :: "string option"

datatype OutOperand =
    OutRegister RegisterType
  | OutMemoryDirect NumberExpression
  | OutMemoryIndirect

record ValidatedUnaryInstruction =
  vu_type :: UnaryInstructionType
  vu_meta :: ValidatedMeta
  vu_opSize :: Size
  vu_out :: OutOperand

text \<open>\<open>wordRegisterPattern\<close>: the 16-bit registers.\<close>

fun isWordRegister :: "RegisterType \<Rightarrow> bool" where
  "isWordRegister RAL = False"
| "isWordRegister RAH = False"
| "isWordRegister RBL = False"
| "isWordRegister RBH = False"
| "isWordRegister RCL = False"
| "isWordRegister RCH = False"
| "isWordRegister RDL = False"
| "isWordRegister RDH = False"
| "isWordRegister _ = True"

fun sizeOfAddress :: "AddressSize \<Rightarrow> Size option" where
  "sizeOfAddress AutoSize = None"
| "sizeOfAddress ByteSize = Some SByte"
| "sizeOfAddress WordSize = Some SWord"

definition validateUnaryInstruction ::
  "UnaryInstructionStatement \<Rightarrow> (string \<rightharpoonup> LabelKind) \<Rightarrow> CompilerError + ValidatedUnaryInstruction" where
  "validateUnaryInstruction ins labels =
     (case operands ins of
        [out] \<Rightarrow>
          (case out of
             RegisterOperand r \<Rightarrow>
               Inr \<lparr>vu_type = instruction ins,
                    vu_meta = \<lparr>meta_label = label ins, meta_start = 0, meta_length = 2\<rparr>,
                    vu_opSize = (if isWordRegister r then SWord else SByte),
                    vu_out = OutRegister r\<rparr>
           | AddressDirect sz e \<Rightarrow>
               (case sizeOfAddress sz of
                  None \<Rightarrow> Inl UnknownSize
                | Some opSize \<Rightarrow>
                    Inr \<lparr>vu_type = instruction ins,
                         vu_meta = \<lparr>meta_label = label ins, meta_start = 0, meta_length = 3\<rparr>,
                         vu_opSize = opSize,
                         vu_out = OutMemoryDirect e\<rparr>)
           | AddressIndirect sz \<Rightarrow>
               (case sizeOfAddress sz of
                  None \<Rightarrow> Inl UnknownSize
                | Some opSize \<Rightarrow>
                    Inr \<lparr>vu_type = instruction ins,
                         vu_meta = \<lparr>meta_label = label ins, meta_start = 0, meta_length = 1\<rparr>,
                         vu_opSize = opSize,
                         vu_out = OutMemoryIndirect\<rparr>)
           | ExpressionOperand e \<Rightarrow>
               (case e of
                  LabelExpr v off \<Rightarrow>
                    (if off then Inl DestinationCannotBeImmediate
                     else (case labels v of
                             None \<Rightarrow> Inl (LabelNotFound v)
                           | Some LabelInstruction \<Rightarrow> Inl (LabelShouldBeWritable v)
                           | Some outType \<Rightarrow>
                               Inr \<lparr>vu_type = instruction ins,
                                    vu_meta = \<lparr>meta_label = label ins, meta_start = 0,
                                               meta_length = 3\<rparr>,
                                    vu_opSize = (if outType = LabelDB then SByte else SWord),
                                    vu_out = OutMemoryDirect (LabelExpr v True)\<rparr>))
                | _ \<Rightarrow> Inl DestinationCannotBeImmediate))
      | _ \<Rightarrow> Inl ExpectsOneOperand)"

text \<open>The length the validator records, by the form of the operand.\<close>

fun unaryLength :: "Operand \<Rightarrow> nat" where
  "unaryLength (RegisterOperand r) = 2"
| "unaryLength (AddressIndirect sz) = 1"
| "unaryLength (AddressDirect sz e) = 3"
| "unaryLength (ExpressionOperand e) = 3"

section \<open>Validation of \<open>DW\<close> and of the instructions without operands\<close>

text \<open>
  \<open>validateDW\<close>. The directive comes with its label and its values. The loop goes through
  the values in order: it throws \<open>cannot-accept-strings\<close> at the first string, keeps
  \<open>null\<close> for an unassigned value and the expression otherwise. A directive left with no
  value throws \<open>must-have-one-or-more-values\<close>. The length is two bytes for each value.
\<close>

record DataDirectiveStatement =
  dd_label :: "string option"
  dd_values :: "DataDirectiveValue list"

record ValidatedDW =
  dw_meta :: ValidatedMeta
  dw_initialValues :: "NumberExpression option list"

fun validateDWLoop ::
  "DataDirectiveValue list \<Rightarrow> NumberExpression option list \<Rightarrow> CompilerError + NumberExpression option list" where
  "validateDWLoop [] initialValues = Inr initialValues"
| "validateDWLoop (StringValue v # values) initialValues = Inl (CannotAcceptStrings DW)"
| "validateDWLoop (UnassignedValue # values) initialValues =
     validateDWLoop values (initialValues @ [None])"
| "validateDWLoop (NumberValue v # values) initialValues =
     validateDWLoop values (initialValues @ [Some v])"

definition validateDW :: "DataDirectiveStatement \<Rightarrow> CompilerError + ValidatedDW" where
  "validateDW dw =
     (case validateDWLoop (dd_values dw) [] of
        Inl e \<Rightarrow> Inl e
      | Inr initialValues \<Rightarrow>
          if length initialValues = 0 then Inl (MustHaveOneOrMoreValues DW)
          else Inr \<lparr>dw_meta = \<lparr>meta_label = dd_label dw, meta_start = 0,
                                 meta_length = length initialValues * 2\<rparr>,
                    dw_initialValues = initialValues\<rparr>)"

text \<open>
  \<open>validateZeroaryInstruction\<close>: an instruction without operands has the length 1; with an
  operand it throws \<open>expects-no-operands\<close>.
\<close>

record ZeroaryInstructionStatement =
  zi_instruction :: string
  zi_operands :: "Operand list"
  zi_label :: "string option"

record ValidatedZeroaryInstruction =
  vz_type :: string
  vz_meta :: ValidatedMeta

definition validateZeroaryInstruction ::
  "ZeroaryInstructionStatement \<Rightarrow> CompilerError + ValidatedZeroaryInstruction" where
  "validateZeroaryInstruction instr =
     (if length (zi_operands instr) > 0 then Inl ExpectsNoOperands
      else Inr \<lparr>vz_type = zi_instruction instr,
                vz_meta = \<lparr>meta_label = zi_label instr, meta_start = 0, meta_length = 1\<rparr>\<rparr>)"

text \<open>
  The validated statements as the resolver takes them: it reads the type and the meta
  record of a statement only.
\<close>

definition statementDW :: "ValidatedDW \<Rightarrow> ValidatedStatement" where
  "statementDW v = DataStmt DW (dw_meta v)"

definition statementZeroary :: "ValidatedZeroaryInstruction \<Rightarrow> ValidatedStatement" where
  "statementZeroary v = InstructionStmt (vz_type v) (vz_meta v)"

text \<open>
  The directives \<open>DW 0\<close>, \<open>DW 1, 2\<close> and \<open>X DW 1, 2\<close> and the instruction \<open>HLT\<close>, and what
  the validators return on them.
\<close>

definition DW_0 :: DataDirectiveStatement where
  "DW_0 = \<lparr>dd_label = None, dd_values = [NumberValue (NumberLiteral (Finite 0))]\<rparr>"

definition DW_1_2 :: DataDirectiveStatement where
  "DW_1_2 = \<lparr>dd_label = None,
             dd_values = [NumberValue (NumberLiteral (Finite 1)), NumberValue (NumberLiteral (Finite 2))]\<rparr>"

definition X_DW_1_2 :: DataDirectiveStatement where
  "X_DW_1_2 = \<lparr>dd_label = Some ''X'',
               dd_values = [NumberValue (NumberLiteral (Finite 1)), NumberValue (NumberLiteral (Finite 2))]\<rparr>"

definition HLT :: ZeroaryInstructionStatement where
  "HLT = \<lparr>zi_instruction = ''HLT'', zi_operands = [], zi_label = None\<rparr>"

definition oneWord :: ValidatedDW where
  "oneWord = \<lparr>dw_meta = \<lparr>meta_label = None, meta_start = 0, meta_length = 2\<rparr>,
              dw_initialValues = [Some (NumberLiteral (Finite 0))]\<rparr>"

definition twoWords :: ValidatedDW where
  "twoWords = \<lparr>dw_meta = \<lparr>meta_label = None, meta_start = 0, meta_length = 4\<rparr>,
               dw_initialValues = [Some (NumberLiteral (Finite 1)), Some (NumberLiteral (Finite 2))]\<rparr>"

definition twoWordsX :: ValidatedDW where
  "twoWordsX = \<lparr>dw_meta = \<lparr>meta_label = Some ''X'', meta_start = 0, meta_length = 4\<rparr>,
                dw_initialValues = [Some (NumberLiteral (Finite 1)), Some (NumberLiteral (Finite 2))]\<rparr>"

definition halt :: ValidatedZeroaryInstruction where
  "halt = \<lparr>vz_type = ''HLT'', vz_meta = \<lparr>meta_label = None, meta_start = 0, meta_length = 1\<rparr>\<rparr>"

section \<open>PIC of the store-based simulator: \<open>createPICSlice\<close>\<close>

text \<open>
  The registers of the PIC hold 8-bit values and are modelled as 8-bit words. On such
  values, and for a line number below 8 (the type \<open>IntN\<close>), the JavaScript operators
  \<open>|\<close>, \<open>&\<close>, \<open>^\<close>, \<open>~\<close> and \<open><<\<close> agree with the operations on words. The vector
  registers INT0 to INT7 are a function of the line number.
\<close>

datatype SimulatorError =
    ReservedInterrupt "8 word"
  | AddressOutOfRange int
  | StackOverflow

record PIC =
  EOI :: "8 word"
  IMR :: "8 word"
  IRR :: "8 word"
  ISR :: "8 word"
  INTn :: "nat \<Rightarrow> 8 word"

record Simulator =
  pic :: PIC
  interruptsEnabled :: bool
  sim_flags :: alu_flags
  sim_IP :: int
  sim_SP :: int
  sim_memory :: "int \<Rightarrow> int"

definition initialPIC :: PIC where
  "initialPIC = \<lparr>EOI = 0, IMR = 0xFF, IRR = 0, ISR = 0, INTn = (\<lambda>n. 0x10 + of_nat n)\<rparr>"

definition request :: "nat \<Rightarrow> Simulator \<Rightarrow> Simulator" where
  "request n s = (let mask = push_bit n 1 in s\<lparr>pic := (pic s)\<lparr>IRR := IRR (pic s) OR mask\<rparr>\<rparr>)"

definition cancel :: "nat \<Rightarrow> Simulator \<Rightarrow> Simulator" where
  "cancel n s =
     (let mask = push_bit n 1 in s\<lparr>pic := (pic s)\<lparr>IRR := IRR (pic s) AND NOT mask\<rparr>\<rparr>)"

text \<open>
  Modelled from the spec: the helper \<open>bit\<close> of this version of \<open>helpers\<close> is not part of
  the sources; it tests one bit of a value, as \<open>Byte.bit\<close> does.
\<close>

definition bit_of :: "8 word \<Rightarrow> nat \<Rightarrow> bool" where
  "bit_of v i \<longleftrightarrow> v AND push_bit i 1 \<noteq> 0"

text \<open>
  Modelled from the spec: the memory and stack slice of this version of the store is not
  part of the sources. \<open>getMemory\<close> and \<open>setMemory\<close> follow \<open>computer/index.ts\<close>, with the
  error returned instead of thrown; \<open>pushToStack\<close> decrements SP by 2 and writes the word
  in little-endian order, and fails with a stack overflow when SP would go below 0. Each
  interrupt vector takes \<open>INTERRUPT_VECTOR_ADDRESS_SIZE\<close> = 4 bytes.
\<close>

definition MIN_MEMORY_ADDRESS :: int where
  "MIN_MEMORY_ADDRESS = 0"

definition INTERRUPT_VECTOR_ADDRESS_SIZE :: int where
  "INTERRUPT_VECTOR_ADDRESS_SIZE = 4"

definition getMemoryWord :: "Simulator \<Rightarrow> int \<Rightarrow> SimulatorError + int" where
  "getMemoryWord s address =
     (if address < MIN_MEMORY_ADDRESS \<or> address > int MAX_MEMORY_ADDRESS - 1
      then Inl (AddressOutOfRange address)
      else Inr (joinLowHigh (sim_memory s address) (sim_memory s (address + 1))))"

definition setMemoryWord :: "Simulator \<Rightarrow> int \<Rightarrow> int \<Rightarrow> SimulatorError + Simulator" where
  "setMemoryWord s address v =
     (if address < MIN_MEMORY_ADDRESS \<or> address > int MAX_MEMORY_ADDRESS - 1
      then Inl (AddressOutOfRange address)
      else (case splitLowHigh v of
              (low, high) \<Rightarrow>
                Inr (s\<lparr>sim_memory := (sim_memory s)(address := low, address + 1 := high)\<rparr>)))"

definition pushToStack :: "Simulator \<Rightarrow> int \<Rightarrow> SimulatorError + Simulator" where
  "pushToStack s v =
     (let sp = sim_SP s - 2
      in if sp < 0 then Inl StackOverflow
         else (case setMemoryWord s sp v of
                 Inl e \<Rightarrow> Inl e
               | Inr s' \<Rightarrow> Inr (s'\<lparr>sim_SP := sp\<rparr>)))"

text \<open>
  The part of \<open>update\<close> after the registers of the PIC are set: read the vector, push the
  encoded flags, push IP, load IP. \<open>encodeFlags\<close> is not part of the sources and is a
  parameter, \<open>enc\<close>.
\<close>

definition dispatch ::
  "(Simulator \<Rightarrow> int) \<Rightarrow> 8 word \<Rightarrow> Simulator \<Rightarrow> SimulatorError option \<times> Simulator" where
  "dispatch enc ID s1 =
     (case getMemoryWord s1 (uint ID * INTERRUPT_VECTOR_ADDRESS_SIZE) of
        Inl e \<Rightarrow> (Some e, s1)
      | Inr address \<Rightarrow>
          (case pushToStack s1 (enc s1) of
             Inl e \<Rightarrow> (Some e, s1)
           | Inr s2 \<Rightarrow>
               (case pushToStack s2 (sim_IP s2) of
                  Inl e \<Rightarrow> (Some e, s2)
                | Inr s3 \<Rightarrow> (None, s3\<lparr>sim_IP := address\<rparr>))))"

text \<open>
  The body of the loop of \<open>update\<close> once a line is neither masked nor idle.
  \<open>interruptPattern\<close> is not part of the sources and is a parameter, \<open>reserved\<close>.
\<close>

definition runInterrupt ::
  "(8 word \<Rightarrow> bool) \<Rightarrow> (Simulator \<Rightarrow> int) \<Rightarrow> Simulator \<Rightarrow> nat \<Rightarrow>
     SimulatorError option \<times> Simulator" where
  "runInterrupt reserved enc s i =
     (let ID = INTn (pic s) i
      in if reserved ID then (Some (ReservedInterrupt ID), s)
         else dispatch enc ID
                (s\<lparr>pic := (pic s)\<lparr>EOI := 0,
                                   IRR := IRR (pic s) XOR push_bit i 1,
                                   ISR := push_bit i 1\<rparr>\<rparr>))"

function updateLoop ::
  "(8 word \<Rightarrow> bool) \<Rightarrow> (Simulator \<Rightarrow> int) \<Rightarrow> 8 word \<Rightarrow> 8 word \<Rightarrow> Simulator \<Rightarrow> nat \<Rightarrow>
     SimulatorError option \<times> Simulator" where
  "updateLoop reserved enc imr irr s i =
     (if i < 8 then
        (if bit_of imr i then updateLoop reserved enc imr irr s (i + 1)
         else if \<not> bit_of irr i then updateLoop reserved enc imr irr s (i + 1)
         else runInterrupt reserved enc s i)
      else (None, s))"
  by pat_completeness auto
termination
  by (relation "measure (\<lambda>(r, e, imr, irr, s, i). 8 - i)") auto

declare updateLoop.simps [simp del]

definition update ::
  "(8 word \<Rightarrow> bool) \<Rightarrow> (Simulator \<Rightarrow> int) \<Rightarrow> Simulator \<Rightarrow> SimulatorError option \<times> Simulator" where
  "update reserved enc s =
     (if ISR (pic s) \<noteq> 0 then
        (if EOI (pic s) = 0x20
         then (None, s\<lparr>pic := (pic s)\<lparr>EOI := 0, ISR := 0\<rparr>\<rparr>)
         else (None, s))
      else if \<not> interruptsEnabled s then (None, s)
      else updateLoop reserved enc (IMR (pic s)) (IRR (pic s)) s 0)"

text \<open>
  Modelled from the spec: the I/O bus and the instructions STI and CLI are not part of
  the sources. A write to a register of the PIC stores the byte; STI and CLI set and
  clear the interrupt flag. The operations applied to the PIC between two instructions:
\<close>

datatype PICOp =
    Request nat
  | Cancel nat
  | Update
  | WriteEOI "8 word"
  | WriteIMR "8 word"
  | WriteINT nat "8 word"
  | SetIF bool

fun applyOp :: "(8 word \<Rightarrow> bool) \<Rightarrow> (Simulator \<Rightarrow> int) \<Rightarrow> PICOp \<Rightarrow> Simulator \<Rightarrow> Simulator" where
  "applyOp reserved enc (Request n) s = request n s"
| "applyOp reserved enc (Cancel n) s = cancel n s"
| "applyOp reserved enc Update s = snd (update reserved enc s)"
| "applyOp reserved enc (WriteEOI v) s = s\<lparr>pic := (pic s)\<lparr>EOI := v\<rparr>\<rparr>"
| "applyOp reserved enc (WriteIMR v) s = s\<lparr>pic := (pic s)\<lparr>IMR := v\<rparr>\<rparr>"
| "applyOp reserved enc (WriteINT n v) s = s\<lparr>pic := (pic s)\<lparr>INTn := (INTn (pic s))(n := v)\<rparr>\<rparr>"
| "applyOp reserved enc (SetIF b) s = s\<lparr>interruptsEnabled := b\<rparr>"

fun applyOps :: "(8 word \<Rightarrow> bool) \<Rightarrow> (Simulator \<Rightarrow> int) \<Rightarrow> PICOp list \<Rightarrow> Simulator \<Rightarrow> Simulator" where
  "applyOps reserved enc [] s = s"
| "applyOps reserved enc (x # xs) s = applyOps reserved enc xs (applyOp reserved enc x s)"

text \<open>
  Modelled from the spec: the identifiers 0 to 7 are reserved for the interrupts the CPU
  manages itself. The flags are encoded in the layout of the 8088: CF in bit 0, ZF in
  bit 6, SF in bit 7, IF in bit 9 and OF in bit 11.
\<close>

definition reservedID :: "8 word \<Rightarrow> bool" where
  "reservedID ID \<longleftrightarrow> ID \<le> 7"

definition encodeFlags :: "Simulator \<Rightarrow> int" where
  "encodeFlags s =
     (if carry (sim_flags s) then 1 else 0) +
     (if zero (sim_flags s) then 64 else 0) +
     (if sign (sim_flags s) then 128 else 0) +
     (if interruptsEnabled s then 512 else 0) +
     (if overflow (sim_flags s) then 2048 else 0)"

text \<open>
  A state right after a program is loaded at 2000h, with line 0 unmasked and requested
  and the interrupt flag set; the vector of line 0 (INT0 = 10h, at 40h) holds 3000h.
\<close>

definition pendingLine0 :: Simulator where
  "pendingLine0 =
     \<lparr>pic = initialPIC\<lparr>IMR := 0xFE, IRR := 0x01\<rparr>,
      interruptsEnabled = True,
      sim_flags = \<lparr>carry = False, overflow = False, sign = False, zero = True\<rparr>,
      sim_IP = 0x2000,
      sim_SP = 0x4000,
      sim_memory = (\<lambda>a. 0)(0x40 := 0x00, 0x41 := 0x30)\<rparr>"

text \<open>The same state with the reserved identifier 0 written to INT0.\<close>

definition reservedLine0 :: Simulator where
  "reservedLine0 = pendingLine0\<lparr>pic := (pic pendingLine0)\<lparr>INTn := (INTn (pic pendingLine0))(0 := 0)\<rparr>\<rparr>"

text \<open>The state of the PIC after line \<open>n\<close> is selected, as \<open>update\<close> sets it.\<close>

definition selectLine :: "nat \<Rightarrow> Simulator \<Rightarrow> Simulator" where
  "selectLine n s =
     s\<lparr>pic := (pic s)\<lparr>EOI := 0, IRR := IRR (pic s) XOR push_bit n 1, ISR := push_bit n 1\<rparr>\<rparr>"

text \<open>A register with no bit set or with the bit of exactly one line set.\<close>

definition oneLine :: "8 word \<Rightarrow> bool" where
  "oneLine w \<longleftrightarrow> w = 0 \<or> (\<exists>i<8. w = 2 ^ i)"

text \<open>The state right after the same program is loaded: every line masked, IF clear.\<close>

definition loaded :: Simulator where
  "loaded = pendingLine0\<lparr>pic := initialPIC, interruptsEnabled := False\<rparr>"

text \<open>
  Line 0 in service, before and after the handler has written 20h to EOI, and a state
  with IF set and no request pending.
\<close>

definition inService :: Simulator where
  "inService = pendingLine0\<lparr>pic := (pic pendingLine0)\<lparr>IRR := 0, ISR := 1\<rparr>\<rparr>"

definition endOfInterrupt :: Simulator where
  "endOfInterrupt = inService\<lparr>pic := (pic inService)\<lparr>EOI := 0x20\<rparr>\<rparr>"

definition idle :: Simulator where
  "idle = pendingLine0\<lparr>pic := (pic pendingLine0)\<lparr>IRR := 0\<rparr>\<rparr>"

text \<open>
  Lines 0 and 1 both unmasked and requested, with the interrupt flag set; the vector of
  line 1 (INT1 = 11h, at 44h) holds 3100h.
\<close>

definition pendingLines01 :: Simulator where
  "pendingLines01 =
     pendingLine0\<lparr>pic := (pic pendingLine0)\<lparr>IMR := 0xFC, IRR := 0x03\<rparr>,
                  sim_memory := (sim_memory pendingLine0)(0x44 := 0x00, 0x45 := 0x31)\<rparr>"

section \<open>Software interrupts of the class-based CPU: \<open>INTInstruction.execute\<close>\<close>

text \<open>
  Modelled from the spec: the classes \<open>Computer\<close>, \<open>CPU\<close>, \<open>Memory\<close> and \<open>Instruction\<close> are
  not part of the sources. Values of type \<open>Byte<8>\<close> and \<open>Byte<16>\<close> are 8-bit and 16-bit
  words. The CPU keeps the five flags; the register FLAGS shows them in the layout of
  the 8088 (CF bit 0, ZF bit 6, SF bit 7, IF bit 9, OF bit 11) and assigning FLAGS sets
  the flags from these bits. The RAM is addressed 0000h to 3FFFh; a read or write
  outside fails. PUSH decrements SP by 2 and then writes the word in little-endian
  order; POP reads the word and then increments SP by 2; a push with SP below 2 is a
  stack overflow, a pop beyond the top of the memory a stack underflow. Fetching a byte
  of the instruction advances IP.
\<close>

record Flags =
  flag_CF :: bool
  flag_ZF :: bool
  flag_SF :: bool
  flag_IF :: bool
  flag_OF :: bool

record Computer =
  cpu_flags :: Flags
  cpu_AX :: "16 word"
  cpu_BX :: "16 word"
  cpu_SP :: "16 word"
  cpu_IP :: "16 word"
  ram :: "nat \<Rightarrow> 8 word"

definition flagBit :: "bool \<Rightarrow> nat \<Rightarrow> 16 word" where
  "flagBit b n = (if b then push_bit n 1 else 0)"

definition getFLAGS :: "Computer \<Rightarrow> 16 word" where
  "getFLAGS s =
     flagBit (flag_CF (cpu_flags s)) 0 OR flagBit (flag_ZF (cpu_flags s)) 6 OR
     flagBit (flag_SF (cpu_flags s)) 7 OR flagBit (flag_IF (cpu_flags s)) 9 OR
     flagBit (flag_OF (cpu_flags s)) 11"

definition setFLAGS :: "16 word \<Rightarrow> Computer \<Rightarrow> Computer" where
  "setFLAGS w s =
     s\<lparr>cpu_flags := \<lparr>flag_CF = bit w 0, flag_ZF = bit w 6, flag_SF = bit w 7,
                      flag_IF = bit w 9, flag_OF = bit w 11\<rparr>\<rparr>"

definition setFlagIF :: "bool \<Rightarrow> Computer \<Rightarrow> Computer" where
  "setFlagIF b s = s\<lparr>cpu_flags := (cpu_flags s)\<lparr>flag_IF := b\<rparr>\<rparr>"

definition RAM_SIZE :: nat where
  "RAM_SIZE = 16384"

definition memory_read :: "Computer \<Rightarrow> nat \<Rightarrow> 8 word option" where
  "memory_read s address = (if address < RAM_SIZE then Some (ram s address) else None)"

definition memory_write :: "Computer \<Rightarrow> nat \<Rightarrow> 8 word \<Rightarrow> Computer option" where
  "memory_write s address v =
     (if address < RAM_SIZE then Some (s\<lparr>ram := (ram s)(address := v)\<rparr>) else None)"

definition lowByte :: "16 word \<Rightarrow> 8 word" where
  "lowByte w = ucast (w AND 0xFF)"

definition highByte :: "16 word \<Rightarrow> 8 word" where
  "highByte w = ucast (drop_bit 8 w AND 0xFF)"

definition withHigh :: "8 word \<Rightarrow> 8 word \<Rightarrow> 16 word" where
  "withHigh low high = push_bit 8 (ucast high) OR ucast low"

definition cpu_pushToStack :: "Computer \<Rightarrow> 16 word \<Rightarrow> Computer option" where
  "cpu_pushToStack s v =
     (if unat (cpu_SP s) < 2 then None
      else (let sp = unat (cpu_SP s) - 2
            in case memory_write s sp (lowByte v) of
                 None \<Rightarrow> None
               | Some s1 \<Rightarrow>
                   (case memory_write s1 (sp + 1) (highByte v) of
                      None \<Rightarrow> None
                    | Some s2 \<Rightarrow> Some (s2\<lparr>cpu_SP := cpu_SP s - 2\<rparr>))))"

definition cpu_popFromStack :: "Computer \<Rightarrow> (16 word \<times> Computer) option" where
  "cpu_popFromStack s =
     (let sp = unat (cpu_SP s)
      in case memory_read s sp of
           None \<Rightarrow> None
         | Some low \<Rightarrow>
             (case memory_read s (sp + 1) of
                None \<Rightarrow> None
              | Some high \<Rightarrow> Some (withHigh low high, s\<lparr>cpu_SP := cpu_SP s + 2\<rparr>)))"

definition consumeInstruction :: "Computer \<Rightarrow> Computer" where
  "consumeInstruction s = s\<lparr>cpu_IP := cpu_IP s + 1\<rparr>"

text \<open>
  Modelled from the spec: \<open>startInterrupt\<close>, for the interrupts that go through the
  vector table: push FLAGS, clear IF, push IP, load IP with the word at n * 4.
\<close>

definition startInterrupt :: "8 word \<Rightarrow> Computer \<Rightarrow> Computer" where
  "startInterrupt n s =
     (case cpu_pushToStack s (getFLAGS s) of
        None \<Rightarrow> s
      | Some s1 \<Rightarrow>
          (let s2 = setFlagIF False s1
           in case cpu_pushToStack s2 (cpu_IP s2) of
                None \<Rightarrow> s2
              | Some s3 \<Rightarrow>
                  (case memory_read s3 (unat n * 4) of
                     None \<Rightarrow> s3
                   | Some low \<Rightarrow>
                       (case memory_read s3 (unat n * 4 + 1) of
                          None \<Rightarrow> s3
                        | Some high \<Rightarrow> s3\<lparr>cpu_IP := withHigh low high\<rparr>))))"

text \<open>
  The events that \<open>execute\<close> yields itself, in the order it yields them. Modelled from
  the spec: the generators \<open>consumeInstruction\<close>, \<open>pushToStack\<close>, \<open>popFromStack\<close>,
  \<open>memory.read\<close> and \<open>startInterrupt\<close> are not part of the sources, and the events they
  yield are left out. A \<open>register.update\<close> carries the register and its new value, of
  16 or of 8 bits.
\<close>

datatype Event =
    CycleStart "8 word"
  | Decode
  | CycleUpdateDecoded
  | CycleUpdateExecute
  | Int0
  | Int3
  | IntRoutine "8 word"
  | RegisterCopy string string
  | RegisterUpdate string "16 word"
  | RegisterUpdateByte string "8 word"
  | ConsoleRead
  | ConsoleWrite "8 word"
  | MarSet string
  | MbrSet string

datatype RuntimeException = InvalidCharacter

text \<open>
  A run of \<open>execute\<close>: the events yielded, the value returned (false stops the CPU) or
  the error thrown, and the state of the computer at that moment.
\<close>

record Execution =
  ex_events :: "Event list"
  ex_result :: "RuntimeException + bool"
  ex_state :: Computer

text \<open>The characters written to the console, in order.\<close>

fun consoleOutput :: "Event list \<Rightarrow> 8 word list" where
  "consoleOutput [] = []"
| "consoleOutput (ConsoleWrite c # evs) = c # consoleOutput evs"
| "consoleOutput (e # evs) = consoleOutput evs"

text \<open>
  The loop of INT 7, \<open>for (let i = 0; i < length; i++)\<close>: each character read from
  \<open>start + i\<close> is written to the console. It returns the events of the loop and whether
  it ran to its end; a failed read ends the instruction after the events yielded so far.
\<close>

function int7Loop :: "nat \<Rightarrow> nat \<Rightarrow> nat \<Rightarrow> Computer \<Rightarrow> Event list \<times> bool" where
  "int7Loop start len i s =
     (if i < len then
        (case memory_read s (start + i) of
           None \<Rightarrow> ([MarSet ''ri''], False)
         | Some char \<Rightarrow>
             (case int7Loop start len (i + 1) s of
                (evs, completed) \<Rightarrow>
                  ([MarSet ''ri'', ConsoleWrite char,
                    RegisterUpdate ''ri'' (of_nat (start + i + 1)),
                    RegisterUpdateByte ''id.l'' (of_nat (len - i - 1))] @ evs, completed)))
      else ([], True))"
  by pat_completeness auto
termination
  by (relation "measure (\<lambda>(start, len, i, s). len - i)") auto

declare int7Loop.simps [simp del]

text \<open>The end of the routines 6 and 7: pop FLAGS, after the events \<open>evs\<close>.\<close>

definition retrieveState :: "Event list \<Rightarrow> Computer \<Rightarrow> Execution" where
  "retrieveState evs s =
     (case cpu_popFromStack s of
        None \<Rightarrow> \<lparr>ex_events = evs, ex_result = Inr False, ex_state = s\<rparr>
      | Some (FLAGS, s') \<Rightarrow>
          \<lparr>ex_events = evs @ [RegisterCopy ''id'' ''FLAGS''], ex_result = Inr True,
           ex_state = setFLAGS FLAGS s'\<rparr>)"

text \<open>
  \<open>execute\<close>, for the interrupt number of the statement and the answer of the consumer to
  \<open>console.read\<close> (\<open>None\<close> when it is not an 8-bit value, which makes INT 6 throw).
\<close>

definition execute_INT :: "8 word \<Rightarrow> 8 word option \<Rightarrow> Computer \<Rightarrow> Execution" where
  "execute_INT number input s =
     (let s0 = consumeInstruction (consumeInstruction s);
          e0 = [CycleStart number, Decode, CycleUpdateDecoded, CycleUpdateExecute]
      in if number = 0 then \<lparr>ex_events = e0 @ [Int0], ex_result = Inr False, ex_state = s0\<rparr>
         else if number = 3 then \<lparr>ex_events = e0 @ [Int3], ex_result = Inr True, ex_state = s0\<rparr>
         else if number = 6 \<or> number = 7 then
           (let e1 = e0 @ [RegisterCopy ''FLAGS'' ''id'']
            in case cpu_pushToStack s0 (getFLAGS s0) of
                 None \<Rightarrow> \<lparr>ex_events = e1, ex_result = Inr False, ex_state = s0\<rparr>
               | Some s1 \<Rightarrow>
                   (let s2 = setFlagIF False s1;
                        e2 = e1 @ [RegisterUpdate ''FLAGS'' (getFLAGS s2), IntRoutine number]
                    in if number = 6 then
                         (let address = cpu_BX s2;
                              e3 = e2 @ [RegisterCopy ''BX'' ''ri'', ConsoleRead]
                          in case input of
                               None \<Rightarrow>
                                 \<lparr>ex_events = e3, ex_result = Inl InvalidCharacter, ex_state = s2\<rparr>
                             | Some char \<Rightarrow>
                                 (let e4 = e3 @ [RegisterUpdate ''id'' (withHigh char 0),
                                                 MarSet ''ri'', MbrSet ''id.l'']
                                  in case memory_write s2 (unat address) char of
                                       None \<Rightarrow>
                                         \<lparr>ex_events = e4, ex_result = Inr False, ex_state = s2\<rparr>
                                     | Some s3 \<Rightarrow> retrieveState e4 s3))
                       else
                         (let start = unat (cpu_BX s2);
                              len = unat (lowByte (cpu_AX s2));
                              e3 = e2 @ [RegisterCopy ''BX'' ''ri'', RegisterCopy ''AL'' ''id.l'']
                          in case int7Loop start len 0 s2 of
                               (evs, completed) \<Rightarrow>
                                 if completed then retrieveState (e3 @ evs) s2
                                 else \<lparr>ex_events = e3 @ evs, ex_result = Inr False,
                                       ex_state = s2\<rparr>)))
         else \<lparr>ex_events = e0, ex_result = Inr True, ex_state = startInterrupt number s0\<rparr>)"

text \<open>
  A state with IF set, the stack empty (SP = 4000h) and BX pointing at 3FFEh, the
  address where the next push stores the low byte of its word.
\<close>

definition aliased :: Computer where
  "aliased =
     \<lparr>cpu_flags = \<lparr>flag_CF = False, flag_ZF = False, flag_SF = False, flag_IF = True,
                    flag_OF = False\<rparr>,
      cpu_AX = 0, cpu_BX = 0x3FFE, cpu_SP = 0x4000, cpu_IP = 0x2000,
      ram = (\<lambda>a. 0)\<rparr>"

text \<open>The same state with BX = 1000h and AL = 2, and \<open>Hi\<close> stored at 1000h.\<close>

definition greeting :: Computer where
  "greeting = aliased\<lparr>cpu_AX := 2, cpu_BX := 0x1000, ram := (\<lambda>a. 0)(0x1000 := 0x48, 0x1001 := 0x69)\<rparr>"

section \<open>Parser: the class \<open>Parser\<close>\<close>

text \<open>
  Modelled from the spec: the module \<open>lexer/tokens\<close> is not part of the sources. The token
  types are the ones the parser tests; \<open>REGISTERS\<close>, \<open>DATA_DIRECTIVES\<close> (DB, DW and EQU)
  and \<open>INSTRUCTIONS\<close> (the mnemonics) are the constructors with an argument.
\<close>

datatype Directive = DirDB | DirDW | DirEQU

datatype TokenType =
    EOL | EOF | ORG | END | NUMBER | IDENTIFIER | COLON | COMMA | STRING | QUESTION_MARK
  | BYTE | WORD | PTR | LEFT_BRACKET | RIGHT_BRACKET | PLUS | MINUS | ASTERISK | OFFSET
  | LEFT_PAREN | RIGHT_PAREN
  | REGISTER RegisterType
  | DATA_DIRECTIVE Directive
  | INSTRUCTION string

record Token =
  tok_type :: TokenType
  lexeme :: string
  tok_position :: nat

text \<open>
  The errors of the parser. \<open>UndefinedToken\<close> is the TypeError of JavaScript when the
  parser reads a field of a token beyond the end of the array; the lexer ends every
  token array with EOF, so that it does not happen on its output.
\<close>

datatype ParseError =
    UndefinedToken
  | ExpectedToken TokenType string
  | ExpectedEOL TokenType
  | ExpectedInstruction TokenType
  | ExpectedArgument
  | MustEndWithEND
  | ENDMustBeLast
  | DuplicatedLabel string

datatype ParsedOperand =
    RegisterP RegisterType
  | MemoryDirectP string
  | MemoryIndirectBX AddressSize
  | MemoryIndirectP AddressSize NumberExpression
  | ImmediateP NumberExpression

text \<open>
  The statements of the parser, each with its position range. The positions inside the
  operands and values are left out.
\<close>

datatype Statement =
    OriginChangeStatement JSNumber "nat \<times> nat"
  | EndStatement "nat \<times> nat"
  | DataStatement Directive "string option" "DataDirectiveValue list" "nat \<times> nat"
  | InstructionStatement string "string option" "ParsedOperand list" "nat \<times> nat"

subsection \<open>Helpers\<close>

definition toUpperChar :: "char \<Rightarrow> char" where
  "toUpperChar c =
     (if 97 \<le> (of_char c :: nat) \<and> (of_char c :: nat) \<le> 122
      then char_of ((of_char c :: nat) - 32) else c)"

definition toUpperCase :: "string \<Rightarrow> string" where
  "toUpperCase s = map toUpperChar s"

definition positionStep :: "Token \<Rightarrow> Token \<times> Token \<Rightarrow> Token \<times> Token" where
  "positionStep token lr =
     (if tok_position token < tok_position (fst lr) then (token, snd lr)
      else if tok_position token > tok_position (snd lr) then (fst lr, token)
      else lr)"

definition calculatePositionRange :: "Token \<Rightarrow> Token list \<Rightarrow> nat \<times> nat" where
  "calculatePositionRange t ts =
     (case fold positionStep (t # ts) (t, t) of
        (leftmost, rightmost) \<Rightarrow>
          (tok_position leftmost, tok_position rightmost + length (lexeme rightmost)))"

text \<open>
  \<open>parseInt(string, radix)\<close> of JavaScript, for a radix between 2 and 36 as the parser
  calls it. Leading white space is skipped (of the white space of the language, the
  characters below are the ones an 8-bit character can be), then a sign is read, then, at
  radix 16 only, a prefix \<open>0x\<close> or \<open>0X\<close>. The digits are the longest prefix of digits of
  the radix; when there is none the result is NaN.
\<close>

definition isWhiteSpace :: "char \<Rightarrow> bool" where
  "isWhiteSpace c = ((of_char c :: nat) \<in> {9, 10, 11, 12, 13, 32, 160})"

definition digitValue :: "char \<Rightarrow> nat option" where
  "digitValue c =
     (let n = (of_char c :: nat)
      in if 48 \<le> n \<and> n \<le> 57 then Some (n - 48)
         else if 97 \<le> n \<and> n \<le> 122 then Some (n - 87)
         else if 65 \<le> n \<and> n \<le> 90 then Some (n - 55)
         else None)"

definition isDigitOf :: "nat \<Rightarrow> char \<Rightarrow> bool" where
  "isDigitOf radix c = (case digitValue c of None \<Rightarrow> False | Some d \<Rightarrow> d < radix)"

text \<open>The mathematical integer that a string of digits of the radix denotes.\<close>

definition mathInt :: "nat \<Rightarrow> string \<Rightarrow> int" where
  "mathInt radix z =
     foldl (\<lambda>acc c. acc * int radix + (case digitValue c of None \<Rightarrow> 0 | Some d \<Rightarrow> int d)) 0 z"

text \<open>
  The number value of a positive mathematical integer: the nearest double, ties to the
  even significand. An integer below \<open>2 ^ 53\<close> is a double; a larger one keeps its 53
  leading bits; \<open>None\<close> is the infinity, from \<open>2 ^ 1024\<close> on.
\<close>

function bitLength :: "int \<Rightarrow> nat" where
  "bitLength n = (if n \<le> 0 then 0 else Suc (bitLength (n div 2)))"
  by pat_completeness auto
termination
  by (relation "measure nat") auto

declare bitLength.simps [simp del]

definition roundToDouble :: "int \<Rightarrow> int option" where
  "roundToDouble n =
     (if n < 2 ^ 53 then Some n
      else
        (let e = bitLength n - 53;
             q = n div 2 ^ e;
             r = n mod 2 ^ e;
             q' = (if 2 * r > 2 ^ e \<or> (2 * r = 2 ^ e \<and> odd q) then q + 1 else q)
         in if bitLength (q' * 2 ^ e) > 1024 then None else Some (q' * 2 ^ e)))"

definition parseInt :: "string \<Rightarrow> nat \<Rightarrow> JSNumber" where
  "parseInt string radix =
     (let s = dropWhile isWhiteSpace string;
          negative = (s \<noteq> [] \<and> hd s = CHR ''-'');
          s1 = (if s \<noteq> [] \<and> (hd s = CHR ''+'' \<or> hd s = CHR ''-'') then tl s else s);
          s2 = (if radix = 16 \<and> (take 2 s1 = ''0x'' \<or> take 2 s1 = ''0X'') then drop 2 s1 else s1);
          z = takeWhile (isDigitOf radix) s2;
          n = mathInt radix z
      in if z = [] then NaN
         else if n = 0 then (if negative then NegativeZero else Finite 0)
         else if radix = 10 \<and> length (dropWhile (\<lambda>c. c = CHR ''0'') z) > 20
         then ImplementationApproximated
         else (case roundToDouble n of
                 None \<Rightarrow> if negative then MinusInfinity else PlusInfinity
               | Some d \<Rightarrow> Finite (if negative then - d else d)))"

text \<open>\<open>t.lexeme.at(-1)\<close> is undefined on the empty lexeme, which then goes to radix 10.\<close>

definition parseNumber :: "Token \<Rightarrow> JSNumber" where
  "parseNumber t =
     (if lexeme t \<noteq> [] \<and> (last (lexeme t) = CHR ''h'' \<or> last (lexeme t) = CHR ''H'')
      then parseInt (butlast (lexeme t)) 16
      else if lexeme t \<noteq> [] \<and> (last (lexeme t) = CHR ''b'' \<or> last (lexeme t) = CHR ''B'')
      then parseInt (butlast (lexeme t)) 2
      else parseInt (lexeme t) 10)"

definition parseString :: "Token \<Rightarrow> string" where
  "parseString t = butlast (tl (lexeme t))"

subsection \<open>Number expressions\<close>

text \<open>
  The parser reads the tokens from the index \<open>current\<close> onwards. Each function below
  takes the tokens from \<open>current\<close> on and returns what the method returns together with
  the number of tokens it consumed, that is the increase of \<open>current\<close>; a thrown error
  is \<open>Inl\<close>. \<open>consume\<close> expects a token type at the front.
\<close>

definition consume :: "TokenType \<Rightarrow> Token list \<Rightarrow> ParseError + Token" where
  "consume ty ts =
     (case ts of
        [] \<Rightarrow> Inl UndefinedToken
      | t # r \<Rightarrow> if tok_type t = ty then Inr t else Inl (ExpectedToken ty (lexeme t)))"

function primaryNE :: "Token list \<Rightarrow> ParseError + (NumberExpression \<times> nat)"
  and unaryNE :: "Token list \<Rightarrow> ParseError + (NumberExpression \<times> nat)"
  and factorNE :: "Token list \<Rightarrow> ParseError + (NumberExpression \<times> nat)"
  and factorLoop :: "NumberExpression \<Rightarrow> nat \<Rightarrow> Token list \<Rightarrow> ParseError + (NumberExpression \<times> nat)"
  and termNE :: "Token list \<Rightarrow> ParseError + (NumberExpression \<times> nat)"
  and termLoop :: "NumberExpression \<Rightarrow> nat \<Rightarrow> Token list \<Rightarrow> ParseError + (NumberExpression \<times> nat)"
where
  "primaryNE [] = Inl UndefinedToken"
| "primaryNE (t # r) =
     (if tok_type t = NUMBER then Inr (NumberLiteral (parseNumber t), 1)
      else if tok_type t = OFFSET then
        (case consume IDENTIFIER r of
           Inl e \<Rightarrow> Inl e
         | Inr identifierToken \<Rightarrow> Inr (LabelExpr (toUpperCase (lexeme identifierToken)) True, 2))
      else if tok_type t = IDENTIFIER then Inr (LabelExpr (toUpperCase (lexeme t)) False, 1)
      else if tok_type t = LEFT_PAREN then
        (case termNE r of
           Inl e \<Rightarrow> Inl e
         | Inr (expression, k) \<Rightarrow>
             (case consume RIGHT_PAREN (drop k r) of
                Inl e \<Rightarrow> Inl e
              | Inr rparen \<Rightarrow> Inr (expression, k + 2)))
      else Inl ExpectedArgument)"
| "unaryNE [] = Inl UndefinedToken"
| "unaryNE (t # r) =
     (if tok_type t = PLUS \<or> tok_type t = MINUS then
        (case unaryNE r of
           Inl e \<Rightarrow> Inl e
         | Inr (right, k) \<Rightarrow>
             Inr (UnaryOperation (if tok_type t = PLUS then CHR ''+'' else CHR ''-'') right,
                  k + 1))
      else primaryNE (t # r))"
| "factorNE ts =
     (case unaryNE ts of
        Inl e \<Rightarrow> Inl e
      | Inr (expression, k) \<Rightarrow> factorLoop expression k (drop k ts))"
| "factorLoop expression k [] = Inl UndefinedToken"
| "factorLoop expression k (t # r) =
     (if tok_type t = ASTERISK then
        (case unaryNE r of
           Inl e \<Rightarrow> Inl e
         | Inr (right, j) \<Rightarrow>
             factorLoop (BinaryOperation (CHR ''*'') expression right) (k + 1 + j) (drop j r))
      else Inr (expression, k))"
| "termNE ts =
     (case factorNE ts of
        Inl e \<Rightarrow> Inl e
      | Inr (expression, k) \<Rightarrow> termLoop expression k (drop k ts))"
| "termLoop expression k [] = Inl UndefinedToken"
| "termLoop expression k (t # r) =
     (if tok_type t = PLUS \<or> tok_type t = MINUS then
        (case factorNE r of
           Inl e \<Rightarrow> Inl e
         | Inr (right, j) \<Rightarrow>
             termLoop
               (BinaryOperation (if tok_type t = PLUS then CHR ''+'' else CHR ''-'') expression right)
               (k + 1 + j) (drop j r))
      else Inr (expression, k))"
  by pat_completeness auto
termination
  by (relation "measures
        [\<lambda>x. case x of
               Inl (Inl ts) \<Rightarrow> length ts
             | Inl (Inr (Inl ts)) \<Rightarrow> length ts
             | Inl (Inr (Inr ts)) \<Rightarrow> length ts
             | Inr (Inl (e, k, ts)) \<Rightarrow> length ts
             | Inr (Inr (Inl ts)) \<Rightarrow> length ts
             | Inr (Inr (Inr (e, k, ts))) \<Rightarrow> length ts,
         \<lambda>x. case x of
               Inl (Inl ts) \<Rightarrow> 0
             | Inl (Inr (Inl ts)) \<Rightarrow> 1
             | Inl (Inr (Inr ts)) \<Rightarrow> 3
             | Inr (Inl (e, k, ts)) \<Rightarrow> 2
             | Inr (Inr (Inl ts)) \<Rightarrow> 5
             | Inr (Inr (Inr (e, k, ts))) \<Rightarrow> 4]")
    (auto simp add: less_Suc_eq_le)

definition numberExpression :: "Token list \<Rightarrow> ParseError + (NumberExpression \<times> nat)" where
  "numberExpression ts = termNE ts"

subsection \<open>Operands and values\<close>

definition dataDirectiveValue :: "Token list \<Rightarrow> ParseError + (DataDirectiveValue \<times> nat)" where
  "dataDirectiveValue ts =
     (case ts of
        [] \<Rightarrow> Inl UndefinedToken
      | t # r \<Rightarrow>
          if tok_type t = STRING then Inr (StringValue (parseString t), 1)
          else if tok_type t = QUESTION_MARK then Inr (UnassignedValue, 1)
          else (case numberExpression ts of
                  Inl e \<Rightarrow> Inl e
                | Inr (calc, k) \<Rightarrow> Inr (NumberValue calc, k)))"

text \<open>
  The operand after the opening bracket, for the mode read so far and the number of
  tokens consumed so far.
\<close>

definition bracketOperand :: "AddressSize \<Rightarrow> nat \<Rightarrow> Token list \<Rightarrow> ParseError + (ParsedOperand \<times> nat)" where
  "bracketOperand mode used ts =
     (case ts of
        [] \<Rightarrow> Inl UndefinedToken
      | t # r \<Rightarrow>
          if tok_type t = REGISTER RBX then
            (case consume RIGHT_BRACKET r of
               Inl e \<Rightarrow> Inl e
             | Inr rbracket \<Rightarrow> Inr (MemoryIndirectBX mode, used + 2))
          else
            (case numberExpression ts of
               Inl e \<Rightarrow> Inl e
             | Inr (calc, k) \<Rightarrow>
                 (case consume RIGHT_BRACKET (drop k ts) of
                    Inl e \<Rightarrow> Inl e
                  | Inr rbracket \<Rightarrow> Inr (MemoryIndirectP mode calc, used + k + 1))))"

definition instructionOperand :: "Token list \<Rightarrow> ParseError + (ParsedOperand \<times> nat)" where
  "instructionOperand ts =
     (case ts of
        [] \<Rightarrow> Inl UndefinedToken
      | t # r \<Rightarrow>
          (case tok_type t of
             REGISTER reg \<Rightarrow> Inr (RegisterP reg, 1)
           | IDENTIFIER \<Rightarrow> Inr (MemoryDirectP (toUpperCase (lexeme t)), 1)
           | LEFT_BRACKET \<Rightarrow> bracketOperand AutoSize 1 r
           | BYTE \<Rightarrow>
               (case consume PTR r of
                  Inl e \<Rightarrow> Inl e
                | Inr p \<Rightarrow>
                    (case consume LEFT_BRACKET (drop 1 r) of
                       Inl e \<Rightarrow> Inl e
                     | Inr b \<Rightarrow> bracketOperand ByteSize 3 (drop 2 r)))
           | WORD \<Rightarrow>
               (case consume PTR r of
                  Inl e \<Rightarrow> Inl e
                | Inr p \<Rightarrow>
                    (case consume LEFT_BRACKET (drop 1 r) of
                       Inl e \<Rightarrow> Inl e
                     | Inr b \<Rightarrow> bracketOperand WordSize 3 (drop 2 r)))
           | _ \<Rightarrow>
               (case numberExpression ts of
                  Inl e \<Rightarrow> Inl e
                | Inr (calc, k) \<Rightarrow> Inr (ImmediateP calc, k))))"

text \<open>The \<open>while (this.check("COMMA"))\<close> iterations that read the remaining values and operands.\<close>

function dataValues ::
  "DataDirectiveValue list \<Rightarrow> nat \<Rightarrow> Token list \<Rightarrow> ParseError + (DataDirectiveValue list \<times> nat)" where
  "dataValues vs k [] = Inl UndefinedToken"
| "dataValues vs k (t # r) =
     (if tok_type t = COMMA then
        (case dataDirectiveValue r of
           Inl e \<Rightarrow> Inl e
         | Inr (v, j) \<Rightarrow> dataValues (vs @ [v]) (k + 1 + j) (drop j r))
      else Inr (vs, k))"
  by pat_completeness auto
termination
  by (relation "measure (\<lambda>(vs, k, ts). length ts)") (auto simp add: less_Suc_eq_le)

function operandList ::
  "ParsedOperand list \<Rightarrow> nat \<Rightarrow> Token list \<Rightarrow> ParseError + (ParsedOperand list \<times> nat)" where
  "operandList ops k [] = Inl UndefinedToken"
| "operandList ops k (t # r) =
     (if tok_type t = COMMA then
        (case instructionOperand r of
           Inl e \<Rightarrow> Inl e
         | Inr (operand, j) \<Rightarrow> operandList (ops @ [operand]) (k + 1 + j) (drop j r))
      else Inr (ops, k))"
  by pat_completeness auto
termination
  by (relation "measure (\<lambda>(ops, k, ts). length ts)") (auto simp add: less_Suc_eq_le)

definition expectEOL :: "Token list \<Rightarrow> ParseError + Token" where
  "expectEOL ts =
     (case ts of
        [] \<Rightarrow> Inl UndefinedToken
      | t # r \<Rightarrow>
          if tok_type t = EOF then Inl MustEndWithEND
          else if tok_type t \<noteq> EOL then Inl (ExpectedEOL (tok_type t))
          else Inr t)"

subsection \<open>Labels\<close>

text \<open>
  The loop \<open>while (this.check("EOL")) this.advance()\<close>: the number of EOL tokens skipped,
  or the TypeError when the tokens run out before another token is found.
\<close>

fun skipEOL :: "Token list \<Rightarrow> ParseError + nat" where
  "skipEOL [] = Inl UndefinedToken"
| "skipEOL (t # r) =
     (if tok_type t = EOL then (case skipEOL r of Inl e \<Rightarrow> Inl e | Inr n \<Rightarrow> Inr (n + 1))
      else Inr 0)"

fun statementLabel :: "Statement \<Rightarrow> string option" where
  "statementLabel (DataStatement d l vs p) = l"
| "statementLabel (InstructionStatement i l ops p) = l"
| "statementLabel _ = None"

text \<open>
  \<open>label()\<close>, for the statements parsed so far: the label read, if any, and the number of
  tokens consumed.
\<close>

definition parseLabel :: "Token list \<Rightarrow> Statement list \<Rightarrow> ParseError + (string option \<times> nat)" where
  "parseLabel ts statements =
     (case ts of
        [] \<Rightarrow> Inl UndefinedToken
      | labelToken # r \<Rightarrow>
          if tok_type labelToken \<noteq> IDENTIFIER then Inr (None, 0)
          else (case r of
                  [] \<Rightarrow> Inl UndefinedToken
                | colonToken # r' \<Rightarrow>
                    if tok_type colonToken \<noteq> COLON then Inr (None, 0)
                    else (let l = toUpperCase (lexeme labelToken)
                          in if \<exists>s \<in> set statements. statementLabel s = Some l
                             then Inl (DuplicatedLabel l)
                             else (case skipEOL r' of
                                     Inl e \<Rightarrow> Inl e
                                   | Inr n \<Rightarrow> Inr (Some l, n + 2)))))"

subsection \<open>Statements\<close>

text \<open>
  The part of the loop of \<open>parseTokens\<close> after \<open>label()\<close>, for the tokens that follow the
  label: the statement parsed and the number of tokens consumed up to the point where
  the loop continues.
\<close>

definition labeledStatement :: "string option \<Rightarrow> Token list \<Rightarrow> ParseError + (Statement \<times> nat)" where
  "labeledStatement l ts =
     (case ts of
        [] \<Rightarrow> Inl UndefinedToken
      | token # r \<Rightarrow>
          (case tok_type token of
             DATA_DIRECTIVE d \<Rightarrow>
               (case dataDirectiveValue r of
                  Inl e \<Rightarrow> Inl e
                | Inr (v, k) \<Rightarrow>
                    (case dataValues [v] k (drop k r) of
                       Inl e \<Rightarrow> Inl e
                     | Inr (vs, k') \<Rightarrow>
                         (case expectEOL (drop k' r) of
                            Inl e \<Rightarrow> Inl e
                          | Inr eol \<Rightarrow>
                              Inr (DataStatement d l vs (calculatePositionRange token []),
                                   k' + 2))))
           | INSTRUCTION name \<Rightarrow>
               (case r of
                  [] \<Rightarrow> Inl UndefinedToken
                | next # r' \<Rightarrow>
                    if tok_type next = EOL
                    then Inr (InstructionStatement name l [] (calculatePositionRange token []), 1)
                    else (case instructionOperand r of
                            Inl e \<Rightarrow> Inl e
                          | Inr (operand, k) \<Rightarrow>
                              (case operandList [operand] k (drop k r) of
                                 Inl e \<Rightarrow> Inl e
                               | Inr (ops, k') \<Rightarrow>
                                   (case expectEOL (drop k' r) of
                                      Inl e \<Rightarrow> Inl e
                                    | Inr eol \<Rightarrow>
                                        Inr (InstructionStatement name l ops
                                               (calculatePositionRange token []),
                                             k' + 2)))))
           | other \<Rightarrow> Inl (ExpectedInstruction other)))"

function parseLoop :: "Token list \<Rightarrow> Statement list \<Rightarrow> ParseError + Statement list" where
  "parseLoop [] statements = Inl UndefinedToken"
| "parseLoop (t # r) statements =
     (if tok_type t = EOF then Inr statements
      else if tok_type t = EOL then parseLoop r statements
      else if tok_type t = ORG then
        (case consume NUMBER r of
           Inl e \<Rightarrow> Inl e
         | Inr addressToken \<Rightarrow>
             (case expectEOL (drop 1 r) of
                Inl e \<Rightarrow> Inl e
              | Inr eol \<Rightarrow>
                  parseLoop (drop 2 r)
                    (statements @
                     [OriginChangeStatement (parseNumber addressToken)
                        (calculatePositionRange t [addressToken])])))
      else if tok_type t = END then
        (case skipEOL r of
           Inl e \<Rightarrow> Inl e
         | Inr n \<Rightarrow>
             (case drop n r of
                [] \<Rightarrow> Inl UndefinedToken
              | t' # r' \<Rightarrow>
                  if tok_type t' \<noteq> EOF then Inl ENDMustBeLast
                  else parseLoop (drop n r)
                         (statements @ [EndStatement (calculatePositionRange t [])])))
      else
        (case parseLabel (t # r) statements of
           Inl e \<Rightarrow> Inl e
         | Inr (l, k) \<Rightarrow>
             (case labeledStatement l (drop k (t # r)) of
                Inl e \<Rightarrow> Inl e
              | Inr (statement, j) \<Rightarrow>
                  parseLoop (drop (k + j) (t # r)) (statements @ [statement]))))"
  by pat_completeness auto

definition parseTokens :: "Token list \<Rightarrow> ParseError + Statement list" where
  "parseTokens tokens = parseLoop tokens []"

text \<open>
  A token, and the tokens of the source
  \<^verbatim>\<open>ORG 1000h / x: / (empty line) / DB 5 / END\<close>
  and of the same source with the label on the line of its directive.
\<close>

definition tk :: "TokenType \<Rightarrow> string \<Rightarrow> nat \<Rightarrow> Token" where
  "tk ty l p = \<lparr>tok_type = ty, lexeme = l, tok_position = p\<rparr>"

definition ownLineSource :: "Token list" where
  "ownLineSource =
     [tk ORG ''ORG'' 0, tk NUMBER ''1000h'' 4, tk EOL [] 9,
      tk IDENTIFIER ''x'' 10, tk COLON '':'' 11, tk EOL [] 12, tk EOL [] 13,
      tk (DATA_DIRECTIVE DirDB) ''DB'' 14, tk NUMBER ''5'' 17, tk EOL [] 18,
      tk END ''END'' 19, tk EOL [] 22, tk EOF [] 23]"

definition sameLineSource :: "Token list" where
  "sameLineSource =
     [tk ORG ''ORG'' 0, tk NUMBER ''1000h'' 4, tk EOL [] 9,
      tk IDENTIFIER ''x'' 10, tk COLON '':'' 11,
      tk (DATA_DIRECTIVE DirDB) ''DB'' 14, tk NUMBER ''5'' 17, tk EOL [] 18,
      tk END ''END'' 19, tk EOL [] 22, tk EOF [] 23]"

section \<open>Termination of the loop of the parser\<close>

lemma labeledStatement_consumes:
  "labeledStatement l ts = Inr (statement, j) \<Longrightarrow> 0 < j"
  by (auto simp add: labeledStatement_def
      split: list.splits TokenType.splits sum.splits prod.splits if_splits)

lemma drop_Cons_length: "drop n xs = y # ys \<Longrightarrow> length ys < length xs"
proof -
  assume "drop n xs = y # ys"
  then have "length (drop n xs) = Suc (length ys)" by simp
  then show ?thesis by simp
qed

termination parseLoop
proof (relation "measure (\<lambda>(ts, statements). length ts)", goal_cases)
  case 1
  show ?case by simp
next
  case 2
  then show ?case by simp
next
  case 3
  then show ?case by simp
next
  case 4
  then show ?case by (auto dest: drop_Cons_length)
next
  case (5 t r statements x l k y statement j)
  from labeledStatement_consumes [of l "drop k (t # r)" statement j] 5
  have "0 < j" by simp
  then show ?case by simp
qed
section \<open>Fixed-width values\<close>

lemma toInt32_id: "- (2 ^ 31) \<le> x \<Longrightarrow> x < 2 ^ 31 \<Longrightarrow> toInt32 x = x"
  by (simp add: toInt32_def)

lemma size_cases: "n \<in> {8, 16} \<Longrightarrow> n = (8::nat) \<or> n = 16"
  by simp

lemma fromUnsigned_roundtrip:
  assumes "n \<in> {8, 16}" "0 \<le> v" "v \<le> 2 ^ n - 1"
  shows "\<exists>b. fromUnsigned v n = Inr b \<and> unsigned_of b = v"
  using size_cases [OF assms(1)]
proof
  assume "n = 8"
  with assms(2,3) show ?thesis
    by (simp add: fromUnsigned_def fitsUnsigned_def isSafeInteger_def minValue_def
        maxValue_def newByte_def unsigned_of_def toInt32_id)
next
  assume "n = 16"
  with assms(2,3) show ?thesis
    by (simp add: fromUnsigned_def fitsUnsigned_def isSafeInteger_def minValue_def
        maxValue_def newByte_def unsigned_of_def toInt32_id)
qed

lemma fromSigned_roundtrip:
  assumes "n \<in> {8, 16}" "- (2 ^ (n - 1)) \<le> s" "s \<le> 2 ^ (n - 1) - 1"
  shows "\<exists>b. fromSigned s n = Inr b \<and> signed_of b = s"
  using size_cases [OF assms(1)]
proof
  assume "n = 8"
  with assms(2,3) show ?thesis
    by (simp add: fromSigned_def fitsSigned_def isSafeInteger_def minSignedValue_def
        maxSignedValue_def maxValue_def newByte_def signed_of_def toInt32_id)
next
  assume "n = 16"
  with assms(2,3) show ?thesis
    by (simp add: fromSigned_def fitsSigned_def isSafeInteger_def minSignedValue_def
        maxSignedValue_def maxValue_def newByte_def signed_of_def toInt32_id)
qed

lemma fromUnsigned_fails_iff:
  assumes "n \<in> {8, 16}"
  shows "isl (fromUnsigned v n) \<longleftrightarrow> \<not> (0 \<le> v \<and> v \<le> 2 ^ n - 1)"
  using size_cases [OF assms]
  by (auto simp add: fromUnsigned_def fitsUnsigned_def isSafeInteger_def minValue_def
      maxValue_def)

lemma fromSigned_fails_iff:
  assumes "n \<in> {8, 16}"
  shows "isl (fromSigned s n) \<longleftrightarrow> \<not> (- (2 ^ (n - 1)) \<le> s \<and> s \<le> 2 ^ (n - 1) - 1)"
  using size_cases [OF assms]
  by (auto simp add: fromSigned_def fitsSigned_def isSafeInteger_def minSignedValue_def
      maxSignedValue_def)

text \<open>
  C9. For every size n in {8, 16}: an unsigned integer v in [0, 2^n - 1] is returned
  unchanged by the unsigned view of \<open>Byte.fromUnsigned(v, n)\<close>; a signed integer s in
  [-2^(n-1), 2^(n-1) - 1] is returned unchanged by the signed view of
  \<open>Byte.fromSigned(s, n)\<close>; and each constructor fails (RangeError) exactly when its
  input lies outside that range.
\<close>

theorem C9_byte_roundtrip:
  assumes "n \<in> {8, 16}"
  shows "(\<forall>v. 0 \<le> v \<and> v \<le> 2 ^ n - 1 \<longrightarrow>
            (\<exists>b. fromUnsigned v n = Inr b \<and> unsigned_of b = v)) \<and>
         (\<forall>s. - (2 ^ (n - 1)) \<le> s \<and> s \<le> 2 ^ (n - 1) - 1 \<longrightarrow>
            (\<exists>b. fromSigned s n = Inr b \<and> signed_of b = s)) \<and>
         (\<forall>v. isl (fromUnsigned v n) \<longleftrightarrow> \<not> (0 \<le> v \<and> v \<le> 2 ^ n - 1)) \<and>
         (\<forall>s. isl (fromSigned s n) \<longleftrightarrow> \<not> (- (2 ^ (n - 1)) \<le> s \<and> s \<le> 2 ^ (n - 1) - 1))"
proof (intro conjI allI impI)
  fix v :: int assume "0 \<le> v \<and> v \<le> 2 ^ n - 1"
  then show "\<exists>b. fromUnsigned v n = Inr b \<and> unsigned_of b = v"
    using fromUnsigned_roundtrip [OF assms] by simp
next
  fix s :: int assume "- (2 ^ (n - 1)) \<le> s \<and> s \<le> 2 ^ (n - 1) - 1"
  then show "\<exists>b. fromSigned s n = Inr b \<and> signed_of b = s"
    using fromSigned_roundtrip [OF assms] by simp
next
  fix v :: int
  show "isl (fromUnsigned v n) \<longleftrightarrow> \<not> (0 \<le> v \<and> v \<le> 2 ^ n - 1)"
    by (rule fromUnsigned_fails_iff [OF assms])
next
  fix s :: int
  show "isl (fromSigned s n) \<longleftrightarrow> \<not> (- (2 ^ (n - 1)) \<le> s \<and> s \<le> 2 ^ (n - 1) - 1)"
    by (rule fromSigned_fails_iff [OF assms])
qed

theorem C9_byte_roundtrip_witness:
  "(8::nat) \<in> {8, 16} \<and> (0::int) \<le> 200 \<and> (200::int) \<le> 2 ^ 8 - 1 \<and>
   (\<exists>b. fromUnsigned 200 8 = Inr b \<and> unsigned_of b = 200) \<and>
   - (2 ^ (8 - 1)) \<le> (- 100 :: int) \<and> (- 100 :: int) \<le> 2 ^ (8 - 1) - 1 \<and>
   (\<exists>b. fromSigned (- 100) 8 = Inr b \<and> signed_of b = - 100) \<and>
   isl (fromUnsigned 256 8) \<and> isl (fromSigned 128 8)"
proof -
  have h: "(8::nat) \<in> {8, 16}" by simp
  have u: "(0::int) \<le> 200 \<and> (200::int) \<le> 2 ^ 8 - 1" by simp
  have s: "- (2 ^ (8 - 1)) \<le> (- 100 :: int) \<and> (- 100 :: int) \<le> 2 ^ (8 - 1) - 1" by simp
  note t = C9_byte_roundtrip [OF h]
  from t have t1: "\<forall>v. 0 \<le> v \<and> v \<le> 2 ^ 8 - 1 \<longrightarrow>
            (\<exists>b. fromUnsigned v 8 = Inr b \<and> unsigned_of b = v)" by (rule conjunct1)
  from t have t2: "\<forall>s. - (2 ^ (8 - 1)) \<le> s \<and> s \<le> 2 ^ (8 - 1) - 1 \<longrightarrow>
            (\<exists>b. fromSigned s 8 = Inr b \<and> signed_of b = s)"
    by (rule conjunct2 [THEN conjunct1])
  from t have t3: "\<forall>v. isl (fromUnsigned v 8) \<longleftrightarrow> \<not> (0 \<le> v \<and> v \<le> 2 ^ 8 - 1)"
    by (rule conjunct2 [THEN conjunct2, THEN conjunct1])
  from t have t4: "\<forall>s. isl (fromSigned s 8) \<longleftrightarrow> \<not> (- (2 ^ (8 - 1)) \<le> s \<and> s \<le> 2 ^ (8 - 1) - 1)"
    by (rule conjunct2 [THEN conjunct2, THEN conjunct2])
  have a: "\<exists>b. fromUnsigned 200 8 = Inr b \<and> unsigned_of b = 200"
    using t1 [rule_format, OF u] .
  have b: "\<exists>b. fromSigned (- 100) 8 = Inr b \<and> signed_of b = - 100"
    using t2 [rule_format, OF s] .
  have c: "isl (fromUnsigned 256 8)" using t3 [rule_format, of 256] by simp
  have d: "isl (fromSigned 128 8)" using t4 [rule_format, of 128] by simp
  from h u s a b c d show ?thesis by blast
qed

section \<open>The carry scenario on the store-based ALU\<close>

lemma toInt32_numerals:
  "toInt32 0 = 0" "toInt32 1 = 1" "toInt32 8 = 8" "toInt32 255 = 255" "toInt32 256 = 256"
  by (simp_all add: toInt32_def)

lemma unsignedToSigned_identity:
  "n \<le> MAX_VALUE sz \<Longrightarrow> unsignedToSigned n sz = n"
  by (simp add: unsignedToSigned_def)


text \<open>
  C1 (the code at the input of the claim). \<open>MOV AL, 0FFh; ADD AL, 1\<close> leaves AL = 00h and
  CF = 1, SF = 0 as claimed, but the ALU reports ZF = 0 and OF = 1: \<open>unsignedToSigned\<close>
  compares with the largest unsigned value, so it returns every operand that fits
  unchanged, 0FFh as 255, and the signed sum is 256.
\<close>

theorem C1_carry_program_code:
  "getRegister carry_program RAL = 0 \<and>
   carry (alu_flags (alu carry_program)) \<and>
   \<not> sign (alu_flags (alu carry_program)) \<and>
   \<not> zero (alu_flags (alu carry_program)) \<and>
   overflow (alu_flags (alu carry_program))"
  by (simp add: carry_program_def run_arith_reg8_imm_def run_MOV_reg_imm_def
      initial_store_def executeArithmetic_def unsignedToSigned_def carryNumber_def
      setLow_def splitLowHigh_def joinLowHigh_def js_and_def js_or_def js_shl_def
      js_sar_def toInt32_numerals Let_def)


section \<open>Address resolver: occupied memory and bounds\<close>

lemma occupyLoop_None:
  "occupyLoop i fin p occ code = (None, p', occ', code') \<Longrightarrow> p \<le> fin \<Longrightarrow>
     p' = fin \<and> occ' = occ \<union> {p..<fin} \<and> occ \<inter> {p..<fin} = {}"
proof (induction i fin p occ code rule: occupyLoop.induct)
  case (1 i fin p occ code)
  show ?case
  proof (cases "p < fin")
    case False
    with "1.prems" show ?thesis
      by (simp add: occupyLoop.simps [of i fin p])
  next
    case True
    show ?thesis
    proof (cases "p \<in> occ")
      case True
      with \<open>p < fin\<close> "1.prems" show ?thesis
        by (simp add: occupyLoop.simps [of i fin p])
    next
      case False
      with \<open>p < fin\<close> "1.prems"
      have run: "occupyLoop i fin (p + 1) (insert p occ)
                   (if i then insert p code else code) = (None, p', occ', code')"
        by (simp add: occupyLoop.simps [of i fin p])
      from "1.IH" [OF \<open>p < fin\<close> False run] \<open>p < fin\<close>
      have ih: "p' = fin" "occ' = insert p occ \<union> {p + 1..<fin}"
        "insert p occ \<inter> {p + 1..<fin} = {}"
        by simp_all
      have split: "{p..<fin} = insert p {p + 1..<fin}"
        using \<open>p < fin\<close> by auto
      from ih False show ?thesis
        by (auto simp add: split)
    qed
  qed
qed

lemma occupyLoop_Some:
  "a \<in> occ \<Longrightarrow> p \<le> a \<Longrightarrow> a < fin \<Longrightarrow>
     \<exists>b. fst (occupyLoop i fin p occ code) = Some (OccupiedAddress b)"
proof (induction i fin p occ code rule: occupyLoop.induct)
  case (1 i fin p occ code)
  from "1.prems" have lt: "p < fin" by simp
  show ?case
  proof (cases "p \<in> occ")
    case True
    with lt show ?thesis
      by (simp add: occupyLoop.simps [of i fin p])
  next
    case False
    with "1.prems" have "p \<noteq> a" by auto
    with "1.prems" have "p + 1 \<le> a" by simp
    from "1.IH" [OF lt False _ this \<open>a < fin\<close>] "1.prems"(1)
    have "\<exists>b. fst (occupyLoop i fin (p + 1) (insert p occ)
                  (if i then insert p code else code)) = Some (OccupiedAddress b)"
      by simp
    with lt False show ?thesis
      by (simp add: occupyLoop.simps [of i fin p])
  qed
qed

lemma layout_None:
  assumes "layout i k m s = (None, s', m')"
  shows "\<exists>p. pointer s = Some p \<and> m' = m\<lparr>meta_start := p\<rparr> \<and>
           occupiedMemory s' = occupiedMemory s \<union> {p..<p + meta_length m} \<and>
           occupiedMemory s \<inter> {p..<p + meta_length m} = {} \<and>
           p + meta_length m \<le> MAX_MEMORY_ADDRESS"
proof (cases "pointer s")
  case None
  with assms show ?thesis by (simp add: layout_def)
next
  case (Some p)
  define s1 where "s1 = recordLabel k m p s"
  have s1: "occupiedMemory s1 = occupiedMemory s" "codeMemory s1 = codeMemory s"
    by (simp_all add: s1_def recordLabel_def split: option.splits)
  from assms Some have le: "p + meta_length m \<le> MAX_MEMORY_ADDRESS"
    by (auto simp add: layout_def Let_def split: if_splits)
  obtain e p' occ code where
    loop: "occupyLoop i (p + meta_length m) p (occupiedMemory s) (codeMemory s) = (e, p', occ, code)"
    by (metis prod_cases4)
  from assms Some le loop have e: "e = None" and s': "occupiedMemory s' = occ"
    and m': "m' = m\<lparr>meta_start := p\<rparr>"
    by (auto simp add: layout_def Let_def s1 s1_def [symmetric])
  from occupyLoop_None [OF loop [unfolded e]] s' m' Some le show ?thesis
    by simp
qed

lemma stepStatement_None:
  assumes "stepStatement x s = (None, s', x')"
  shows "occupiedMemory s' = occupiedMemory s \<union> stmt_range x' \<and>
         occupiedMemory s \<inter> stmt_range x' = {}"
proof (cases x)
  case (DataStmt d m)
  with assms obtain m' where l: "layout False (kindOfData d) m s = (None, s', m')"
    and x': "x' = DataStmt d m'"
    by (auto split: prod.splits)
  from layout_None [OF l] x' show ?thesis by auto
next
  case (InstructionStmt n m)
  with assms obtain m' where l: "layout True LabelInstruction m s = (None, s', m')"
    and x': "x' = InstructionStmt n m'"
    by (auto split: prod.splits)
  from layout_None [OF l] x' show ?thesis by auto
qed (use assms in auto)

lemma safeForEach_length: "safeForEach xs s = (es, s', xs') \<Longrightarrow> length xs' = length xs"
  by (induction xs arbitrary: s es s' xs') (auto split: prod.splits)

lemma safeForEach_ok:
  "safeForEach xs s = ([], s', xs') \<Longrightarrow>
     occupiedMemory s' = occupiedMemory s \<union> (\<Union>x\<in>set xs'. stmt_range x) \<and>
     occupiedMemory s \<inter> (\<Union>x\<in>set xs'. stmt_range x) = {} \<and>
     (\<forall>i j. i < j \<and> j < length xs' \<longrightarrow> stmt_range (xs' ! i) \<inter> stmt_range (xs' ! j) = {})"
proof (induction xs arbitrary: s s' xs')
  case Nil
  then show ?case by simp
next
  case (Cons x xs)
  obtain e s1 x1 where st: "stepStatement x s = (e, s1, x1)"
    by (metis prod_cases3)
  obtain es s2 ys where rest: "safeForEach xs s1 = (es, s2, ys)"
    by (metis prod_cases3)
  from Cons.prems st rest have e: "e = None" and es: "es = []" and s2: "s2 = s'"
    and xs': "xs' = x1 # ys"
    by (auto split: option.splits)
  from stepStatement_None [OF st [unfolded e]]
  have a1: "occupiedMemory s1 = occupiedMemory s \<union> stmt_range x1"
    and a2: "occupiedMemory s \<inter> stmt_range x1 = {}"
    by simp_all
  from Cons.IH [OF rest [unfolded es s2]]
  have b1: "occupiedMemory s' = occupiedMemory s1 \<union> (\<Union>x\<in>set ys. stmt_range x)"
    and b2: "occupiedMemory s1 \<inter> (\<Union>x\<in>set ys. stmt_range x) = {}"
    and b3: "\<forall>i j. i < j \<and> j < length ys \<longrightarrow> stmt_range (ys ! i) \<inter> stmt_range (ys ! j) = {}"
    by simp_all
  have c1: "occupiedMemory s' = occupiedMemory s \<union> (\<Union>x\<in>set xs'. stmt_range x)"
    using a1 b1 xs' by auto
  have c2: "occupiedMemory s \<inter> (\<Union>x\<in>set xs'. stmt_range x) = {}"
    using a1 a2 b2 xs' by auto
  have c3: "stmt_range (xs' ! i) \<inter> stmt_range (xs' ! j) = {}"
    if ij: "i < j \<and> j < length xs'" for i j
  proof (cases i)
    case 0
    with ij xs' obtain k where k: "j = Suc k" "k < length ys"
      by (cases j) auto
    then have "ys ! k \<in> set ys"
      by simp
    then have "stmt_range (ys ! k) \<subseteq> (\<Union>x\<in>set ys. stmt_range x)"
      by blast
    with a1 b2 have "stmt_range x1 \<inter> stmt_range (ys ! k) = {}"
      by auto
    with 0 k xs' show ?thesis by simp
  next
    case (Suc i')
    with ij xs' obtain k where k: "j = Suc k" "k < length ys" "i' < k"
      by (cases j) auto
    with b3 have "stmt_range (ys ! i') \<inter> stmt_range (ys ! k) = {}"
      by blast
    with Suc k xs' show ?thesis by simp
  qed
  from c1 c2 c3 show ?case by blast
qed

lemma safeForEach_append:
  "safeForEach (xs @ ys) s =
     (case safeForEach xs s of
        (es1, s1, xs') \<Rightarrow>
          (case safeForEach ys s1 of
             (es2, s2, ys') \<Rightarrow> (es1 @ es2, s2, xs' @ ys')))"
  by (induction xs arbitrary: s) (auto split: prod.splits option.splits)

lemma layout_occupied:
  assumes "pointer s = Some p" "p + meta_length m \<le> MAX_MEMORY_ADDRESS"
    "a \<in> occupiedMemory s" "p \<le> a" "a < p + meta_length m"
  shows "\<exists>b. fst (layout i k m s) = Some (OccupiedAddress b)"
proof -
  define s1 where "s1 = recordLabel k m p s"
  have s1: "occupiedMemory s1 = occupiedMemory s" "codeMemory s1 = codeMemory s"
    by (simp_all add: s1_def recordLabel_def split: option.splits)
  from occupyLoop_Some [OF assms(3,4,5), of i "codeMemory s"] obtain b where
    "fst (occupyLoop i (p + meta_length m) p (occupiedMemory s) (codeMemory s)) =
       Some (OccupiedAddress b)" by blast
  with assms(1,2) show ?thesis
    by (auto simp add: layout_def Let_def s1 s1_def [symmetric] split: prod.splits)
qed

lemma layout_out_of_range:
  assumes "pointer s = Some p" "p + meta_length m > MAX_MEMORY_ADDRESS"
  shows "fst (layout i k m s) = Some (InstructionOutOfRange (p + meta_length m))"
  using assms by (simp add: layout_def Let_def)

lemma safeForEach_error_at:
  assumes "fst (stepStatement st (fst (snd (safeForEach pre s)))) = Some err"
  shows "err \<in> set (fst (safeForEach (pre @ st # rest) s))"
  using assms
  by (auto simp add: safeForEach_append split: prod.splits option.splits)

lemma accepted_iff: "accepted P \<longleftrightarrow> ca_errors P = []"
  by (cases "safeForEach P ca_initial") (simp add: accepted_def computeAddresses_def ca_errors_def)

lemma rejected_result: "ca_errors P \<noteq> [] \<Longrightarrow> computeAddresses P = Failure (ca_errors P)"
  by (cases "safeForEach P ca_initial") (simp add: computeAddresses_def ca_errors_def)

lemma stepStatement_occupied:
  assumes "stmt_meta st = Some m" "pointer s = Some p"
    "p + meta_length m \<le> MAX_MEMORY_ADDRESS"
    "a \<in> occupiedMemory s" "p \<le> a" "a < p + meta_length m"
  shows "\<exists>b. fst (stepStatement st s) = Some (OccupiedAddress b)"
proof (cases st)
  case (DataStmt d m')
  with assms(1) have "m' = m" by simp
  with DataStmt layout_occupied [OF assms(2-6), of False "kindOfData d"] show ?thesis
    by (auto split: prod.splits)
next
  case (InstructionStmt n m')
  with assms(1) have "m' = m" by simp
  with InstructionStmt layout_occupied [OF assms(2-6), of True LabelInstruction] show ?thesis
    by (auto split: prod.splits)
qed (use assms(1) in simp_all)

lemma stepStatement_out_of_range:
  assumes "stmt_meta st = Some m" "pointer s = Some p"
    "p + meta_length m > MAX_MEMORY_ADDRESS"
  shows "fst (stepStatement st s) = Some (InstructionOutOfRange (p + meta_length m))"
proof (cases st)
  case (DataStmt d m')
  with assms(1) have "m' = m" by simp
  with DataStmt layout_out_of_range [OF assms(2,3), of False "kindOfData d"] show ?thesis
    by (auto split: prod.splits)
next
  case (InstructionStmt n m')
  with assms(1) have "m' = m" by simp
  with InstructionStmt layout_out_of_range [OF assms(2,3), of True LabelInstruction] show ?thesis
    by (auto split: prod.splits)
qed (use assms(1) in simp_all)

text \<open>
  C6 (as amended). For every program accepted by \<open>computeAddresses\<close> the set of occupied
  addresses is the union of the ranges [start, start + length) of the statements and
  these ranges are pairwise disjoint. A statement that contains an address occupied by
  an earlier statement makes the resolver reject the program: with \<open>occupied-address\<close>
  when its range ends at 3FFEh or below, and with \<open>instruction-out-of-range\<close>, not
  \<open>occupied-address\<close>, when its range reaches beyond the last address of the memory,
  3FFFh. A range that ends exactly at 3FFFh is left out here.
\<close>

theorem C6_occupied_ranges:
  "(accepted P \<longrightarrow>
      occupiedMemory (ca_final P) = (\<Union>x\<in>set (ca_statements P). stmt_range x) \<and>
      (\<forall>i j. i < j \<and> j < length (ca_statements P) \<longrightarrow>
         stmt_range (ca_statements P ! i) \<inter> stmt_range (ca_statements P ! j) = {})) \<and>
   (P = pre @ st # rest \<and> stmt_meta st = Some m \<and> pointer (ca_final pre) = Some p \<and>
    a \<in> occupiedMemory (ca_final pre) \<and> p \<le> a \<and> a < p + meta_length m \<longrightarrow>
      (p + meta_length m \<le> MAX_MEMORY_ADDRESS \<longrightarrow>
         (\<exists>b. OccupiedAddress b \<in> set (ca_errors P)) \<and>
         computeAddresses P = Failure (ca_errors P)) \<and>
      (p + meta_length m > MAX_MEMORY_ADDRESS + 1 \<longrightarrow>
         InstructionOutOfRange (p + meta_length m) \<in> set (ca_errors P) \<and>
         fst (stepStatement st (ca_final pre)) = Some (InstructionOutOfRange (p + meta_length m)) \<and>
         computeAddresses P = Failure (ca_errors P)))"
proof (intro conjI impI)
  assume "accepted P"
  then have "ca_errors P = []" by (simp add: accepted_iff)
  then have run: "safeForEach P ca_initial = ([], ca_final P, ca_statements P)"
    by (cases "safeForEach P ca_initial") (simp add: ca_errors_def ca_final_def ca_statements_def)
  from safeForEach_ok [OF run]
  show "occupiedMemory (ca_final P) = (\<Union>x\<in>set (ca_statements P). stmt_range x)"
    and "\<forall>i j. i < j \<and> j < length (ca_statements P) \<longrightarrow>
         stmt_range (ca_statements P ! i) \<inter> stmt_range (ca_statements P ! j) = {}"
    by (simp_all add: ca_initial_def)
next
  assume h: "P = pre @ st # rest \<and> stmt_meta st = Some m \<and> pointer (ca_final pre) = Some p \<and>
    a \<in> occupiedMemory (ca_final pre) \<and> p \<le> a \<and> a < p + meta_length m"
    and le: "p + meta_length m \<le> MAX_MEMORY_ADDRESS"
  from h le stepStatement_occupied [of st m "ca_final pre" p a] obtain b where
    "fst (stepStatement st (ca_final pre)) = Some (OccupiedAddress b)" by blast
  then have "OccupiedAddress b \<in> set (ca_errors (pre @ st # rest))"
    unfolding ca_errors_def ca_final_def by (rule safeForEach_error_at)
  with h have mem: "OccupiedAddress b \<in> set (ca_errors P)" by simp
  then show "\<exists>b. OccupiedAddress b \<in> set (ca_errors P)" ..
  from mem have "ca_errors P \<noteq> []" by auto
  then show "computeAddresses P = Failure (ca_errors P)" by (rule rejected_result)
next
  assume h: "P = pre @ st # rest \<and> stmt_meta st = Some m \<and> pointer (ca_final pre) = Some p \<and>
    a \<in> occupiedMemory (ca_final pre) \<and> p \<le> a \<and> a < p + meta_length m"
    and gt: "p + meta_length m > MAX_MEMORY_ADDRESS + 1"
  from gt have "p + meta_length m > MAX_MEMORY_ADDRESS" by simp
  with h stepStatement_out_of_range [of st m "ca_final pre" p]
  show e: "fst (stepStatement st (ca_final pre)) = Some (InstructionOutOfRange (p + meta_length m))"
    by blast
  then have "InstructionOutOfRange (p + meta_length m) \<in> set (ca_errors (pre @ st # rest))"
    unfolding ca_errors_def ca_final_def by (rule safeForEach_error_at)
  with h show mem: "InstructionOutOfRange (p + meta_length m) \<in> set (ca_errors P)" by simp
  then have "ca_errors P \<noteq> []" by auto
  then show "computeAddresses P = Failure (ca_errors P)" by (rule rejected_result)
qed

lemma occupyLoop_step:
  "occupyLoop i (numeral f) (numeral p) occ code =
     (if (numeral p :: nat) < numeral f then
        (if numeral p \<in> occ then (Some (OccupiedAddress (numeral p)), numeral p, occ, code)
         else occupyLoop i (numeral f) (numeral p + 1) (insert (numeral p) occ)
                (if i then insert (numeral p) code else code))
      else (None, numeral p, occ, code))"
  by (rule occupyLoop.simps)

lemmas ca_eval = computeAddresses_def ca_errors_def ca_final_def ca_statements_def
  ca_initial_def layout_def recordLabel_def statementDW_def statementZeroary_def oneWord_def
  twoWords_def twoWordsX_def halt_def MAX_MEMORY_ADDRESS_def
  occupyLoop_step accepted_def Let_def

lemmas validate_eval = validateDW_def validateZeroaryInstruction_def DW_0_def DW_1_2_def
  X_DW_1_2_def HLT_def oneWord_def twoWords_def twoWordsX_def halt_def

lemma validated_examples:
  "validateDW DW_0 = Inr oneWord" "validateDW DW_1_2 = Inr twoWords"
  "validateDW X_DW_1_2 = Inr twoWordsX" "validateZeroaryInstruction HLT = Inr halt"
  by (simp_all add: validate_eval)

text \<open>
  C6 (witness). The accepted program \<open>ORG 1000h; X DW 1, 2; ORG 2000h; HLT; END\<close>, the
  program \<open>ORG 1000h; DW 0; ORG 1001h; DW 1, 2; END\<close> with an overlap at 1001h, and the
  program \<open>ORG 3FFCh; DW 0; ORG 3FFDh; DW 1, 2; END\<close> with an overlap at 3FFDh and a
  second directive that reaches 4000h.
\<close>

theorem C6_occupied_ranges_witness:
  "validateDW X_DW_1_2 = Inr twoWordsX \<and> validateZeroaryInstruction HLT = Inr halt \<and>
   validateDW DW_0 = Inr oneWord \<and> validateDW DW_1_2 = Inr twoWords \<and>
   accepted [OriginChange 0x1000, statementDW twoWordsX,
             OriginChange 0x2000, statementZeroary halt, EndStmt] \<and>
   occupiedMemory (ca_final [OriginChange 0x1000, statementDW twoWordsX,
             OriginChange 0x2000, statementZeroary halt, EndStmt]) =
     (\<Union>x\<in>set (ca_statements [OriginChange 0x1000, statementDW twoWordsX,
             OriginChange 0x2000, statementZeroary halt, EndStmt]). stmt_range x) \<and>
   (\<exists>b. OccupiedAddress b \<in> set (ca_errors
      ([OriginChange 0x1000, statementDW oneWord, OriginChange 0x1001] @
       statementDW twoWords # [EndStmt]))) \<and>
   InstructionOutOfRange (0x3FFD + 4) \<in> set (ca_errors
      ([OriginChange 0x3FFC, statementDW oneWord, OriginChange 0x3FFD] @
       statementDW twoWords # [EndStmt]))"
proof -
  let ?P1 = "[OriginChange 0x1000, statementDW twoWordsX,
             OriginChange 0x2000, statementZeroary halt, EndStmt]"
  let ?pre2 = "[OriginChange 0x1000, statementDW oneWord, OriginChange 0x1001]"
  let ?m2 = "\<lparr>meta_label = None, meta_start = 0, meta_length = 4\<rparr>"
  let ?P2 = "?pre2 @ statementDW twoWords # [EndStmt]"
  let ?pre3 = "[OriginChange 0x3FFC, statementDW oneWord, OriginChange 0x3FFD]"
  let ?P3 = "?pre3 @ statementDW twoWords # [EndStmt]"
  have a1: "accepted ?P1"
    by (simp add: ca_eval)
  have m: "stmt_meta (statementDW twoWords) = Some ?m2"
    by (simp add: statementDW_def twoWords_def)
  have p2: "pointer (ca_final ?pre2) = Some 0x1001"
    by (simp add: ca_eval)
  have o2: "0x1001 \<in> occupiedMemory (ca_final ?pre2)"
    by (simp add: ca_eval)
  have h2: "?P2 = ?pre2 @ statementDW twoWords # [EndStmt] \<and>
      stmt_meta (statementDW twoWords) = Some ?m2 \<and>
      pointer (ca_final ?pre2) = Some 0x1001 \<and>
      0x1001 \<in> occupiedMemory (ca_final ?pre2) \<and> (0x1001::nat) \<le> 0x1001 \<and>
      0x1001 < 0x1001 + meta_length ?m2"
    using m p2 o2 by (intro conjI) simp_all
  have le2: "0x1001 + meta_length ?m2 \<le> MAX_MEMORY_ADDRESS"
    by (simp add: MAX_MEMORY_ADDRESS_def)
  have p3: "pointer (ca_final ?pre3) = Some 0x3FFD"
    by (simp add: ca_eval)
  have o3: "0x3FFD \<in> occupiedMemory (ca_final ?pre3)"
    by (simp add: ca_eval)
  have h3: "?P3 = ?pre3 @ statementDW twoWords # [EndStmt] \<and>
      stmt_meta (statementDW twoWords) = Some ?m2 \<and>
      pointer (ca_final ?pre3) = Some 0x3FFD \<and>
      0x3FFD \<in> occupiedMemory (ca_final ?pre3) \<and> (0x3FFD::nat) \<le> 0x3FFD \<and>
      0x3FFD < 0x3FFD + meta_length ?m2"
    using m p3 o3 by (intro conjI) simp_all
  have gt3: "0x3FFD + meta_length ?m2 > MAX_MEMORY_ADDRESS + 1"
    by (simp add: MAX_MEMORY_ADDRESS_def)
  note c1 = C6_occupied_ranges [of ?P1, THEN conjunct1, THEN mp, OF a1, THEN conjunct1]
  note c2 = C6_occupied_ranges [of ?P2 ?pre2 "statementDW twoWords" "[EndStmt]" ?m2
      "0x1001" "0x1001", THEN conjunct2, THEN mp, OF h2, THEN conjunct1, THEN mp, OF le2,
      THEN conjunct1]
  note c3 = C6_occupied_ranges [of ?P3 ?pre3 "statementDW twoWords" "[EndStmt]" ?m2
      "0x3FFD" "0x3FFD", THEN conjunct2, THEN mp, OF h3, THEN conjunct2, THEN mp, OF gt3,
      THEN conjunct1]
  have c3': "InstructionOutOfRange (0x3FFD + 4) \<in> set (ca_errors ?P3)"
    using c3 by simp
  show ?thesis
    by (intro conjI) (rule validated_examples a1 c1 c2 c3')+
qed

text \<open>
  C6 (counterexample to the claim as stated). \<open>ORG 3FFCh; DW 0; ORG 3FFDh; DW 1, 2; END\<close>:
  both directives get a range that contains 3FFDh, the second one reaches 4000h, beyond
  the memory, and the program is rejected with \<open>instruction-out-of-range\<close> only; no
  \<open>occupied-address\<close> error is reported.
\<close>

theorem C6_overlap_counterexample:
  "validateDW DW_0 = Inr oneWord \<and> validateDW DW_1_2 = Inr twoWords \<and>
   computeAddresses [OriginChange 0x3FFC, statementDW oneWord,
                     OriginChange 0x3FFD, statementDW twoWords, EndStmt] =
     Failure [InstructionOutOfRange 0x4001] \<and>
   ca_statements [OriginChange 0x3FFC, statementDW oneWord,
                  OriginChange 0x3FFD, statementDW twoWords, EndStmt] =
     [OriginChange 0x3FFC,
      DataStmt DW \<lparr>meta_label = None, meta_start = 0x3FFC, meta_length = 2\<rparr>,
      OriginChange 0x3FFD,
      DataStmt DW \<lparr>meta_label = None, meta_start = 0x3FFD, meta_length = 4\<rparr>,
      EndStmt] \<and>
   0x3FFD \<in> stmt_range (DataStmt DW \<lparr>meta_label = None, meta_start = 0x3FFC, meta_length = 2\<rparr>) \<and>
   0x3FFD \<in> stmt_range (DataStmt DW \<lparr>meta_label = None, meta_start = 0x3FFD, meta_length = 4\<rparr>)"
  by (simp add: ca_eval validate_eval)

text \<open>No accepted program occupies the last address of the memory, 3FFFh.\<close>

lemma stepStatement_below_top:
  assumes "stepStatement x s = (None, s', x')"
  shows "stmt_range x' \<subseteq> {..<MAX_MEMORY_ADDRESS}"
proof (cases x)
  case (DataStmt d m)
  with assms obtain m' where l: "layout False (kindOfData d) m s = (None, s', m')"
    and x': "x' = DataStmt d m'"
    by (auto split: prod.splits)
  from layout_None [OF l] x' show ?thesis by auto
next
  case (InstructionStmt n m)
  with assms obtain m' where l: "layout True LabelInstruction m s = (None, s', m')"
    and x': "x' = InstructionStmt n m'"
    by (auto split: prod.splits)
  from layout_None [OF l] x' show ?thesis by auto
qed (use assms in auto)

lemma safeForEach_below_top:
  "safeForEach xs s = ([], s', xs') \<Longrightarrow>
     occupiedMemory s' \<subseteq> occupiedMemory s \<union> {..<MAX_MEMORY_ADDRESS}"
proof (induction xs arbitrary: s s' xs')
  case Nil
  then show ?case by simp
next
  case (Cons x xs)
  obtain e s1 x1 where st: "stepStatement x s = (e, s1, x1)"
    by (metis prod_cases3)
  obtain es s2 ys where rest: "safeForEach xs s1 = (es, s2, ys)"
    by (metis prod_cases3)
  from Cons.prems st rest have e: "e = None" and es: "es = []" and s2: "s2 = s'"
    by (auto split: option.splits)
  from stepStatement_None [OF st [unfolded e]] stepStatement_below_top [OF st [unfolded e]]
  have "occupiedMemory s1 \<subseteq> occupiedMemory s \<union> {..<MAX_MEMORY_ADDRESS}"
    by auto
  moreover from Cons.IH [OF rest [unfolded es s2]]
  have "occupiedMemory s' \<subseteq> occupiedMemory s1 \<union> {..<MAX_MEMORY_ADDRESS}" .
  ultimately show ?case by auto
qed

lemma accepted_never_occupies_last_address:
  assumes "accepted P"
  shows "MAX_MEMORY_ADDRESS \<notin> occupiedMemory (ca_final P)"
proof -
  from assms have "ca_errors P = []"
    by (cases "safeForEach P ca_initial") (simp add: accepted_def computeAddresses_def ca_errors_def split: if_splits)
  then have run: "safeForEach P ca_initial = ([], ca_final P, ca_statements P)"
    by (cases "safeForEach P ca_initial") (simp add: ca_errors_def ca_final_def ca_statements_def)
  from safeForEach_below_top [OF run] show ?thesis
    by (auto simp add: ca_initial_def)
qed

text \<open>
  C7 (the code at the inputs of the claim). \<open>ORG 3FFEh; DW 0\<close> is rejected with
  \<open>instruction-out-of-range\<close> like \<open>ORG 3FFFh; DW 0\<close>: the resolver compares the
  address after the last byte with \<open>MAX_MEMORY_ADDRESS\<close>, so the last address a
  statement may occupy is 3FFEh. \<open>ORG 3FFDh; DW 0\<close> is the last word accepted.
\<close>

theorem C7_boundary_code:
  "validateDW DW_0 = Inr oneWord \<and>
   computeAddresses [OriginChange 0x3FFE, statementDW oneWord, EndStmt] =
     Failure [InstructionOutOfRange 0x4000] \<and>
   computeAddresses [OriginChange 0x3FFF, statementDW oneWord, EndStmt] =
     Failure [InstructionOutOfRange 0x4001] \<and>
   computeAddresses [OriginChange 0x3FFD, statementDW oneWord, EndStmt] =
     Success {} Map.empty"
  by (simp add: ca_eval validate_eval)

section \<open>Lengths of unary instructions\<close>

text \<open>
  C8 (as amended). For every validated unary instruction (INC, DEC, NEG, NOT) the
  validator records the length 2 when the operand is a register, 1 when it is [BX],
  and 3 when it is a direct memory address or a data label.
\<close>

theorem C8_unary_length:
  assumes "validateUnaryInstruction ins labels = Inr v"
  shows "\<exists>out. operands ins = [out] \<and> meta_length (vu_meta v) = unaryLength out \<and>
           (case out of
              RegisterOperand r \<Rightarrow> meta_length (vu_meta v) = 2
            | AddressIndirect sz \<Rightarrow> meta_length (vu_meta v) = 1 \<and> sz \<noteq> AutoSize
            | AddressDirect sz e \<Rightarrow> meta_length (vu_meta v) = 3 \<and> sz \<noteq> AutoSize
            | ExpressionOperand e \<Rightarrow>
                meta_length (vu_meta v) = 3 \<and>
                (\<exists>l. e = LabelExpr l False \<and> labels l \<in> {Some LabelDB, Some LabelDW}))"
  using assms
  by (auto simp add: validateUnaryInstruction_def
      split: list.splits Operand.splits option.splits NumberExpression.splits
        LabelKind.splits if_splits)

text \<open>C8 (witness). \<open>INC BYTE PTR [BX]\<close> is validated with length 1.\<close>

theorem C8_unary_length_witness:
  "validateUnaryInstruction
     \<lparr>instruction = INC, operands = [AddressIndirect ByteSize], label = None\<rparr> Map.empty =
     Inr \<lparr>vu_type = INC,
          vu_meta = \<lparr>meta_label = None, meta_start = 0, meta_length = 1\<rparr>,
          vu_opSize = SByte, vu_out = OutMemoryIndirect\<rparr> \<and>
   (\<exists>out. [AddressIndirect ByteSize] = [out] \<and> (1::nat) = unaryLength out)"
proof -
  let ?ins = "\<lparr>instruction = INC, operands = [AddressIndirect ByteSize], label = None\<rparr>"
  let ?v = "\<lparr>vu_type = INC,
          vu_meta = \<lparr>meta_label = None, meta_start = 0, meta_length = 1\<rparr>,
          vu_opSize = SByte, vu_out = OutMemoryIndirect\<rparr>"
  have h: "validateUnaryInstruction ?ins Map.empty = Inr ?v"
    by (simp add: validateUnaryInstruction_def)
  from C8_unary_length [OF h]
  have "\<exists>out. [AddressIndirect ByteSize] = [out] \<and> (1::nat) = unaryLength out"
    by auto
  with h show ?thesis by simp
qed

text \<open>
  C8 (counterexample to the claim as stated). \<open>INC AX\<close> is validated with length 2,
  not 1.
\<close>

theorem C8_register_counterexample:
  "map_sum id (\<lambda>v. meta_length (vu_meta v))
     (validateUnaryInstruction
        \<lparr>instruction = INC, operands = [RegisterOperand RAX], label = None\<rparr> Map.empty) =
   Inr 2"
  by (simp add: validateUnaryInstruction_def)

section \<open>PIC: priority resolution, dispatch and the in-service register\<close>

lemma bit_of_iff: "bit_of v i \<longleftrightarrow> bit v i"
  by (simp add: bit_of_def push_bit_of_1 and_exp_eq_0_iff_not_bit)

lemma updateLoop_none:
  "(\<forall>k. i \<le> k \<and> k < 8 \<longrightarrow> \<not> (bit irr k \<and> \<not> bit imr k)) \<Longrightarrow>
     updateLoop reserved enc imr irr s i = (None, s)"
proof (induction reserved enc imr irr s i rule: updateLoop.induct)
  case (1 reserved enc imr irr s i)
  show ?case
  proof (cases "i < 8")
    case False
    then show ?thesis by (simp add: updateLoop.simps [of _ _ _ _ _ i])
  next
    case True
    with "1.prems" have here: "bit imr i \<or> \<not> bit irr i" by auto
    from "1.prems" have rest: "\<forall>k. i + 1 \<le> k \<and> k < 8 \<longrightarrow> \<not> (bit irr k \<and> \<not> bit imr k)"
      by simp
    show ?thesis
    proof (cases "bit imr i")
      case m: True
      with True "1.IH"(1) [OF True _ rest] show ?thesis
        by (simp add: updateLoop.simps [of _ _ _ _ _ i] bit_of_iff)
    next
      case m: False
      with here have r: "\<not> bit irr i" by simp
      with True m "1.IH"(2) [OF True _ _ rest] show ?thesis
        by (simp add: updateLoop.simps [of _ _ _ _ _ i] bit_of_iff)
    qed
  qed
qed

lemma updateLoop_first:
  "i \<le> n \<Longrightarrow> n < 8 \<Longrightarrow> bit irr n \<Longrightarrow> \<not> bit imr n \<Longrightarrow>
   (\<forall>k. i \<le> k \<and> k < n \<longrightarrow> \<not> (bit irr k \<and> \<not> bit imr k)) \<Longrightarrow>
     updateLoop reserved enc imr irr s i = runInterrupt reserved enc s n"
proof (induction reserved enc imr irr s i rule: updateLoop.induct)
  case (1 reserved enc imr irr s i)
  from "1.prems" have lt: "i < 8" by simp
  show ?case
  proof (cases "i = n")
    case True
    with lt "1.prems" show ?thesis
      by (simp add: updateLoop.simps [of _ _ _ _ _ n] bit_of_iff)
  next
    case False
    with "1.prems" have le: "i + 1 \<le> n" by simp
    from False "1.prems" have here: "bit imr i \<or> \<not> bit irr i" by auto
    from "1.prems" have rest: "\<forall>k. i + 1 \<le> k \<and> k < n \<longrightarrow> \<not> (bit irr k \<and> \<not> bit imr k)"
      by simp
    show ?thesis
    proof (cases "bit imr i")
      case m: True
      with lt "1.IH"(1) [OF lt _ le "1.prems"(2,3,4) rest] show ?thesis
        by (simp add: updateLoop.simps [of _ _ _ _ _ i] bit_of_iff)
    next
      case m: False
      with here have r: "\<not> bit irr i" by simp
      with lt m "1.IH"(2) [OF lt _ _ le "1.prems"(2,3,4) rest] show ?thesis
        by (simp add: updateLoop.simps [of _ _ _ _ _ i] bit_of_iff)
    qed
  qed
qed

lemma setMemoryWord_frame:
  "setMemoryWord s a v = Inr s' \<Longrightarrow>
     pic s' = pic s \<and> interruptsEnabled s' = interruptsEnabled s \<and> sim_IP s' = sim_IP s \<and>
     sim_SP s' = sim_SP s \<and> sim_flags s' = sim_flags s"
  by (auto simp add: setMemoryWord_def split: if_splits prod.splits)

lemma pushToStack_frame:
  "pushToStack s v = Inr s' \<Longrightarrow>
     pic s' = pic s \<and> interruptsEnabled s' = interruptsEnabled s \<and> sim_IP s' = sim_IP s \<and>
     sim_flags s' = sim_flags s \<and> sim_SP s' = sim_SP s - 2"
  by (auto simp add: pushToStack_def Let_def split: if_splits sum.splits
      dest: setMemoryWord_frame)

lemma dispatch_frame:
  "pic (snd (dispatch enc ID s)) = pic s \<and>
   interruptsEnabled (snd (dispatch enc ID s)) = interruptsEnabled s"
  by (auto simp add: dispatch_def split: sum.splits dest!: pushToStack_frame)

lemma update_in_service:
  "ISR (pic s) \<noteq> 0 \<Longrightarrow>
     update r e s = (if EOI (pic s) = 0x20 then (None, s\<lparr>pic := (pic s)\<lparr>EOI := 0, ISR := 0\<rparr>\<rparr>)
                     else (None, s))"
  by (simp add: update_def)

lemma update_disabled:
  "ISR (pic s) = 0 \<Longrightarrow> \<not> interruptsEnabled s \<Longrightarrow> update r e s = (None, s)"
  by (simp add: update_def)

lemma update_idle:
  assumes "ISR (pic s) = 0" "interruptsEnabled s"
    "\<forall>k<8. \<not> (bit (IRR (pic s)) k \<and> \<not> bit (IMR (pic s)) k)"
  shows "update r e s = (None, s)"
  using assms updateLoop_none [of 0 "IRR (pic s)" "IMR (pic s)" r e s]
  by (simp add: update_def)

lemma update_selects:
  assumes "ISR (pic s) = 0" "interruptsEnabled s" "n < 8"
    "bit (IRR (pic s)) n" "\<not> bit (IMR (pic s)) n"
    "\<forall>k<n. \<not> (bit (IRR (pic s)) k \<and> \<not> bit (IMR (pic s)) k)"
  shows "update r e s = runInterrupt r e s n"
  using assms updateLoop_first [of 0 n "IRR (pic s)" "IMR (pic s)" r e s]
  by (simp add: update_def)

lemma xor_clears_bit:
  fixes w :: "8 word"
  assumes "bit w n"
  shows "bit (w XOR 2 ^ n) k \<longleftrightarrow> bit w k \<and> k \<noteq> n"
  using assms by (auto simp add: bit_simps dest: bit_imp_le_length)

lemma bit_line:
  "n < 8 \<Longrightarrow> bit (2 ^ n :: 8 word) k \<longleftrightarrow> k = n"
  by (auto simp add: bit_simps)

lemma runInterrupt_selectLine:
  "runInterrupt r e s n =
     (if r (INTn (pic s) n) then (Some (ReservedInterrupt (INTn (pic s) n)), s)
      else dispatch e (INTn (pic s) n) (selectLine n s))"
  by (simp add: runInterrupt_def selectLine_def Let_def)

text \<open>
  C3 (as amended). Every call to \<open>update\<close>: if ISR is not 0 and EOI = 20h, it clears
  ISR and EOI and dispatches nothing; otherwise, if ISR is not 0 or IF = 0, it dispatches
  nothing and leaves the state unchanged; otherwise it selects the lowest line n with
  IRR_n = 1 and IMR_n = 0 and does nothing if there is none. If INTn holds a reserved
  identifier it fails with \<open>reserved-interrupt\<close> and leaves the state unchanged;
  otherwise it clears IRR_n, sets ISR to line n alone, resets EOI and dispatches the
  identifier held in INTn.
\<close>

theorem C3_update_cases:
  "(ISR (pic s) \<noteq> 0 \<and> EOI (pic s) = 0x20 \<longrightarrow>
      update r e s = (None, s\<lparr>pic := (pic s)\<lparr>EOI := 0, ISR := 0\<rparr>\<rparr>)) \<and>
   (ISR (pic s) \<noteq> 0 \<and> EOI (pic s) \<noteq> 0x20 \<longrightarrow> update r e s = (None, s)) \<and>
   (ISR (pic s) = 0 \<and> \<not> interruptsEnabled s \<longrightarrow> update r e s = (None, s)) \<and>
   (ISR (pic s) = 0 \<and> interruptsEnabled s \<and>
    (\<forall>k<8. \<not> (bit (IRR (pic s)) k \<and> \<not> bit (IMR (pic s)) k)) \<longrightarrow>
      update r e s = (None, s)) \<and>
   (ISR (pic s) = 0 \<and> interruptsEnabled s \<and> n < 8 \<and>
    bit (IRR (pic s)) n \<and> \<not> bit (IMR (pic s)) n \<and>
    (\<forall>k<n. \<not> (bit (IRR (pic s)) k \<and> \<not> bit (IMR (pic s)) k)) \<longrightarrow>
      (r (INTn (pic s) n) \<longrightarrow>
         update r e s = (Some (ReservedInterrupt (INTn (pic s) n)), s)) \<and>
      (\<not> r (INTn (pic s) n) \<longrightarrow>
         update r e s = dispatch e (INTn (pic s) n) (selectLine n s) \<and>
         EOI (pic (snd (update r e s))) = 0 \<and>
         (\<forall>k. bit (ISR (pic (snd (update r e s)))) k \<longleftrightarrow> k = n) \<and>
         (\<forall>k. bit (IRR (pic (snd (update r e s)))) k \<longleftrightarrow> bit (IRR (pic s)) k \<and> k \<noteq> n) \<and>
         IMR (pic (snd (update r e s))) = IMR (pic s) \<and>
         INTn (pic (snd (update r e s))) = INTn (pic s)))"
proof (intro conjI impI)
  assume "ISR (pic s) \<noteq> 0 \<and> EOI (pic s) = 0x20"
  then show "update r e s = (None, s\<lparr>pic := (pic s)\<lparr>EOI := 0, ISR := 0\<rparr>\<rparr>)"
    by (simp add: update_in_service)
next
  assume "ISR (pic s) \<noteq> 0 \<and> EOI (pic s) \<noteq> 0x20"
  then show "update r e s = (None, s)"
    by (simp add: update_in_service)
next
  assume "ISR (pic s) = 0 \<and> \<not> interruptsEnabled s"
  then show "update r e s = (None, s)"
    by (simp add: update_disabled)
next
  assume "ISR (pic s) = 0 \<and> interruptsEnabled s \<and>
    (\<forall>k<8. \<not> (bit (IRR (pic s)) k \<and> \<not> bit (IMR (pic s)) k))"
  then show "update r e s = (None, s)"
    by (simp add: update_idle)
next
  assume h: "ISR (pic s) = 0 \<and> interruptsEnabled s \<and> n < 8 \<and>
    bit (IRR (pic s)) n \<and> \<not> bit (IMR (pic s)) n \<and>
    (\<forall>k<n. \<not> (bit (IRR (pic s)) k \<and> \<not> bit (IMR (pic s)) k))"
  then have sel: "update r e s = runInterrupt r e s n"
    by (intro update_selects) simp_all
  {
    assume "r (INTn (pic s) n)"
    with sel show "update r e s = (Some (ReservedInterrupt (INTn (pic s) n)), s)"
      by (simp add: runInterrupt_selectLine)
  }
  assume nr: "\<not> r (INTn (pic s) n)"
  with sel show u: "update r e s = dispatch e (INTn (pic s) n) (selectLine n s)"
    by (simp add: runInterrupt_selectLine)
  have p: "pic (snd (update r e s)) = pic (selectLine n s)"
    by (simp add: u dispatch_frame)
  show "EOI (pic (snd (update r e s))) = 0"
    by (simp add: p selectLine_def)
  from h show "\<forall>k. bit (ISR (pic (snd (update r e s)))) k \<longleftrightarrow> k = n"
    by (simp add: p selectLine_def bit_line)
  from h show "\<forall>k. bit (IRR (pic (snd (update r e s)))) k \<longleftrightarrow> bit (IRR (pic s)) k \<and> k \<noteq> n"
    by (simp add: p selectLine_def xor_clears_bit)
  show "IMR (pic (snd (update r e s))) = IMR (pic s)"
    by (simp add: p selectLine_def)
  show "INTn (pic (snd (update r e s))) = INTn (pic s)"
    by (simp add: p selectLine_def)
qed

lemma pendingLine0_facts:
  "ISR (pic pendingLine0) = 0 \<and> interruptsEnabled pendingLine0 \<and> (0::nat) < 8 \<and>
   bit (IRR (pic pendingLine0)) 0 \<and> \<not> bit (IMR (pic pendingLine0)) 0 \<and>
   (\<forall>k<0. \<not> (bit (IRR (pic pendingLine0)) k \<and> \<not> bit (IMR (pic pendingLine0)) k))"
  by (simp add: pendingLine0_def initialPIC_def)

lemma reservedLine0_facts:
  "ISR (pic reservedLine0) = 0 \<and> interruptsEnabled reservedLine0 \<and> (0::nat) < 8 \<and>
   bit (IRR (pic reservedLine0)) 0 \<and> \<not> bit (IMR (pic reservedLine0)) 0 \<and>
   (\<forall>k<0. \<not> (bit (IRR (pic reservedLine0)) k \<and> \<not> bit (IMR (pic reservedLine0)) k))"
  by (simp add: reservedLine0_def pendingLine0_def initialPIC_def)

text \<open>
  C3 (witness). Line 0 pending and unmasked with IF set: with INT0 = 10h the interrupt
  is dispatched; with the reserved identifier 0 in INT0 the update fails. With line 0 in
  service, an update after 20h was written to EOI clears ISR and EOI, and an update
  before changes nothing; nor does an update with IF clear or with no request pending.
\<close>

theorem C3_update_cases_witness:
  "ISR (pic pendingLine0) = 0 \<and> interruptsEnabled pendingLine0 \<and>
   bit (IRR (pic pendingLine0)) 0 \<and> \<not> bit (IMR (pic pendingLine0)) 0 \<and>
   \<not> reservedID (INTn (pic pendingLine0) 0) \<and>
   update reservedID encodeFlags pendingLine0 =
     dispatch encodeFlags (INTn (pic pendingLine0) 0) (selectLine 0 pendingLine0) \<and>
   reservedID (INTn (pic reservedLine0) 0) \<and>
   update reservedID encodeFlags reservedLine0 =
     (Some (ReservedInterrupt (INTn (pic reservedLine0) 0)), reservedLine0) \<and>
   ISR (pic endOfInterrupt) \<noteq> 0 \<and> EOI (pic endOfInterrupt) = 0x20 \<and>
   update reservedID encodeFlags endOfInterrupt =
     (None, endOfInterrupt\<lparr>pic := (pic endOfInterrupt)\<lparr>EOI := 0, ISR := 0\<rparr>\<rparr>) \<and>
   ISR (pic inService) \<noteq> 0 \<and> EOI (pic inService) \<noteq> 0x20 \<and>
   update reservedID encodeFlags inService = (None, inService) \<and>
   ISR (pic loaded) = 0 \<and> \<not> interruptsEnabled loaded \<and>
   update reservedID encodeFlags loaded = (None, loaded) \<and>
   ISR (pic idle) = 0 \<and> interruptsEnabled idle \<and> IRR (pic idle) = 0 \<and>
   update reservedID encodeFlags idle = (None, idle)"
proof -
  have nr: "\<not> reservedID (INTn (pic pendingLine0) 0)"
    by (simp add: pendingLine0_def initialPIC_def reservedID_def)
  have rr: "reservedID (INTn (pic reservedLine0) 0)"
    by (simp add: reservedLine0_def reservedID_def)
  have e1: "ISR (pic endOfInterrupt) \<noteq> 0" and e2: "EOI (pic endOfInterrupt) = 0x20"
    by (simp_all add: endOfInterrupt_def inService_def)
  have i1: "ISR (pic inService) \<noteq> 0" and i2: "EOI (pic inService) \<noteq> 0x20"
    by (simp_all add: inService_def pendingLine0_def initialPIC_def)
  have l1: "ISR (pic loaded) = 0" and l2: "\<not> interruptsEnabled loaded"
    by (simp_all add: loaded_def initialPIC_def)
  have d1: "ISR (pic idle) = 0" and d2: "interruptsEnabled idle" and d3: "IRR (pic idle) = 0"
    by (simp_all add: idle_def pendingLine0_def initialPIC_def)
  have d4: "\<forall>k<8. \<not> (bit (IRR (pic idle)) k \<and> \<not> bit (IMR (pic idle)) k)"
    by (simp add: d3)
  note t1 = C3_update_cases [of pendingLine0 reservedID encodeFlags 0,
      THEN conjunct2, THEN conjunct2, THEN conjunct2, THEN conjunct2, THEN mp,
      OF pendingLine0_facts, THEN conjunct2, THEN mp, OF nr, THEN conjunct1]
  note t2 = C3_update_cases [of reservedLine0 reservedID encodeFlags 0,
      THEN conjunct2, THEN conjunct2, THEN conjunct2, THEN conjunct2, THEN mp,
      OF reservedLine0_facts, THEN conjunct1, THEN mp, OF rr]
  note t3 = C3_update_cases [of endOfInterrupt reservedID encodeFlags 0,
      THEN conjunct1, THEN mp, OF conjI [OF e1 e2]]
  note t4 = C3_update_cases [of inService reservedID encodeFlags 0,
      THEN conjunct2, THEN conjunct1, THEN mp, OF conjI [OF i1 i2]]
  note t5 = C3_update_cases [of loaded reservedID encodeFlags 0,
      THEN conjunct2, THEN conjunct2, THEN conjunct1, THEN mp, OF conjI [OF l1 l2]]
  note t6 = C3_update_cases [of idle reservedID encodeFlags 0,
      THEN conjunct2, THEN conjunct2, THEN conjunct2, THEN conjunct1, THEN mp,
      OF conjI [OF d1 conjI [OF d2 d4]]]
  have p: "ISR (pic pendingLine0) = 0" "interruptsEnabled pendingLine0"
    "bit (IRR (pic pendingLine0)) 0" "\<not> bit (IMR (pic pendingLine0)) 0"
    using pendingLine0_facts by simp_all
  show ?thesis
    by (intro conjI) (rule p nr t1 rr t2 e1 e2 t3 i1 i2 t4 l1 l2 t5 d1 d2 d3 t6)+
qed

text \<open>
  C3 (counterexample to the claim as stated). With ISR = 0, IF = 1, line 0 requested and
  unmasked and the reserved identifier 0 in INT0, \<open>update\<close> fails with
  \<open>reserved-interrupt\<close>: IRR_0 stays set and ISR stays 0.
\<close>

theorem C3_reserved_counterexample:
  "ISR (pic reservedLine0) = 0 \<and> interruptsEnabled reservedLine0 \<and>
   bit (IRR (pic reservedLine0)) 0 \<and> \<not> bit (IMR (pic reservedLine0)) 0 \<and>
   fst (update reservedID encodeFlags reservedLine0) = Some (ReservedInterrupt 0) \<and>
   bit (IRR (pic (snd (update reservedID encodeFlags reservedLine0)))) 0 \<and>
   ISR (pic (snd (update reservedID encodeFlags reservedLine0))) = 0"
proof -
  have "update reservedID encodeFlags reservedLine0 = runInterrupt reservedID encodeFlags reservedLine0 0"
    using reservedLine0_facts by (intro update_selects) simp_all
  also have "\<dots> = (Some (ReservedInterrupt 0), reservedLine0)"
    by (simp add: runInterrupt_def reservedLine0_def reservedID_def)
  finally show ?thesis
    using reservedLine0_facts by simp
qed

lemma oneLine_card: "oneLine w \<Longrightarrow> card {n. bit w n} \<le> 1"
proof (unfold oneLine_def, erule disjE)
  assume "w = 0"
  then show ?thesis by simp
next
  assume "\<exists>i<8. w = 2 ^ i"
  then obtain i where i: "i < 8" "w = 2 ^ i" by blast
  then have "{n. bit w n} = {i}"
    by (auto simp add: bit_line)
  then show ?thesis by simp
qed

lemma runInterrupt_ISR:
  "n < 8 \<Longrightarrow> ISR (pic (snd (runInterrupt r e s n))) = ISR (pic s) \<or>
     ISR (pic (snd (runInterrupt r e s n))) = 2 ^ n"
  by (simp add: runInterrupt_selectLine dispatch_frame selectLine_def)

lemma updateLoop_ISR:
  "oneLine (ISR (pic s)) \<Longrightarrow> oneLine (ISR (pic (snd (updateLoop r e imr irr s i))))"
proof (induction r e imr irr s i rule: updateLoop.induct)
  case (1 r e imr irr s i)
  show ?case
  proof (cases "i < 8")
    case False
    with "1.prems" show ?thesis
      by (simp add: updateLoop.simps [of _ _ _ _ _ i])
  next
    case True
    consider (masked) "bit_of imr i" | (idle) "\<not> bit_of imr i" "\<not> bit_of irr i"
      | (run) "\<not> bit_of imr i" "bit_of irr i"
      by blast
    then show ?thesis
    proof cases
      case masked
      with True "1.IH"(1) [OF True masked "1.prems"] show ?thesis
        by (simp add: updateLoop.simps [of _ _ _ _ _ i])
    next
      case idle
      with True "1.IH"(2) [OF True idle "1.prems"] show ?thesis
        by (simp add: updateLoop.simps [of _ _ _ _ _ i])
    next
      case run
      from runInterrupt_ISR [OF True, of r e s] "1.prems" True
      have "oneLine (ISR (pic (snd (runInterrupt r e s i))))"
        by (auto simp add: oneLine_def)
      with True run show ?thesis
        by (simp add: updateLoop.simps [of _ _ _ _ _ i])
    qed
  qed
qed

lemma update_ISR:
  assumes "oneLine (ISR (pic s))"
  shows "oneLine (ISR (pic (snd (update r e s))))"
proof (cases "ISR (pic s) \<noteq> 0")
  case True
  with assms show ?thesis
    by (simp add: update_in_service) (simp add: oneLine_def)
next
  case False
  show ?thesis
  proof (cases "interruptsEnabled s")
    case off: False
    with False assms show ?thesis
      by (simp add: update_disabled)
  next
    case on: True
    with False have "update r e s = updateLoop r e (IMR (pic s)) (IRR (pic s)) s 0"
      by (simp add: update_def)
    with assms show ?thesis
      by (simp add: updateLoop_ISR)
  qed
qed

lemma applyOp_ISR: "oneLine (ISR (pic s)) \<Longrightarrow> oneLine (ISR (pic (applyOp r e x s)))"
  by (cases x) (simp_all add: update_ISR request_def cancel_def Let_def)

lemma applyOps_ISR: "oneLine (ISR (pic s)) \<Longrightarrow> oneLine (ISR (pic (applyOps r e xs s)))"
  by (induction xs arbitrary: s) (simp_all add: applyOp_ISR)

text \<open>
  C4. After every sequence of requests, cancellations, updates and writes to EOI (and also
  writes to IMR and to the vector registers, STI and CLI), starting from the initial state
  of the PIC, ISR has at most one bit set.
\<close>

theorem C4_isr_at_most_one_bit:
  assumes "pic s = initialPIC"
  shows "card {n. bit (ISR (pic (applyOps r e ops s))) n} \<le> 1"
proof -
  from assms have "oneLine (ISR (pic s))"
    by (simp add: initialPIC_def oneLine_def)
  then have "oneLine (ISR (pic (applyOps r e ops s)))"
    by (rule applyOps_ISR)
  then show ?thesis by (rule oneLine_card)
qed

lemma update_pendingLine0:
  "update reservedID encodeFlags pendingLine0 =
     dispatch encodeFlags 0x10 (selectLine 0 pendingLine0)"
proof -
  have "update reservedID encodeFlags pendingLine0 =
          runInterrupt reservedID encodeFlags pendingLine0 0"
    using pendingLine0_facts by (intro update_selects) simp_all
  then show ?thesis
    by (simp add: runInterrupt_selectLine) (simp add: pendingLine0_def initialPIC_def reservedID_def)
qed

lemma toInt32_small: "0 \<le> x \<Longrightarrow> x < 2 ^ 31 \<Longrightarrow> toInt32 x = x"
  by (simp add: toInt32_def)

lemma dispatch_pendingLine0:
  "fst (dispatch encodeFlags 0x10 (selectLine 0 pendingLine0)) = None \<and>
   sim_IP (snd (dispatch encodeFlags 0x10 (selectLine 0 pendingLine0))) = 0x3000 \<and>
   sim_SP (snd (dispatch encodeFlags 0x10 (selectLine 0 pendingLine0))) = 0x3FFC"
  by (simp add: dispatch_def selectLine_def pendingLine0_def getMemoryWord_def
      pushToStack_def setMemoryWord_def MIN_MEMORY_ADDRESS_def MAX_MEMORY_ADDRESS_def
      INTERRUPT_VECTOR_ADDRESS_SIZE_def joinLowHigh_def splitLowHigh_def js_or_def
      js_shl_def js_and_def js_sar_def toInt32_small encodeFlags_def Let_def)

text \<open>
  C4 (witness). From the loaded state: unmask line 0, set IF, request line 0 and update,
  which puts line 0 in service; then request line 1, write 20h to EOI and update.
\<close>

theorem C4_isr_at_most_one_bit_witness:
  "pic loaded = initialPIC \<and>
   card {n. bit (ISR (pic (applyOps reservedID encodeFlags
            [WriteIMR 0xFE, SetIF True, Request 0, Update, Request 1, WriteEOI 0x20, Update]
            loaded))) n} \<le> 1 \<and>
   ISR (pic (applyOps reservedID encodeFlags
            [WriteIMR 0xFE, SetIF True, Request 0, Update] loaded)) = 1"
proof -
  have h: "pic loaded = initialPIC"
    by (simp add: loaded_def)
  have pre: "applyOps reservedID encodeFlags [WriteIMR 0xFE, SetIF True, Request 0] loaded =
      pendingLine0"
    by (simp add: loaded_def pendingLine0_def initialPIC_def request_def)
  have "applyOps reservedID encodeFlags [WriteIMR 0xFE, SetIF True, Request 0, Update] loaded =
      snd (update reservedID encodeFlags pendingLine0)"
    using pre by simp
  then have isr: "ISR (pic (applyOps reservedID encodeFlags
            [WriteIMR 0xFE, SetIF True, Request 0, Update] loaded)) = 1"
    by (simp add: update_pendingLine0 dispatch_frame selectLine_def)
  note c = C4_isr_at_most_one_bit [OF h, of reservedID encodeFlags
      "[WriteIMR 0xFE, SetIF True, Request 0, Update, Request 1, WriteEOI 0x20, Update]"]
  show ?thesis
    by (intro conjI) (rule h c isr)+
qed

lemma pushToStack_memory:
  "pushToStack s v = Inr s' \<Longrightarrow>
     sim_memory s' = (sim_memory s)(sim_SP s - 2 := fst (splitLowHigh v),
                                    sim_SP s - 1 := snd (splitLowHigh v))"
  by (auto simp add: pushToStack_def setMemoryWord_def Let_def
      split: if_splits sum.splits prod.splits)

lemma getMemoryWord_selectLine: "getMemoryWord (selectLine n s) a = getMemoryWord s a"
  by (simp add: getMemoryWord_def selectLine_def)

text \<open>
  What \<open>update\<close> does when it dispatches a hardware interrupt (a pending unmasked line
  with a vector identifier that is not reserved, the vector read and both pushes
  succeeding): it reads the word at address ID * 4, pushes the encoded flags, pushes IP
  and loads IP with that word. No step of it writes \<open>interruptsEnabled\<close>.
\<close>

lemma update_dispatch_steps:
  assumes "ISR (pic s) = 0" "interruptsEnabled s" "n < 8"
    "bit (IRR (pic s)) n" "\<not> bit (IMR (pic s)) n"
    "\<forall>k<n. \<not> (bit (IRR (pic s)) k \<and> \<not> bit (IMR (pic s)) k)"
    "\<not> r (INTn (pic s) n)"
    "fst (update r e s) = None"
  shows "\<exists>vector s2 s3.
           getMemoryWord s (uint (INTn (pic s) n) * 4) = Inr vector \<and>
           pushToStack (selectLine n s) (e (selectLine n s)) = Inr s2 \<and>
           pushToStack s2 (sim_IP s) = Inr s3 \<and>
           snd (update r e s) = s3\<lparr>sim_IP := vector\<rparr> \<and>
           sim_IP (snd (update r e s)) = vector \<and>
           sim_SP (snd (update r e s)) = sim_SP s - 4 \<and>
           sim_memory (snd (update r e s)) =
             (sim_memory s)
               (sim_SP s - 2 := fst (splitLowHigh (e (selectLine n s))),
                sim_SP s - 1 := snd (splitLowHigh (e (selectLine n s))),
                sim_SP s - 4 := fst (splitLowHigh (sim_IP s)),
                sim_SP s - 3 := snd (splitLowHigh (sim_IP s))) \<and>
           interruptsEnabled (snd (update r e s)) = interruptsEnabled s \<and>
           interruptsEnabled (snd (update r e s))"
proof -
  let ?s1 = "selectLine n s"
  let ?ID = "INTn (pic s) n"
  from assms(1-7) have u: "update r e s = dispatch e ?ID ?s1"
    by (simp add: update_selects runInterrupt_selectLine)
  with assms(8) have ok: "fst (dispatch e ?ID ?s1) = None" by simp
  then obtain vector where v: "getMemoryWord ?s1 (uint ?ID * 4) = Inr vector"
    by (auto simp add: dispatch_def INTERRUPT_VECTOR_ADDRESS_SIZE_def split: sum.splits)
  with ok obtain s2 where s2: "pushToStack ?s1 (e ?s1) = Inr s2"
    by (auto simp add: dispatch_def INTERRUPT_VECTOR_ADDRESS_SIZE_def split: sum.splits)
  with ok v obtain s3 where s3: "pushToStack s2 (sim_IP s2) = Inr s3"
    by (auto simp add: dispatch_def INTERRUPT_VECTOR_ADDRESS_SIZE_def split: sum.splits)
  from v s2 s3 have d: "dispatch e ?ID ?s1 = (None, s3\<lparr>sim_IP := vector\<rparr>)"
    by (simp add: dispatch_def INTERRUPT_VECTOR_ADDRESS_SIZE_def)
  from pushToStack_frame [OF s2] have f2: "sim_IP s2 = sim_IP s" "sim_SP s2 = sim_SP s - 2"
    "interruptsEnabled s2 = interruptsEnabled s"
    by (simp_all add: selectLine_def)
  from pushToStack_frame [OF s3] f2 have f3: "sim_SP s3 = sim_SP s - 4"
    "interruptsEnabled s3 = interruptsEnabled s"
    by simp_all
  from pushToStack_memory [OF s2] have m2: "sim_memory s2 =
      (sim_memory s)(sim_SP s - 2 := fst (splitLowHigh (e ?s1)),
                     sim_SP s - 1 := snd (splitLowHigh (e ?s1)))"
    by (simp add: selectLine_def)
  from pushToStack_memory [OF s3] m2 f2 have m3: "sim_memory s3 =
      (sim_memory s)
        (sim_SP s - 2 := fst (splitLowHigh (e ?s1)),
         sim_SP s - 1 := snd (splitLowHigh (e ?s1)),
         sim_SP s - 4 := fst (splitLowHigh (sim_IP s)),
         sim_SP s - 3 := snd (splitLowHigh (sim_IP s)))"
    by simp
  from v have v': "getMemoryWord s (uint ?ID * 4) = Inr vector"
    by (simp add: getMemoryWord_selectLine)
  from s3 f2 have s3': "pushToStack s2 (sim_IP s) = Inr s3" by simp
  from u d f3 m3 assms(2) have
    "snd (update r e s) = s3\<lparr>sim_IP := vector\<rparr> \<and>
     sim_IP (snd (update r e s)) = vector \<and>
     sim_SP (snd (update r e s)) = sim_SP s - 4 \<and>
     sim_memory (snd (update r e s)) =
       (sim_memory s)
         (sim_SP s - 2 := fst (splitLowHigh (e ?s1)),
          sim_SP s - 1 := snd (splitLowHigh (e ?s1)),
          sim_SP s - 4 := fst (splitLowHigh (sim_IP s)),
          sim_SP s - 3 := snd (splitLowHigh (sim_IP s))) \<and>
     interruptsEnabled (snd (update r e s)) = interruptsEnabled s \<and>
     interruptsEnabled (snd (update r e s))"
    by simp
  with v' s2 s3' show ?thesis by blast
qed


lemma pushToStack_succeeds:
  "2 \<le> sim_SP s \<Longrightarrow> sim_SP s \<le> int MAX_MEMORY_ADDRESS + 1 \<Longrightarrow> \<exists>s'. pushToStack s v = Inr s'"
  by (cases "splitLowHigh v")
     (simp add: pushToStack_def setMemoryWord_def MIN_MEMORY_ADDRESS_def Let_def)

lemma dispatch_succeeds:
  assumes "4 \<le> sim_SP s" "sim_SP s \<le> int MAX_MEMORY_ADDRESS + 1"
  shows "fst (dispatch e ID s) = None"
    and "sim_IP (snd (dispatch e ID s)) =
           joinLowHigh (sim_memory s (uint ID * 4)) (sim_memory s (uint ID * 4 + 1))"
    and "sim_SP (snd (dispatch e ID s)) = sim_SP s - 4"
    and "a < sim_SP s - 4 \<Longrightarrow> sim_memory (snd (dispatch e ID s)) a = sim_memory s a"
proof -
  have "uint ID < 256" using uint_bounded [of ID] by simp
  then have v: "getMemoryWord s (uint ID * INTERRUPT_VECTOR_ADDRESS_SIZE) =
      Inr (joinLowHigh (sim_memory s (uint ID * 4)) (sim_memory s (uint ID * 4 + 1)))"
    by (simp add: getMemoryWord_def INTERRUPT_VECTOR_ADDRESS_SIZE_def MIN_MEMORY_ADDRESS_def
        MAX_MEMORY_ADDRESS_def)
  from assms pushToStack_succeeds [of s "e s"] obtain s2 where
    s2: "pushToStack s (e s) = Inr s2"
    by auto
  from pushToStack_frame [OF s2] have f2: "sim_SP s2 = sim_SP s - 2" "sim_IP s2 = sim_IP s"
    by simp_all
  from assms f2 pushToStack_succeeds [of s2 "sim_IP s2"] obtain s3 where
    s3: "pushToStack s2 (sim_IP s2) = Inr s3"
    by auto
  from pushToStack_frame [OF s3] f2 have f3: "sim_SP s3 = sim_SP s - 4" by simp
  from v s2 s3 have d: "dispatch e ID s =
      (None, s3\<lparr>sim_IP := joinLowHigh (sim_memory s (uint ID * 4)) (sim_memory s (uint ID * 4 + 1))\<rparr>)"
    by (simp add: dispatch_def)
  show "fst (dispatch e ID s) = None" by (simp add: d)
  show "sim_IP (snd (dispatch e ID s)) =
      joinLowHigh (sim_memory s (uint ID * 4)) (sim_memory s (uint ID * 4 + 1))"
    by (simp add: d)
  show "sim_SP (snd (dispatch e ID s)) = sim_SP s - 4" by (simp add: d f3)
  show "sim_memory (snd (dispatch e ID s)) a = sim_memory s a" if "a < sim_SP s - 4"
    using that pushToStack_memory [OF s2] pushToStack_memory [OF s3] f2
    by (simp add: d)
qed

lemma selectLine_frame:
  "sim_SP (selectLine n s) = sim_SP s" "sim_memory (selectLine n s) = sim_memory s"
  "sim_IP (selectLine n s) = sim_IP s" "interruptsEnabled (selectLine n s) = interruptsEnabled s"
  "ISR (pic (selectLine n s)) = push_bit n 1"
  by (simp_all add: selectLine_def)

lemma pendingLines01_facts:
  "ISR (pic pendingLines01) = 0 \<and> interruptsEnabled pendingLines01 \<and> (0::nat) < 8 \<and>
   bit (IRR (pic pendingLines01)) 0 \<and> \<not> bit (IMR (pic pendingLines01)) 0 \<and>
   (\<forall>k<0. \<not> (bit (IRR (pic pendingLines01)) k \<and> \<not> bit (IMR (pic pendingLines01)) k))"
  by (simp add: pendingLines01_def pendingLine0_def initialPIC_def)

lemma joinLowHigh_vector: "joinLowHigh 0 0x31 = 0x3100"
  by (simp add: joinLowHigh_def js_or_def js_shl_def toInt32_small)

text \<open>
  Lines 0 and 1 pending: line 0 is dispatched; once its handler has written 20h to EOI,
  and before it returns, the next two updates end the interrupt and dispatch line 1 on
  top of it, because the interrupt flag is still set.
\<close>

lemma nested_dispatch:
  "sim_IP (applyOps reservedID encodeFlags [Update, WriteEOI 0x20, Update, Update] pendingLines01) = 0x3100 \<and>
   sim_SP (applyOps reservedID encodeFlags [Update, WriteEOI 0x20, Update, Update] pendingLines01) = 0x3FF8 \<and>
   ISR (pic (applyOps reservedID encodeFlags [Update, WriteEOI 0x20, Update, Update] pendingLines01)) = 2"
proof -
  let ?r = reservedID and ?e = encodeFlags
  let ?s0 = "selectLine 0 pendingLines01"
  let ?s1 = "snd (dispatch ?e 0x10 ?s0)"
  let ?s2 = "?s1\<lparr>pic := (pic ?s1)\<lparr>EOI := 0x20\<rparr>\<rparr>"
  let ?s3 = "?s2\<lparr>pic := (pic ?s2)\<lparr>EOI := 0, ISR := 0\<rparr>\<rparr>"
  let ?s4 = "selectLine 1 ?s3"
  have "update ?r ?e pendingLines01 = runInterrupt ?r ?e pendingLines01 0"
    using pendingLines01_facts by (intro update_selects) simp_all
  then have u1: "update ?r ?e pendingLines01 = dispatch ?e 0x10 ?s0"
    by (simp add: runInterrupt_selectLine)
       (simp add: pendingLines01_def pendingLine0_def initialPIC_def reservedID_def)
  have sp0: "4 \<le> sim_SP ?s0" "sim_SP ?s0 \<le> int MAX_MEMORY_ADDRESS + 1"
    by (simp_all add: selectLine_def pendingLines01_def pendingLine0_def MAX_MEMORY_ADDRESS_def)
  have p1: "pic ?s1 = pic ?s0" "interruptsEnabled ?s1"
    by (simp_all add: dispatch_frame selectLine_def pendingLines01_def pendingLine0_def)
  have sp1: "sim_SP ?s1 = 0x3FFC"
    by (simp add: dispatch_succeeds(3) [OF sp0])
       (simp add: selectLine_def pendingLines01_def pendingLine0_def)
  have below: "0x44 < sim_SP ?s0 - 4" "0x45 < sim_SP ?s0 - 4"
    by (simp_all add: selectLine_def pendingLines01_def pendingLine0_def)
  have m0: "sim_memory ?s0 0x44 = 0" "sim_memory ?s0 0x45 = 0x31"
    by (simp_all add: selectLine_def pendingLines01_def pendingLine0_def)
  have m1: "sim_memory ?s1 0x44 = 0" "sim_memory ?s1 0x45 = 0x31"
    using dispatch_succeeds(4) [OF sp0 below(1)] dispatch_succeeds(4) [OF sp0 below(2)] m0
    by simp_all
  have pic0: "pic ?s0 = \<lparr>EOI = 0, IMR = 0xFC, IRR = 2, ISR = 1, INTn = (\<lambda>n. 0x10 + of_nat n)\<rparr>"
    by (simp add: selectLine_def pendingLines01_def pendingLine0_def initialPIC_def)
  have u2: "update ?r ?e ?s2 = (None, ?s3)"
    by (simp add: update_in_service p1 pic0)
  have f3: "ISR (pic ?s3) = 0" "interruptsEnabled ?s3" "(1::nat) < 8"
    "bit (IRR (pic ?s3)) 1" "\<not> bit (IMR (pic ?s3)) 1"
    "\<forall>k<1. \<not> (bit (IRR (pic ?s3)) k \<and> \<not> bit (IMR (pic ?s3)) k)"
    using p1(2) by (simp_all add: p1(1) pic0)
  have "update ?r ?e ?s3 = runInterrupt ?r ?e ?s3 1"
    using f3 by (rule update_selects)
  then have u3: "update ?r ?e ?s3 = dispatch ?e 0x11 ?s4"
    by (simp add: runInterrupt_selectLine p1(1) pic0 reservedID_def)
  have sp4': "sim_SP ?s4 = 0x3FFC"
    by (simp add: selectLine_frame sp1)
  have sp4: "4 \<le> sim_SP ?s4" "sim_SP ?s4 \<le> int MAX_MEMORY_ADDRESS + 1"
    unfolding sp4' by (simp_all add: MAX_MEMORY_ADDRESS_def)
  have m4: "sim_memory ?s4 0x44 = 0" "sim_memory ?s4 0x45 = 0x31"
    by (simp_all add: selectLine_frame m1)
  have run: "applyOps ?r ?e [Update, WriteEOI 0x20, Update, Update] pendingLines01 =
      snd (dispatch ?e 0x11 ?s4)"
    by (simp only: applyOps.simps applyOp.simps u1 u2 u3 snd_conv)
  have v: "uint (0x11 :: 8 word) * 4 = 0x44" "(0x44 :: int) + 1 = 0x45"
    by simp_all
  have ip: "sim_IP (snd (dispatch ?e 0x11 ?s4)) = 0x3100"
    unfolding dispatch_succeeds(2) [OF sp4] v m4 by (rule joinLowHigh_vector)
  have sp: "sim_SP (snd (dispatch ?e 0x11 ?s4)) = 0x3FF8"
    unfolding dispatch_succeeds(3) [OF sp4] sp4' by simp
  have isr: "ISR (pic (snd (dispatch ?e 0x11 ?s4))) = 2"
    unfolding dispatch_frame [THEN conjunct1] selectLine_frame by simp
  show ?thesis
    unfolding run by (intro conjI) (rule ip sp isr)+
qed

text \<open>
  C2 (the code at the input of the claim). Line 0 pending and unmasked, INT0 = 10h,
  vector 3000h, IF = 1: the interrupt is dispatched (FLAGS and IP are pushed, SP goes
  from 4000h to 3FFCh, IP becomes 3000h) and IF is still 1 afterwards; the claim has it
  cleared. With line 1 pending as well, line 1 is dispatched inside the handler of line 0
  as soon as that handler has signalled the end of interrupt.
\<close>

theorem C2_dispatch_code:
  "ISR (pic pendingLine0) = 0 \<and> interruptsEnabled pendingLine0 \<and>
   bit (IRR (pic pendingLine0)) 0 \<and> \<not> bit (IMR (pic pendingLine0)) 0 \<and>
   \<not> reservedID (INTn (pic pendingLine0) 0) \<and>
   fst (update reservedID encodeFlags pendingLine0) = None \<and>
   sim_IP (snd (update reservedID encodeFlags pendingLine0)) = 0x3000 \<and>
   sim_SP (snd (update reservedID encodeFlags pendingLine0)) = 0x3FFC \<and>
   interruptsEnabled (snd (update reservedID encodeFlags pendingLine0)) \<and>
   sim_IP (applyOps reservedID encodeFlags [Update, WriteEOI 0x20, Update, Update] pendingLines01) = 0x3100 \<and>
   sim_SP (applyOps reservedID encodeFlags [Update, WriteEOI 0x20, Update, Update] pendingLines01) = 0x3FF8 \<and>
   ISR (pic (applyOps reservedID encodeFlags [Update, WriteEOI 0x20, Update, Update] pendingLines01)) = 2"
proof -
  have nr: "\<not> reservedID (INTn (pic pendingLine0) 0)"
    by (simp add: pendingLine0_def initialPIC_def reservedID_def)
  have "interruptsEnabled (snd (update reservedID encodeFlags pendingLine0))"
    using pendingLine0_facts
    by (simp add: update_pendingLine0 dispatch_frame selectLine_def)
  with pendingLine0_facts nr dispatch_pendingLine0 nested_dispatch show ?thesis
    by (simp add: update_pendingLine0)
qed

section \<open>INT 6 and INT 7: the saved flags\<close>

lemma byte_mask: "(0xFF :: 16 word) = mask 8"
  by (simp add: mask_eq_exp_minus_1)

lemma withHigh_split: "withHigh (lowByte w) (highByte w) = w"
  unfolding withHigh_def lowByte_def highByte_def byte_mask
  by (rule bit_word_eqI) (auto simp add: bit_simps)

lemma bit_getFLAGS:
  "bit (getFLAGS s) 0 = flag_CF (cpu_flags s)"
  "bit (getFLAGS s) 6 = flag_ZF (cpu_flags s)"
  "bit (getFLAGS s) 7 = flag_SF (cpu_flags s)"
  "bit (getFLAGS s) 9 = flag_IF (cpu_flags s)"
  "bit (getFLAGS s) 11 = flag_OF (cpu_flags s)"
  by (simp_all add: getFLAGS_def flagBit_def bit_simps)

lemma setFLAGS_getFLAGS: "cpu_flags (setFLAGS (getFLAGS s) t) = cpu_flags s"
  by (simp add: setFLAGS_def bit_getFLAGS)

lemma memory_write_Some:
  "memory_write s a v = Some s' \<Longrightarrow> a < RAM_SIZE \<and> s' = s\<lparr>ram := (ram s)(a := v)\<rparr>"
  by (auto simp add: memory_write_def split: if_splits)

lemma cpu_pushToStack_Some:
  assumes "cpu_pushToStack s v = Some s'"
  shows "2 \<le> unat (cpu_SP s) \<and> unat (cpu_SP s) \<le> RAM_SIZE \<and>
         s' = s\<lparr>ram := (ram s)(unat (cpu_SP s) - 2 := lowByte v,
                                 unat (cpu_SP s) - 1 := highByte v),
                cpu_SP := cpu_SP s - 2\<rparr>"
proof -
  from assms have le: "2 \<le> unat (cpu_SP s)"
    by (auto simp add: cpu_pushToStack_def split: if_splits)
  then have eq: "unat (cpu_SP s) - 2 + 1 = unat (cpu_SP s) - 1" by simp
  from assms le obtain s1 s2 where
    w1: "memory_write s (unat (cpu_SP s) - 2) (lowByte v) = Some s1" and
    w2: "memory_write s1 (unat (cpu_SP s) - 2 + 1) (highByte v) = Some s2" and
    s': "s' = s2\<lparr>cpu_SP := cpu_SP s - 2\<rparr>"
    by (auto simp add: cpu_pushToStack_def Let_def split: if_splits option.splits)
  from memory_write_Some [OF w1] memory_write_Some [OF w2] s' le eq show ?thesis
    by auto
qed

lemma consoleOutput_append: "consoleOutput (xs @ ys) = consoleOutput xs @ consoleOutput ys"
  by (induction xs rule: consoleOutput.induct) simp_all

lemma int7Loop_output:
  "int7Loop start len i s = (evs, True) \<Longrightarrow>
     consoleOutput evs = map (ram s) [start + i ..< start + len]"
proof (induction start len i s arbitrary: evs rule: int7Loop.induct)
  case (1 start len i s)
  show ?case
  proof (cases "i < len")
    case False
    with "1.prems" show ?thesis
      by (simp add: int7Loop.simps [of start len i])
  next
    case True
    with "1.prems" obtain char evs' where
      r: "memory_read s (start + i) = Some char" and
      l: "int7Loop start len (i + 1) s = (evs', True)" and
      e: "evs = [MarSet ''ri'', ConsoleWrite char,
                 RegisterUpdate ''ri'' (of_nat (start + i + 1)),
                 RegisterUpdateByte ''id.l'' (of_nat (len - i - 1))] @ evs'"
      by (auto simp add: int7Loop.simps [of start len i] split: option.splits prod.splits)
    from r have c: "char = ram s (start + i)"
      by (auto simp add: memory_read_def split: if_splits)
    from "1.IH" [OF True r l] have "consoleOutput evs' = map (ram s) [start + (i + 1) ..< start + len]" .
    moreover from True have "[start + i ..< start + len] = (start + i) # [start + (i + 1) ..< start + len]"
      by (simp add: upt_conv_Cons)
    ultimately show ?thesis by (simp add: e c)
  qed
qed

lemma retrieveState_after_push:
  assumes "2 \<le> unat (cpu_SP s)" "unat (cpu_SP s) \<le> RAM_SIZE"
    "cpu_SP t = cpu_SP s - 2"
    "ram t (unat (cpu_SP s) - 2) = lowByte v" "ram t (unat (cpu_SP s) - 1) = highByte v"
  shows "cpu_popFromStack t = Some (v, t\<lparr>cpu_SP := cpu_SP s\<rparr>)"
proof -
  from assms(1) have "2 \<le> cpu_SP s"
    by (simp add: word_le_nat_alt)
  then have u: "unat (cpu_SP s - 2) = unat (cpu_SP s) - 2"
    by (simp add: unat_sub)
  from assms(1) have eq: "Suc (unat (cpu_SP s) - 2) = unat (cpu_SP s) - 1" by simp
  from assms(1,2) have lt: "unat (cpu_SP s) - 2 < RAM_SIZE" "unat (cpu_SP s) - 1 < RAM_SIZE"
    by simp_all
  show ?thesis
    using assms(3,4,5) lt
    by (simp add: cpu_popFromStack_def memory_read_def u eq Let_def withHigh_split)
qed

lemma retrieveState_Some:
  "cpu_popFromStack t = Some (v, t') \<Longrightarrow>
     retrieveState evs t =
       \<lparr>ex_events = evs @ [RegisterCopy ''id'' ''FLAGS''], ex_result = Inr True,
        ex_state = setFLAGS v t'\<rparr>"
  by (simp add: retrieveState_def)

lemma retrieveState_True:
  "ex_result (retrieveState evs t) = Inr True \<Longrightarrow> \<exists>v t'. cpu_popFromStack t = Some (v, t')"
  by (auto simp add: retrieveState_def split: option.splits)

lemma consume_twice:
  "consumeInstruction (consumeInstruction s) = s\<lparr>cpu_IP := cpu_IP s + 2\<rparr>"
  by (simp add: consumeInstruction_def)

text \<open>
  C5 (as amended). For every execution of INT 7, and every execution of INT 6 whose
  target address BX is not one of the two stack bytes (SP - 2 and SP - 1) that hold the
  saved FLAGS, that completes without a stack or memory error, the instruction goes
  through these steps. It pushes FLAGS: the push succeeds, SP goes down by 2 and the
  word on top of the stack is the value of FLAGS before the instruction. It clears IF:
  the update of FLAGS that it reports has bit 9 clear, and IF is clear in the state in
  which the routine has run (INT 6 has stored the character read at [BX]; INT 7 has
  written to the console the AL bytes from [BX] on and has left the state alone). It pops
  FLAGS: the pop succeeds on that state, returns the value of FLAGS before the
  instruction, and the final state is the popped state with this value assigned to FLAGS.
  Hence the flags (IF included) and SP after the instruction equal those before it, and IP
  has only advanced over the two bytes of the instruction, so the vector table is not used.
\<close>

theorem C5_flags_restored:
  assumes "number = 6 \<or> number = 7"
    and "execute_INT number input s = E"
    and "ex_result E = Inr True"
    and "number = 6 \<longrightarrow> unat (cpu_BX s) \<notin> {unat (cpu_SP s) - 2, unat (cpu_SP s) - 1}"
  shows "\<exists>s1 s3 s4.
     cpu_pushToStack (consumeInstruction (consumeInstruction s)) (getFLAGS s) = Some s1 \<and>
     cpu_SP s1 = cpu_SP s - 2 \<and>
     withHigh (ram s1 (unat (cpu_SP s1))) (ram s1 (unat (cpu_SP s1) + 1)) = getFLAGS s \<and>
     RegisterUpdate ''FLAGS'' (getFLAGS (setFlagIF False s1)) \<in> set (ex_events E) \<and>
     \<not> bit (getFLAGS (setFlagIF False s1)) 9 \<and>
     (number = 6 \<longrightarrow>
        (\<exists>c. input = Some c \<and>
             memory_write (setFlagIF False s1) (unat (cpu_BX s)) c = Some s3)) \<and>
     (number = 7 \<longrightarrow>
        s3 = setFlagIF False s1 \<and>
        consoleOutput (ex_events E) =
          map (ram s1) [unat (cpu_BX s) ..< unat (cpu_BX s) + unat (lowByte (cpu_AX s))]) \<and>
     \<not> flag_IF (cpu_flags s3) \<and>
     cpu_popFromStack s3 = Some (getFLAGS s, s4) \<and>
     ex_state E = setFLAGS (getFLAGS s) s4 \<and>
     cpu_flags (ex_state E) = cpu_flags s \<and> getFLAGS (ex_state E) = getFLAGS s \<and>
     cpu_SP (ex_state E) = cpu_SP s \<and> cpu_IP (ex_state E) = cpu_IP s + 2 \<and>
     (number = 6 \<longrightarrow> (\<exists>c. input = Some c \<and> ram (ex_state E) (unat (cpu_BX s)) = c))"
proof -
  let ?s0 = "s\<lparr>cpu_IP := cpu_IP s + 2\<rparr>"
  let ?F = "getFLAGS s"
  let ?sp = "unat (cpu_SP s)"
  have F0: "getFLAGS ?s0 = ?F" by (simp add: getFLAGS_def)
  from assms(1) have n: "number \<noteq> 0" "number \<noteq> 3" by auto
  from assms(1,2,3) n obtain s1 where push: "cpu_pushToStack ?s0 ?F = Some s1"
    by (auto simp add: execute_INT_def consume_twice F0 Let_def split: option.splits)
  from cpu_pushToStack_Some [OF push] have
    sp: "2 \<le> ?sp" "?sp \<le> RAM_SIZE" and
    s1: "s1 = ?s0\<lparr>ram := (ram s)(?sp - 2 := lowByte ?F, ?sp - 1 := highByte ?F),
                  cpu_SP := cpu_SP s - 2\<rparr>"
    by simp_all
  let ?s2 = "setFlagIF False s1"
  have ne: "?sp - 2 \<noteq> ?sp - 1" using sp by simp
  from sp(1) have "2 \<le> cpu_SP s" by (simp add: word_le_nat_alt)
  then have u: "unat (cpu_SP s - 2) = ?sp - 2" by (simp add: unat_sub)
  from sp(1) have eq: "Suc (?sp - 2) = ?sp - 1" by simp
  have s2: "cpu_SP ?s2 = cpu_SP s - 2" "ram ?s2 (?sp - 2) = lowByte ?F"
    "ram ?s2 (?sp - 1) = highByte ?F" "cpu_BX ?s2 = cpu_BX s" "cpu_IP ?s2 = cpu_IP s + 2"
    "cpu_AX ?s2 = cpu_AX s" "ram ?s2 = ram s1"
    using ne by (simp_all add: s1 setFlagIF_def)
  have top: "cpu_SP s1 = cpu_SP s - 2"
    "withHigh (ram s1 (unat (cpu_SP s1))) (ram s1 (unat (cpu_SP s1) + 1)) = ?F"
    using ne by (simp_all add: s1 u eq withHigh_split)
  have clear: "\<not> bit (getFLAGS ?s2) 9" "\<not> flag_IF (cpu_flags ?s2)"
    by (simp_all add: bit_getFLAGS setFlagIF_def)
  have flags: "cpu_flags (setFLAGS ?F t) = cpu_flags s" for t
    by (rule setFLAGS_getFLAGS)
  have same: "getFLAGS t = getFLAGS s" if "cpu_flags t = cpu_flags s" for t
    using that by (simp add: getFLAGS_def)
  from sp have sp0: "2 \<le> unat (cpu_SP ?s0)" "unat (cpu_SP ?s0) \<le> RAM_SIZE" by simp_all
  from assms(1) show ?thesis
  proof
    assume six: "number = 6"
    with assms(2,3) push obtain c s3 where c: "input = Some c"
      and w: "memory_write ?s2 (unat (cpu_BX s)) c = Some s3"
      and E: "E = retrieveState
                ([CycleStart 6, Decode, CycleUpdateDecoded, CycleUpdateExecute,
                  RegisterCopy ''FLAGS'' ''id'', RegisterUpdate ''FLAGS'' (getFLAGS ?s2),
                  IntRoutine 6, RegisterCopy ''BX'' ''ri'', ConsoleRead,
                  RegisterUpdate ''id'' (withHigh c 0), MarSet ''ri'', MbrSet ''id.l'']) s3"
      by (auto simp add: execute_INT_def consume_twice F0 Let_def s2(4)
          split: option.splits)
    from memory_write_Some [OF w] have s3: "s3 = ?s2\<lparr>ram := (ram ?s2)(unat (cpu_BX s) := c)\<rparr>"
      by simp
    from six assms(4) have bx: "unat (cpu_BX s) \<noteq> ?sp - 2" "unat (cpu_BX s) \<noteq> ?sp - 1"
      by simp_all
    have t: "cpu_SP s3 = cpu_SP ?s0 - 2" "ram s3 (unat (cpu_SP ?s0) - 2) = lowByte ?F"
      "ram s3 (unat (cpu_SP ?s0) - 1) = highByte ?F"
      using s2 bx by (simp_all add: s3)
    let ?s4 = "s3\<lparr>cpu_SP := cpu_SP s\<rparr>"
    from retrieveState_after_push [OF sp0 t]
    have pop: "cpu_popFromStack s3 = Some (?F, ?s4)" by simp
    note E' = E [unfolded retrieveState_Some [OF pop]]
    have ev: "RegisterUpdate ''FLAGS'' (getFLAGS ?s2) \<in> set (ex_events E)"
      by (simp add: E')
    have st: "ex_state E = setFLAGS ?F ?s4" by (simp add: E')
    have if3: "\<not> flag_IF (cpu_flags s3)" using clear(2) by (simp add: s3)
    have f: "cpu_flags (ex_state E) = cpu_flags s" by (simp add: st flags)
    have rest: "cpu_SP (ex_state E) = cpu_SP s" "cpu_IP (ex_state E) = cpu_IP s + 2"
      "ram (ex_state E) (unat (cpu_BX s)) = c"
      using s2(5) by (simp_all add: st s3 setFLAGS_def)
    from six c have r6: "number = 6 \<longrightarrow> (\<exists>c. input = Some c \<and> ram (ex_state E) (unat (cpu_BX s)) = c)"
      using rest(3) by simp
    from six c w have w6: "number = 6 \<longrightarrow>
        (\<exists>c. input = Some c \<and> memory_write ?s2 (unat (cpu_BX s)) c = Some s3)"
      by simp
    from six have w7: "number = 7 \<longrightarrow> s3 = ?s2 \<and> consoleOutput (ex_events E) =
          map (ram s1) [unat (cpu_BX s) ..< unat (cpu_BX s) + unat (lowByte (cpu_AX s))]"
      by simp
    show ?thesis
      apply (rule exI [of _ s1], rule exI [of _ s3], rule exI [of _ ?s4])
      apply (simp only: consume_twice)
      apply (intro conjI)
      apply (rule push top ev clear w6 w7 if3 pop st f same [OF f] rest r6)+
      done
  next
    assume seven: "number = 7"
    then have n6: "number \<noteq> 6" by simp
    obtain evs completed where
      l: "int7Loop (unat (cpu_BX s)) (unat (lowByte (cpu_AX s))) 0 ?s2 = (evs, completed)"
      by (cases "int7Loop (unat (cpu_BX s)) (unat (lowByte (cpu_AX s))) 0 ?s2") auto
    let ?e3 = "[CycleStart 7, Decode, CycleUpdateDecoded, CycleUpdateExecute,
                RegisterCopy ''FLAGS'' ''id'', RegisterUpdate ''FLAGS'' (getFLAGS ?s2),
                IntRoutine 7, RegisterCopy ''BX'' ''ri'', RegisterCopy ''AL'' ''id.l'']"
    from assms(2,3) seven push l have comp: "completed"
      and E: "E = retrieveState (?e3 @ evs) ?s2"
      by (auto simp add: execute_INT_def consume_twice F0 Let_def s2(4) s2(6)
          split: option.splits if_splits)
    have t: "cpu_SP ?s2 = cpu_SP ?s0 - 2" "ram ?s2 (unat (cpu_SP ?s0) - 2) = lowByte ?F"
      "ram ?s2 (unat (cpu_SP ?s0) - 1) = highByte ?F"
      using s2 by simp_all
    let ?s4 = "?s2\<lparr>cpu_SP := cpu_SP s\<rparr>"
    from retrieveState_after_push [OF sp0 t]
    have pop: "cpu_popFromStack ?s2 = Some (?F, ?s4)" by simp
    note E' = E [unfolded retrieveState_Some [OF pop]]
    have ev: "RegisterUpdate ''FLAGS'' (getFLAGS ?s2) \<in> set (ex_events E)"
      by (simp add: E')
    from int7Loop_output [OF l [unfolded comp [THEN eqTrueI]]]
    have out: "consoleOutput evs =
        map (ram s1) [unat (cpu_BX s) ..< unat (cpu_BX s) + unat (lowByte (cpu_AX s))]"
      by (simp add: s2(7))
    have co: "consoleOutput (ex_events E) =
        map (ram s1) [unat (cpu_BX s) ..< unat (cpu_BX s) + unat (lowByte (cpu_AX s))]"
      by (simp add: E' consoleOutput_append out)
    have st: "ex_state E = setFLAGS ?F ?s4" by (simp add: E')
    have f: "cpu_flags (ex_state E) = cpu_flags s" by (simp add: st flags)
    have rest: "cpu_SP (ex_state E) = cpu_SP s" "cpu_IP (ex_state E) = cpu_IP s + 2"
      using s2(5) by (simp_all add: st setFLAGS_def)
    from n6 have r6: "number = 6 \<longrightarrow> (\<exists>c. input = Some c \<and> ram (ex_state E) (unat (cpu_BX s)) = c)"
      by simp
    from n6 have w6: "number = 6 \<longrightarrow>
        (\<exists>c. input = Some c \<and> memory_write ?s2 (unat (cpu_BX s)) c = Some ?s2)"
      by simp
    from co have w7: "number = 7 \<longrightarrow> ?s2 = ?s2 \<and> consoleOutput (ex_events E) =
          map (ram s1) [unat (cpu_BX s) ..< unat (cpu_BX s) + unat (lowByte (cpu_AX s))]"
      by simp
    show ?thesis
      apply (rule exI [of _ s1], rule exI [of _ ?s2], rule exI [of _ ?s4])
      apply (simp only: consume_twice)
      apply (intro conjI)
      apply (rule push top ev clear w6 w7 pop st f same [OF f] rest r6)+
      done
  qed
qed

lemmas int_eval = execute_INT_def consumeInstruction_def cpu_pushToStack_def
  memory_write_def memory_read_def RAM_SIZE_def getFLAGS_def flagBit_def setFlagIF_def
  retrieveState_def cpu_popFromStack_def setFLAGS_def lowByte_def highByte_def
  withHigh_def Let_def

lemma int7Loop_step:
  "int7Loop start (numeral len) i s =
     (if i < numeral len then
        (case memory_read s (start + i) of
           None \<Rightarrow> ([MarSet ''ri''], False)
         | Some char \<Rightarrow>
             (case int7Loop start (numeral len) (i + 1) s of
                (evs, completed) \<Rightarrow>
                  ([MarSet ''ri'', ConsoleWrite char,
                    RegisterUpdate ''ri'' (of_nat (start + i + 1)),
                    RegisterUpdateByte ''id.l'' (of_nat (numeral len - i - 1))] @ evs, completed)))
      else ([], True))"
  by (rule int7Loop.simps)

text \<open>
  C5 (counterexample to the claim as stated). INT 6 with SP = 4000h and BX = 3FFEh, the
  consumer answering \<open>A\<close> (41h): the character overwrites the low byte of the saved
  FLAGS, the instruction completes, and CF and ZF are set afterwards although they were
  clear before.
\<close>

theorem C5_aliasing_counterexample:
  "ex_result (execute_INT 6 (Some 0x41) aliased) = Inr True \<and>
   cpu_flags (ex_state (execute_INT 6 (Some 0x41) aliased)) =
     \<lparr>flag_CF = True, flag_ZF = True, flag_SF = False, flag_IF = True, flag_OF = False\<rparr> \<and>
   cpu_flags aliased =
     \<lparr>flag_CF = False, flag_ZF = False, flag_SF = False, flag_IF = True, flag_OF = False\<rparr>"
  by (simp add: int_eval aliased_def)

lemma greeting_6:
  "ex_result (execute_INT 6 (Some 0x41) greeting) = Inr True"
  by (simp add: int_eval greeting_def aliased_def)

lemma greeting_7:
  "ex_result (execute_INT 7 None greeting) = Inr True"
  "consoleOutput (ex_events (execute_INT 7 None greeting)) = [0x48, 0x69]"
  by (simp_all add: int_eval int7Loop_step greeting_def aliased_def)

text \<open>
  A read that fails part-way: INT 7 with BX = 3FFFh, AL = 2 and SP = 3000h writes the
  character at 3FFFh to the console and then stops the CPU.
\<close>

lemma int7_partial_output:
  "ex_result (execute_INT 7 None (greeting\<lparr>cpu_BX := 0x3FFF, cpu_SP := 0x3000, ram := (\<lambda>a. 0x21)\<rparr>)) = Inr False"
  "consoleOutput (ex_events (execute_INT 7 None (greeting\<lparr>cpu_BX := 0x3FFF, cpu_SP := 0x3000, ram := (\<lambda>a. 0x21)\<rparr>))) = [0x21]"
  by (simp_all add: int_eval int7Loop_step greeting_def aliased_def)

text \<open>C5 (witness). INT 6 and INT 7 with BX = 1000h and an empty stack.\<close>

theorem C5_flags_restored_witness:
  "ex_result (execute_INT 6 (Some 0x41) greeting) = Inr True \<and>
   unat (cpu_BX greeting) \<notin> {unat (cpu_SP greeting) - 2, unat (cpu_SP greeting) - 1} \<and>
   cpu_flags (ex_state (execute_INT 6 (Some 0x41) greeting)) = cpu_flags greeting \<and>
   cpu_SP (ex_state (execute_INT 6 (Some 0x41) greeting)) = cpu_SP greeting \<and>
   ram (ex_state (execute_INT 6 (Some 0x41) greeting)) (unat (cpu_BX greeting)) = 0x41 \<and>
   ex_result (execute_INT 7 None greeting) = Inr True \<and>
   cpu_flags (ex_state (execute_INT 7 None greeting)) = cpu_flags greeting \<and>
   cpu_SP (ex_state (execute_INT 7 None greeting)) = cpu_SP greeting \<and>
   consoleOutput (ex_events (execute_INT 7 None greeting)) = [0x48, 0x69]"
proof -
  have n6: "(6::8 word) = 6 \<or> (6::8 word) = 7" by simp
  have n7: "(7::8 word) = 6 \<or> (7::8 word) = 7" by simp
  note h6 = greeting_6
  note h7 = greeting_7(1)
  have bx: "unat (cpu_BX greeting) \<notin> {unat (cpu_SP greeting) - 2, unat (cpu_SP greeting) - 1}"
    by (simp add: greeting_def aliased_def)
  have a6: "(6::8 word) = 6 \<longrightarrow>
      unat (cpu_BX greeting) \<notin> {unat (cpu_SP greeting) - 2, unat (cpu_SP greeting) - 1}"
    using bx by simp
  have a7: "(7::8 word) = 6 \<longrightarrow>
      unat (cpu_BX greeting) \<notin> {unat (cpu_SP greeting) - 2, unat (cpu_SP greeting) - 1}"
    by simp
  from C5_flags_restored [OF n6 refl h6 a6] have
    c6: "cpu_flags (ex_state (execute_INT 6 (Some 0x41) greeting)) = cpu_flags greeting" and
    p6: "cpu_SP (ex_state (execute_INT 6 (Some 0x41) greeting)) = cpu_SP greeting" and
    r6: "ram (ex_state (execute_INT 6 (Some 0x41) greeting)) (unat (cpu_BX greeting)) = 0x41"
    by auto
  from C5_flags_restored [OF n7 refl h7 a7] have
    c7: "cpu_flags (ex_state (execute_INT 7 None greeting)) = cpu_flags greeting" and
    p7: "cpu_SP (ex_state (execute_INT 7 None greeting)) = cpu_SP greeting"
    by auto
  show ?thesis
    by (intro conjI) (rule h6 bx c6 p6 r6 h7 c7 p7 greeting_7(2))+
qed

section \<open>Parser: a label on a line of its own\<close>

lemma skipEOL_append:
  "\<forall>t \<in> set eols. tok_type t = EOL \<Longrightarrow>
     skipEOL (eols @ rest) =
       (case skipEOL rest of Inl e \<Rightarrow> Inl e | Inr n \<Rightarrow> Inr (n + length eols))"
  by (induction eols) (auto split: sum.splits)

lemma parseLabel_own_line:
  assumes "tok_type l = IDENTIFIER" "tok_type c = COLON" "\<forall>t \<in> set eols. tok_type t = EOL"
  shows "parseLabel (l # c # eols @ rest) statements =
           (case parseLabel (l # c # rest) statements of
              Inl e \<Rightarrow> Inl e
            | Inr (lab, k) \<Rightarrow> Inr (lab, k + length eols))"
  using assms
  by (simp add: parseLabel_def Let_def skipEOL_append split: sum.splits)

lemma parseLabel_consumed:
  assumes "tok_type l = IDENTIFIER" "tok_type c = COLON"
    "parseLabel (l # c # rest) statements = Inr (lab, k)"
  shows "2 \<le> k \<and> lab = Some (toUpperCase (lexeme l))"
  using assms
  by (auto simp add: parseLabel_def Let_def split: sum.splits if_splits)

lemma parseLoop_label_branch:
  assumes "tok_type l = IDENTIFIER"
  shows "parseLoop (l # ts) statements =
           (case parseLabel (l # ts) statements of
              Inl e \<Rightarrow> Inl e
            | Inr (lab, k) \<Rightarrow>
                (case labeledStatement lab (drop k (l # ts)) of
                   Inl e \<Rightarrow> Inl e
                 | Inr (statement, j) \<Rightarrow>
                     parseLoop (drop (k + j) (l # ts)) (statements @ [statement])))"
  using assms by simp

lemma parseLoop_own_line:
  assumes "tok_type l = IDENTIFIER" "tok_type c = COLON" "\<forall>t \<in> set eols. tok_type t = EOL"
  shows "parseLoop (l # c # eols @ rest) statements = parseLoop (l # c # rest) statements"
proof (cases "parseLabel (l # c # rest) statements")
  case (Inl e)
  with assms show ?thesis
    by (simp only: parseLoop_label_branch parseLabel_own_line) simp
next
  case (Inr p)
  then obtain lab k where p: "parseLabel (l # c # rest) statements = Inr (lab, k)"
    by (cases p) simp
  from parseLabel_consumed [OF assms(1,2) p] obtain k' where k: "k = k' + 2"
    by (metis add.commute le_Suc_ex)
  have d1: "drop (k + length eols + j) (l # c # eols @ rest) = drop (k' + j) rest" for j
    by (simp add: k)
  have d2: "drop (k + j) (l # c # rest) = drop (k' + j) rest" for j
    by (simp add: k)
  show ?thesis
    using d1 [of 0] d2 [of 0] d1 d2
    by (simp only: parseLoop_label_branch [OF assms(1)] parseLabel_own_line [OF assms] p
        sum.case prod.case add.assoc add_0_right)
qed

lemma skipEOL_not_EOL: "tok_type t \<noteq> EOL \<Longrightarrow> skipEOL (t # r) = Inr 0"
  by simp

lemma labeledStatement_label:
  "labeledStatement lab ts = Inr (statement, j) \<Longrightarrow> statementLabel statement = lab"
  by (auto simp add: labeledStatement_def
      split: list.splits TokenType.splits sum.splits prod.splits if_splits)

lemma labeledStatement_kind:
  "labeledStatement lab ts = Inr (statement, j) \<Longrightarrow>
     \<exists>token r. ts = token # r \<and>
       ((\<exists>d vs p. tok_type token = DATA_DIRECTIVE d \<and> statement = DataStatement d lab vs p) \<or>
        (\<exists>i ops p. tok_type token = INSTRUCTION i \<and> statement = InstructionStatement i lab ops p))"
  by (auto simp add: labeledStatement_def
      split: list.splits TokenType.splits sum.splits prod.splits if_splits)

lemma parseLoop_attaches:
  assumes "tok_type l = IDENTIFIER" "tok_type c = COLON" "\<forall>t \<in> set eols. tok_type t = EOL"
    and nodup: "\<forall>s \<in> set statements. statementLabel s \<noteq> Some (toUpperCase (lexeme l))"
    and st: "labeledStatement (Some (toUpperCase (lexeme l))) rest = Inr (statement, j)"
  shows "parseLoop (l # c # eols @ rest) statements =
           parseLoop (drop j rest) (statements @ [statement])"
proof -
  from labeledStatement_kind [OF st] obtain token r where
    rest: "rest = token # r" and "tok_type token \<noteq> EOL"
    by auto
  then have "skipEOL rest = Inr 0" by simp
  with assms(1,2) nodup have "parseLabel (l # c # rest) statements =
      Inr (Some (toUpperCase (lexeme l)), 2)"
    by (simp add: parseLabel_def Let_def)
  with st have "parseLoop (l # c # rest) statements =
      parseLoop (drop j rest) (statements @ [statement])"
    by (simp only: parseLoop_label_branch [OF assms(1)] sum.case prod.case) simp
  with parseLoop_own_line [OF assms(1,2,3)] show ?thesis by simp
qed

text \<open>
  C10. When the parser, at the start of a statement, reads \<open>label:\<close> followed by end-of-line
  tokens, it goes on exactly as if these tokens were absent, that is as if the label
  were written on the line of what follows; and when a data directive or an instruction
  follows (and the label is not a duplicate), the statement parsed for it carries the
  label, in upper case.
\<close>

theorem C10_label_on_its_own_line:
  assumes "tok_type l = IDENTIFIER" "tok_type c = COLON" "\<forall>t \<in> set eols. tok_type t = EOL"
  shows "parseLoop (l # c # eols @ rest) statements = parseLoop (l # c # rest) statements \<and>
         ((\<forall>s \<in> set statements. statementLabel s \<noteq> Some (toUpperCase (lexeme l))) \<and>
          labeledStatement (Some (toUpperCase (lexeme l))) rest = Inr (statement, j) \<longrightarrow>
            parseLoop (l # c # eols @ rest) statements =
              parseLoop (drop j rest) (statements @ [statement]) \<and>
            statementLabel statement = Some (toUpperCase (lexeme l)) \<and>
            (\<exists>token r. rest = token # r \<and>
               ((\<exists>d vs p. tok_type token = DATA_DIRECTIVE d \<and>
                   statement = DataStatement d (Some (toUpperCase (lexeme l))) vs p) \<or>
                (\<exists>i ops p. tok_type token = INSTRUCTION i \<and>
                   statement = InstructionStatement i (Some (toUpperCase (lexeme l))) ops p))))"
proof (intro conjI impI)
  show "parseLoop (l # c # eols @ rest) statements = parseLoop (l # c # rest) statements"
    using assms by (rule parseLoop_own_line)
next
  assume h: "(\<forall>s \<in> set statements. statementLabel s \<noteq> Some (toUpperCase (lexeme l))) \<and>
          labeledStatement (Some (toUpperCase (lexeme l))) rest = Inr (statement, j)"
  then show "parseLoop (l # c # eols @ rest) statements =
      parseLoop (drop j rest) (statements @ [statement])"
    using assms by (intro parseLoop_attaches) simp_all
  from h have st: "labeledStatement (Some (toUpperCase (lexeme l))) rest = Inr (statement, j)"
    by simp
  from st show "statementLabel statement = Some (toUpperCase (lexeme l))"
    by (rule labeledStatement_label)
  from st show "\<exists>token r. rest = token # r \<and>
               ((\<exists>d vs p. tok_type token = DATA_DIRECTIVE d \<and>
                   statement = DataStatement d (Some (toUpperCase (lexeme l))) vs p) \<or>
                (\<exists>i ops p. tok_type token = INSTRUCTION i \<and>
                   statement = InstructionStatement i (Some (toUpperCase (lexeme l))) ops p))"
    by (rule labeledStatement_kind)
qed

lemma parse_ownLineSource:
  "parseTokens ownLineSource =
     Inr [OriginChangeStatement (Finite 4096) (0, 9),
          DataStatement DirDB (Some ''X'') [NumberValue (NumberLiteral (Finite 5))] (14, 16),
          EndStatement (19, 22)]"
  by code_simp

lemma parse_sameLineSource:
  "parseTokens sameLineSource =
     Inr [OriginChangeStatement (Finite 4096) (0, 9),
          DataStatement DirDB (Some ''X'') [NumberValue (NumberLiteral (Finite 5))] (14, 16),
          EndStatement (19, 22)]"
  by code_simp

lemma labeled_DB:
  "labeledStatement (Some (toUpperCase (lexeme (tk IDENTIFIER ''x'' 10))))
     [tk (DATA_DIRECTIVE DirDB) ''DB'' 14, tk NUMBER ''5'' 17, tk EOL [] 18,
      tk END ''END'' 19, tk EOL [] 22, tk EOF [] 23] =
   Inr (DataStatement DirDB (Some ''X'') [NumberValue (NumberLiteral (Finite 5))] (14, 16), 3)"
  by code_simp

text \<open>
  C10 (witness). The source \<open>ORG 1000h / x: / (empty line) / DB 5 / END\<close> parses to the
  same statements as the source with \<open>x: DB 5\<close> on one line.
\<close>

theorem C10_label_on_its_own_line_witness:
  "tok_type (tk IDENTIFIER ''x'' 10) = IDENTIFIER \<and> tok_type (tk COLON '':'' 11) = COLON \<and>
   tok_type (tk EOL [] 12) = EOL \<and> tok_type (tk EOL [] 13) = EOL \<and>
   parseLoop
     (tk IDENTIFIER ''x'' 10 # tk COLON '':'' 11 # [tk EOL [] 12, tk EOL [] 13] @
      [tk (DATA_DIRECTIVE DirDB) ''DB'' 14, tk NUMBER ''5'' 17, tk EOL [] 18,
       tk END ''END'' 19, tk EOL [] 22, tk EOF [] 23])
     [OriginChangeStatement (Finite 4096) (0, 9)] =
   parseLoop
     (tk IDENTIFIER ''x'' 10 # tk COLON '':'' 11 #
      [tk (DATA_DIRECTIVE DirDB) ''DB'' 14, tk NUMBER ''5'' 17, tk EOL [] 18,
       tk END ''END'' 19, tk EOL [] 22, tk EOF [] 23])
     [OriginChangeStatement (Finite 4096) (0, 9)] \<and>
   statementLabel (OriginChangeStatement (Finite 4096) (0, 9)) \<noteq>
     Some (toUpperCase (lexeme (tk IDENTIFIER ''x'' 10))) \<and>
   statementLabel
     (DataStatement DirDB (Some ''X'') [NumberValue (NumberLiteral (Finite 5))] (14, 16)) =
     Some (toUpperCase (lexeme (tk IDENTIFIER ''x'' 10))) \<and>
   parseTokens ownLineSource =
     Inr [OriginChangeStatement (Finite 4096) (0, 9),
          DataStatement DirDB (Some ''X'') [NumberValue (NumberLiteral (Finite 5))] (14, 16),
          EndStatement (19, 22)] \<and>
   parseTokens sameLineSource = parseTokens ownLineSource"
proof -
  have a: "tok_type (tk IDENTIFIER ''x'' 10) = IDENTIFIER"
    by (simp add: tk_def)
  have b: "tok_type (tk COLON '':'' 11) = COLON"
    by (simp add: tk_def)
  have c: "\<forall>t \<in> set [tk EOL [] 12, tk EOL [] 13]. tok_type t = EOL"
    by (simp add: tk_def)
  have d: "\<forall>s \<in> set [OriginChangeStatement (Finite 4096) (0, 9)].
      statementLabel s \<noteq> Some (toUpperCase (lexeme (tk IDENTIFIER ''x'' 10)))"
    by simp
  have c1: "tok_type (tk EOL [] 12) = EOL" and c2: "tok_type (tk EOL [] 13) = EOL"
    by (simp_all add: tk_def)
  have d1: "statementLabel (OriginChangeStatement (Finite 4096) (0, 9)) \<noteq>
     Some (toUpperCase (lexeme (tk IDENTIFIER ''x'' 10)))"
    by simp
  note t = C10_label_on_its_own_line [OF a b c, THEN conjunct1]
  note u = C10_label_on_its_own_line [OF a b c, THEN conjunct2, THEN mp,
      OF conjI [OF d labeled_DB], THEN conjunct2, THEN conjunct1]
  have s: "parseTokens sameLineSource = parseTokens ownLineSource"
    by (simp only: parse_ownLineSource parse_sameLineSource)
  show ?thesis
    by (intro conjI) (rule a b c1 c2 d1 t u parse_ownLineSource s)+
qed

end
